(* ===== verification/Prelude.thy ===== *)
theory Prelude
  imports Complex_Main "HOL-Library.AList" "HOL-Library.Char_ord"
    "HOL-Library.List_Lexorder" "HOL-Library.Multiset" "HOL-Library.Sublist"
begin

section \<open>Shared vocabulary of the reliability-lab model\<close>

text \<open>
  What every component theory builds on: Python exceptions as values, dynamically typed
  Python values where the code itself tests a type, the string and sequence checks that
  several modules repeat, SQLite transactions with rollback, SQL tables as association
  lists, and the locale \<open>reducer\<close> that states the contract of an event fold.
\<close>

named_theorems result_simps \<open>evaluation of raising and returning computations\<close>
named_theorems table_simps \<open>SQL tables as association lists\<close>

subsection \<open>Exceptions as values\<close>

text \<open>
  One constructor per exception class the modelled code raises: Python's own, the ones the
  \<open>sqlite3\<close> module raises, and those the package declares. \<open>ProcessExit\<close> stands for
  a process that dies (\<open>os._exit\<close>) at an instrumented point. An exception is its class and its message.
\<close>

datatype exn_class =
    ValueError | TypeError | KeyError | IndexError | AttributeError | OSError | AssertionError | ZeroDivisionError
  | OverflowError | RuntimeError | IntegrityError | ProcessExit
  | TerminalStateConflict | IdempotencyConflict
  | ApprovalConflict | ApprovalRequired | ApprovalDenied
  | RemoteStateAmbiguous | ReconciliationConflict | RetrySafetyUnknown | StaleProviderReadback
  | EvidenceLineageConflict | SupersededReconciliationDecision
  | StaleFencingToken | FencingConflict
  | CheckpointConflict | StaleCheckpoint

type_synonym exn = "exn_class \<times> string"
type_synonym 'a result = "exn + 'a"

abbreviation raise :: "exn_class \<Rightarrow> string \<Rightarrow> 'a result" where
  "raise c msg \<equiv> Inl (c, msg)"

text \<open>\<open>raises c r\<close>: the computation ended with an exception of class \<open>c\<close>.\<close>

fun raises :: "exn_class \<Rightarrow> 'a result \<Rightarrow> bool" where
  "raises c (Inl (d, msg)) = (c = d)"
| "raises c (Inr x) = False"

fun returns :: "'a result \<Rightarrow> bool" where
  "returns (Inl e) = False"
| "returns (Inr x) = True"

lemma raises_iff: "raises c r \<longleftrightarrow> (\<exists>msg. r = Inl (c, msg))"
  by (cases r) auto

lemma returns_iff: "returns r \<longleftrightarrow> (\<exists>x. r = Inr x)"
  by (cases r) auto

lemma not_returns_iff: "\<not> returns r \<longleftrightarrow> (\<exists>c. raises c r)"
  by (cases r) auto

definition bind_result :: "'a result \<Rightarrow> ('a \<Rightarrow> 'b result) \<Rightarrow> 'b result" where
  "bind_result r f = (case r of Inl e \<Rightarrow> Inl e | Inr x \<Rightarrow> f x)"

lemma bind_result_simps [simp, result_simps]:
  "bind_result (Inl e) f = Inl e"
  "bind_result (Inr x) f = f x"
  by (simp_all add: bind_result_def)

lemma bind_result_Inr_iff:
  "bind_result r f = Inr y \<longleftrightarrow> (\<exists>x. r = Inr x \<and> f x = Inr y)"
  by (cases r) auto

text \<open>A list comprehension whose element expression may raise: the first exception wins.\<close>

fun map_result :: "('a \<Rightarrow> 'b result) \<Rightarrow> 'a list \<Rightarrow> 'b list result" where
  "map_result f [] = Inr []"
| "map_result f (x # xs) =
     bind_result (f x) (\<lambda>y. bind_result (map_result f xs) (\<lambda>ys. Inr (y # ys)))"

lemma map_result_total:
  assumes "\<And>x. x \<in> set xs \<Longrightarrow> f x = Inr (g x)"
  shows "map_result f xs = Inr (map g xs)"
  using assms by (induction xs) simp_all

lemma map_result_length: "map_result f xs = Inr ys \<Longrightarrow> length ys = length xs"
  by (induction xs arbitrary: ys) (auto simp: bind_result_Inr_iff)

lemma map_result_nth: "map_result f xs = Inr ys \<Longrightarrow> i < length xs \<Longrightarrow> f (xs ! i) = Inr (ys ! i)"
proof (induction xs arbitrary: ys i)
  case (Cons x xs)
  then show ?case by (cases i) (auto simp: bind_result_Inr_iff)
qed simp

lemma map_result_returns: "returns (map_result f xs) \<longleftrightarrow> (\<forall>x \<in> set xs. returns (f x))"
proof (induction xs)
  case (Cons x xs)
  then show ?case by (cases "f x"; cases "map_result f xs") simp_all
qed simp

lemma map_result_Inl: "map_result f xs = Inl e \<Longrightarrow> \<exists>x \<in> set xs. f x = Inl e"
proof (induction xs)
  case (Cons x xs)
  then show ?case by (cases "f x"; cases "map_result f xs") auto
qed simp

lemma map_result_mem: "map_result f xs = Inr ys \<Longrightarrow> y \<in> set ys \<Longrightarrow> \<exists>x \<in> set xs. f x = Inr y"
  by (induction xs arbitrary: ys) (auto simp: bind_result_Inr_iff)

lemma map_result_set:
  assumes "map_result f xs = Inr ys" and "\<And>x y. f x = Inr y \<Longrightarrow> P y \<longleftrightarrow> Q x"
  shows "(\<forall>y \<in> set ys. P y) \<longleftrightarrow> (\<forall>x \<in> set xs. Q x)"
  using assms(1) by (induction xs arbitrary: ys) (auto simp: bind_result_Inr_iff assms(2))

lemma length_filter_all: "length (filter P xs) = length xs \<longleftrightarrow> (\<forall>x \<in> set xs. P x)"
proof (induction xs)
  case (Cons x xs)
  have "length (filter P xs) \<noteq> Suc (length xs)"
    using length_filter_le [of P xs] by linarith
  then show ?case using Cons by auto
qed simp

subsection \<open>Dynamically typed values\<close>

text \<open>
  Where the code tests a type with \<open>isinstance\<close>, the argument is a \<open>pyval\<close>; it is
  also the type of a parsed JSON document. A float is the rational it denotes (finite
  floats only: no NaN, no infinities); a dict is the list of its items in insertion order,
  with string keys as JSON has them.
\<close>

datatype pyval =
    PNone | PBool bool | PInt int | PFloat rat | PStr string
  | PList "pyval list" | PDict "(string \<times> pyval) list"

fun is_str :: "pyval \<Rightarrow> bool" where
  "is_str (PStr s) = True"
| "is_str _ = False"

fun str_of :: "pyval \<Rightarrow> string" where
  "str_of (PStr s) = s"
| "str_of _ = []"

lemma is_str_conv: "is_str v \<longleftrightarrow> v = PStr (str_of v)"
  by (cases v) auto

subsection \<open>Strings\<close>

text \<open>
  A Python string is the list of its code points; \<open>string\<close> holds the code points below
  256. The whitespace that \<open>str.strip\<close> removes is, in that range, what
  \<open>str.isspace\<close> accepts: U+0009 to U+000D, U+001C to U+0020, U+0085 and U+00A0.
\<close>

definition py_isspace :: "char \<Rightarrow> bool" where
  "py_isspace c =
     (let n = (of_char c :: nat)
      in (9 \<le> n \<and> n \<le> 13) \<or> (28 \<le> n \<and> n \<le> 32) \<or> n = 133 \<or> n = 160)"

definition py_strip :: "string \<Rightarrow> string" where
  "py_strip s = rev (dropWhile py_isspace (rev (dropWhile py_isspace s)))"

definition blank :: "string \<Rightarrow> bool" where
  "blank s \<longleftrightarrow> py_strip s = []"

lemma blank_iff: "blank s \<longleftrightarrow> (\<forall>c \<in> set s. py_isspace c)"
proof
  assume "blank s"
  then have "dropWhile py_isspace (rev (dropWhile py_isspace s)) = []"
    by (simp add: blank_def py_strip_def)
  then have *: "\<forall>c \<in> set (dropWhile py_isspace s). py_isspace c"
    by (simp add: dropWhile_eq_Nil_conv)
  show "\<forall>c \<in> set s. py_isspace c"
  proof (rule ccontr)
    assume "\<not> (\<forall>c \<in> set s. py_isspace c)"
    then have "dropWhile py_isspace s \<noteq> []" by (simp add: dropWhile_eq_Nil_conv)
    then have "\<not> py_isspace (hd (dropWhile py_isspace s))" by (rule hd_dropWhile)
    with * \<open>dropWhile py_isspace s \<noteq> []\<close> show False by (meson hd_in_set)
  qed
next
  assume "\<forall>c \<in> set s. py_isspace c"
  then have "dropWhile py_isspace s = []" by simp
  then show "blank s" unfolding blank_def py_strip_def by (simp only: rev.simps dropWhile.simps)
qed

text \<open>Decimal text of an integer, as \<open>f"{n}"\<close> prints it.\<close>

fun show_nat :: "nat \<Rightarrow> string" where
  "show_nat n =
     (if n < 10 then [char_of (48 + n)] else show_nat (n div 10) @ [char_of (48 + n mod 10)])"

declare show_nat.simps [simp del]

definition show_int :: "int \<Rightarrow> string" where
  "show_int n = (if n < 0 then ''-'' @ show_nat (nat (- n)) else show_nat (nat n))"

text \<open>\<open>f"{s!r}"\<close> for a string that holds no quote, backslash or control character.\<close>

definition quoted :: "string \<Rightarrow> string" where
  "quoted s = [CHR 0x27] @ s @ [CHR 0x27]"

text \<open>
  \<open>not isinstance(value, str) or not value.strip()\<close>, the guard that most constructors
  and store operations share.
\<close>

definition not_nonempty_str :: "pyval \<Rightarrow> bool" where
  "not_nonempty_str v \<longleftrightarrow> \<not> is_str v \<or> blank (str_of v)"

lemma not_nonempty_str_PStr [simp]: "not_nonempty_str (PStr s) = blank s"
  by (simp add: not_nonempty_str_def)

subsection \<open>Strictly increasing sequence numbers\<close>

text \<open>
  \<open>sequences != sorted(sequences) or len(sequences) != len(set(sequences))\<close>, as the
  reducers and the trace validator write it.
\<close>

definition not_strictly_increasing :: "int list \<Rightarrow> bool" where
  "not_strictly_increasing xs \<longleftrightarrow> xs \<noteq> sort xs \<or> length xs \<noteq> length (remdups xs)"

lemma not_strictly_increasing_iff:
  "not_strictly_increasing xs \<longleftrightarrow> \<not> sorted_wrt (<) xs"
proof -
  have "xs = sort xs \<longleftrightarrow> sorted xs"
    by (metis sorted_sort sorted_sort_id)
  moreover have "length xs = length (remdups xs) \<longleftrightarrow> distinct xs"
    by (metis length_remdups_eq remdups_id_iff_distinct)
  ultimately show ?thesis
    by (auto simp: not_strictly_increasing_def strict_sorted_iff)
qed

lemma sorted_wrt_less_distinct: "sorted_wrt (<) (xs :: int list) \<Longrightarrow> distinct xs"
  by (simp add: strict_sorted_iff)

subsection \<open>Folding events with early exit\<close>

text \<open>\<open>for event in events: state = step(state, event)\<close>, where \<open>step\<close> may raise.\<close>

fun run_steps :: "('s \<Rightarrow> 'e \<Rightarrow> 's result) \<Rightarrow> 's \<Rightarrow> 'e list \<Rightarrow> 's result" where
  "run_steps step s [] = Inr s"
| "run_steps step s (e # es) = bind_result (step s e) (\<lambda>s'. run_steps step s' es)"

lemma run_steps_append:
  "run_steps step s (xs @ ys) =
     bind_result (run_steps step s xs) (\<lambda>s'. run_steps step s' ys)"
  by (induction xs arbitrary: s) (simp_all add: bind_result_def split: sum.splits)

lemma run_steps_snoc:
  "run_steps step s (xs @ [x]) = bind_result (run_steps step s xs) (\<lambda>s'. step s' x)"
  by (simp add: run_steps_append bind_result_def split: sum.splits)

lemma run_steps_prefix:
  "run_steps step s (xs @ ys) = Inr t \<Longrightarrow> \<exists>s'. run_steps step s xs = Inr s' \<and> run_steps step s' ys = Inr t"
  by (auto simp: run_steps_append bind_result_Inr_iff)

text \<open>
  The contract of a reducer: each step keeps an invariant that may mention the events
  consumed so far. Its client lemmas carry the invariant through a whole replay.
\<close>

locale reducer =
  fixes step :: "'s \<Rightarrow> 'e \<Rightarrow> 's result"
    and inv :: "'e list \<Rightarrow> 's \<Rightarrow> bool"
  assumes step_inv: "inv seen s \<Longrightarrow> step s e = Inr s' \<Longrightarrow> inv (seen @ [e]) s'"
begin

lemma run_inv_from:
  "inv seen s \<Longrightarrow> run_steps step s es = Inr s' \<Longrightarrow> inv (seen @ es) s'"
proof (induction es arbitrary: seen s)
  case Nil
  then show ?case by simp
next
  case (Cons e es)
  from Cons.prems(2) obtain s1 where s1: "step s e = Inr s1" "run_steps step s1 es = Inr s'"
    by (auto simp: bind_result_Inr_iff)
  from Cons.prems(1) s1(1) have "inv (seen @ [e]) s1" by (rule step_inv)
  from Cons.IH [OF this s1(2)] show ?case by simp
qed

lemma run_inv: "inv [] s \<Longrightarrow> run_steps step s es = Inr s' \<Longrightarrow> inv es s'"
  using run_inv_from [of "[]" s es s'] by simp

end

subsection \<open>SQL tables\<close>

text \<open>
  A table with a primary key is the list of its rows, keyed, in insertion order; \<open>SELECT\<close>
  by key is \<open>map_of\<close>, \<open>INSERT\<close> appends, \<open>UPDATE\<close> by key and the upsert
  \<open>ON CONFLICT DO UPDATE\<close> are \<open>AList.update\<close>. \<open>ORDER BY\<close> on a text column
  sorts by code points, as SQLite's \<open>BINARY\<close> collation orders UTF-8.
\<close>

type_synonym ('k, 'r) table = "('k \<times> 'r) list"

definition select_key :: "('k, 'r) table \<Rightarrow> 'k \<Rightarrow> 'r option" where
  "select_key t k = map_of t k"

definition insert_row :: "'k \<Rightarrow> 'r \<Rightarrow> ('k, 'r) table \<Rightarrow> ('k, 'r) table" where
  "insert_row k r t = t @ [(k, r)]"

definition upsert_row :: "'k \<Rightarrow> 'r \<Rightarrow> ('k, 'r) table \<Rightarrow> ('k, 'r) table" where
  "upsert_row k r t = AList.update k r t"

definition update_row :: "'k \<Rightarrow> ('r \<Rightarrow> 'r) \<Rightarrow> ('k, 'r) table \<Rightarrow> ('k, 'r) table" where
  "update_row k f t = map (\<lambda>(k', r). (k', if k' = k then f r else r)) t"

definition primary_key :: "('k, 'r) table \<Rightarrow> bool" where
  "primary_key t \<longleftrightarrow> distinct (map fst t)"

lemma select_empty [simp, table_simps]: "select_key [] k = None"
  by (simp add: select_key_def)

lemma select_insert [table_simps]:
  "select_key t k = None \<Longrightarrow>
     select_key (insert_row k r t) k' = (if k' = k then Some r else select_key t k')"
  by (auto simp: select_key_def insert_row_def map_add_def split: option.splits)

lemma select_upsert [simp, table_simps]:
  "select_key (upsert_row k r t) k' = (if k' = k then Some r else select_key t k')"
  by (simp add: select_key_def upsert_row_def update_conv)

lemma select_update [simp, table_simps]:
  "select_key (update_row k f t) k' =
     (if k' = k then map_option f (select_key t k') else select_key t k')"
  by (induction t) (auto simp: select_key_def update_row_def)

lemma primary_key_empty [simp, table_simps]: "primary_key []"
  by (simp add: primary_key_def)

lemma primary_key_insert [table_simps]:
  "select_key t k = None \<Longrightarrow> primary_key (insert_row k r t) = primary_key t"
  by (auto simp: select_key_def insert_row_def primary_key_def map_of_eq_None_iff)

lemma primary_key_upsert [simp, table_simps]:
  "primary_key t \<Longrightarrow> primary_key (upsert_row k r t)"
  by (simp add: primary_key_def upsert_row_def distinct_update)

lemma keys_update_row [simp, table_simps]: "map fst (update_row k f t) = map fst t"
  by (auto simp: update_row_def)

lemma primary_key_update [simp, table_simps]:
  "primary_key (update_row k f t) = primary_key t"
  by (simp add: primary_key_def)

lemma select_Some_iff:
  "primary_key t \<Longrightarrow> select_key t k = Some r \<longleftrightarrow> (k, r) \<in> set t"
  by (simp add: primary_key_def select_key_def)

lemma select_SomeD: "select_key t k = Some r \<Longrightarrow> (k, r) \<in> set t"
  by (simp add: select_key_def map_of_SomeD)

lemma select_None_iff: "select_key t k = None \<longleftrightarrow> k \<notin> fst ` set t"
  by (simp add: select_key_def map_of_eq_None_iff)

subsection \<open>SQLite integers and transactions\<close>

text \<open>
  The \<open>sqlite3\<close> module stores a Python integer in 64 bits and raises
  \<open>OverflowError\<close> for one that does not fit when it is bound to a statement.
\<close>

definition fits_int64 :: "int \<Rightarrow> bool" where
  "fits_int64 n \<longleftrightarrow> - (2 ^ 63) \<le> n \<and> n < 2 ^ 63"

definition overflow :: "'a result" where
  "overflow = raise OverflowError ''Python int too large to convert to SQLite INTEGER''"

lemma raises_overflow [simp]: "raises c overflow \<longleftrightarrow> c = OverflowError"
  by (simp add: overflow_def)

lemma overflow_neq_Inr [simp]: "overflow \<noteq> Inr x" "Inr x \<noteq> overflow"
  by (simp_all add: overflow_def)

text \<open>
  The body of a \<open>with self._transaction() as conn\<close> block computes on the database and
  ends by returning or raising, with the rows it has written so far. The context manager
  commits those rows when the body returns and rolls every one of them back when it raises.
  \<open>BEGIN IMMEDIATE\<close> takes the write lock first, so blocks of different processes run one
  after the other.
\<close>

type_synonym ('db, 'a) txn = "'db \<Rightarrow> 'a result \<times> 'db"

definition transaction :: "('db, 'a) txn \<Rightarrow> ('db, 'a) txn" where
  "transaction body db =
     (case body db of
        (Inl e, db') \<Rightarrow> (Inl e, db)
      | (Inr x, db') \<Rightarrow> (Inr x, db'))"

lemma transaction_Inl [result_simps]:
  "body db = (Inl e, db') \<Longrightarrow> transaction body db = (Inl e, db)"
  by (simp add: transaction_def)

lemma transaction_Inr [result_simps]:
  "body db = (Inr x, db') \<Longrightarrow> transaction body db = (Inr x, db')"
  by (simp add: transaction_def)

lemma transaction_rollback: "fst (transaction body db) = Inl e \<Longrightarrow> snd (transaction body db) = db"
  by (auto simp: transaction_def split: prod.splits sum.splits)

lemma transaction_commit:
  "fst (transaction body db) = Inr x \<Longrightarrow> transaction body db = body db"
  by (auto simp: transaction_def split: prod.splits sum.splits)

lemma fst_transaction [simp]: "fst (transaction body db) = fst (body db)"
  by (auto simp: transaction_def split: prod.splits sum.splits)

lemma snd_transaction:
  "snd (transaction body db) = (if returns (fst (body db)) then snd (body db) else db)"
  by (auto simp: transaction_def split: prod.splits sum.splits)

end
