(* ===== verification/Digest.thy ===== *)
theory Digest
  imports Prelude "HOL-Library.Word"
begin

unbundle bit_operations_syntax

section \<open>Canonical JSON, UTF-8 and SHA-256\<close>

text \<open>
  The parts of Python's standard library that bind an operation to its exact content:
  \<open>json.dumps\<close> of (lists of) lists of strings with \<open>ensure_ascii=False\<close> and compact
  separators, \<open>str.encode\<close>, and \<open>hashlib.sha256(...).hexdigest()\<close> as FIPS 180-4
  defines it. The canonical JSON text is shown to determine the strings it encodes, so two
  different effects share a fingerprint only where SHA-256 itself collides.
\<close>

subsection \<open>json.dumps\<close>

abbreviation quote :: char where "quote \<equiv> CHR 0x22"
abbreviation backslash :: char where "backslash \<equiv> CHR 0x5C"

definition hex_digit :: "nat \<Rightarrow> char" where
  "hex_digit n = (if n < 10 then char_of (48 + n) else char_of (87 + n))"

definition hex_value :: "char \<Rightarrow> nat" where
  "hex_value c = (let n = (of_char c :: nat) in if n < 58 then n - 48 else n - 87)"

lemma hex_value_digit [simp]: "n < 16 \<Longrightarrow> hex_value (hex_digit n) = n"
  by (simp add: hex_value_def hex_digit_def Let_def of_char_of)

text \<open>The escapes of \<open>json.encoder\<close>: two-character ones, and \<open>u00XX\<close> for the other control characters.\<close>

definition json_escape :: "char \<Rightarrow> string" where
  "json_escape c =
     (if c = quote then [backslash, quote]
      else if c = backslash then [backslash, backslash]
      else if c = CHR 0x0A then [backslash, CHR ''n'']
      else if c = CHR 0x0D then [backslash, CHR ''r'']
      else if c = CHR 0x09 then [backslash, CHR ''t'']
      else if c = CHR 0x0C then [backslash, CHR ''f'']
      else if c = CHR 0x08 then [backslash, CHR ''b'']
      else if (of_char c :: nat) < 32
        then [backslash, CHR ''u'', CHR ''0'', CHR ''0'',
              hex_digit (of_char c div 16), hex_digit (of_char c mod 16)]
      else [c])"

definition json_string :: "string \<Rightarrow> string" where
  "json_string s = [quote] @ concat (map json_escape s) @ [quote]"

fun json_items :: "string list \<Rightarrow> string" where
  "json_items [] = ''''"
| "json_items [x] = x"
| "json_items (x # xs) = x @ '','' @ json_items xs"

definition json_array :: "string list \<Rightarrow> string" where
  "json_array xs = ''['' @ json_items xs @ '']''"

definition json_strings :: "string list \<Rightarrow> string" where
  "json_strings xs = json_array (map json_string xs)"

subsection \<open>Reading it back\<close>

fun json_unescape :: "string \<Rightarrow> (char \<times> string) option" where
  "json_unescape [] = None"
| "json_unescape (c # r) =
     (if c \<noteq> backslash then Some (c, r)
      else case r of
        [] \<Rightarrow> None
      | e # r' \<Rightarrow>
          if e = CHR ''n'' then Some (CHR 0x0A, r')
          else if e = CHR ''r'' then Some (CHR 0x0D, r')
          else if e = CHR ''t'' then Some (CHR 0x09, r')
          else if e = CHR ''f'' then Some (CHR 0x0C, r')
          else if e = CHR ''b'' then Some (CHR 0x08, r')
          else if e = CHR ''u'' then
            (case r' of
               a # b # h # l # r'' \<Rightarrow> Some (char_of (hex_value h * 16 + hex_value l), r'')
             | _ \<Rightarrow> None)
          else Some (e, r'))"

lemma json_unescape_escape [simp]: "json_unescape (json_escape c @ r) = Some (c, r)"
proof (cases "(of_char c :: nat) < 32")
  case True
  then have "char_of (hex_value (hex_digit (of_char c div 16)) * 16 + hex_value (hex_digit (of_char c mod 16))) = c"
    by (simp add: div_mult_mod_eq)
  then show ?thesis by (simp add: json_escape_def)
next
  case False
  then show ?thesis by (simp add: json_escape_def)
qed

lemma json_escape_not_quote: "\<exists>a w. json_escape c = a # w \<and> a \<noteq> quote"
  by (simp add: json_escape_def)

lemma json_escape_cancel:
  assumes "json_escape c @ x = json_escape d @ y"
  shows "c = d \<and> x = y"
  using arg_cong [OF assms, of json_unescape] by simp

lemma json_body_cancel:
  "concat (map json_escape s) @ quote # x = concat (map json_escape t) @ quote # y \<Longrightarrow> s = t \<and> x = y"
proof (induction s arbitrary: t)
  case Nil
  then show ?case
  proof (cases t)
    case (Cons d t')
    obtain a w where "json_escape d = a # w" "a \<noteq> quote" using json_escape_not_quote by blast
    with Nil Cons show ?thesis by simp
  qed simp
next
  case (Cons c s)
  obtain a w where aw: "json_escape c = a # w" "a \<noteq> quote" using json_escape_not_quote by blast
  then obtain d t' where t: "t = d # t'" using Cons.prems by (cases t) auto
  with Cons.prems have
    "json_escape c @ concat (map json_escape s) @ quote # x =
     json_escape d @ concat (map json_escape t') @ quote # y"
    by simp
  from json_escape_cancel [OF this] Cons.IH t show ?case by blast
qed

lemma json_string_cancel: "json_string s @ x = json_string t @ y \<Longrightarrow> s = t \<and> x = y"
  by (auto simp: json_string_def dest: json_body_cancel)

text \<open>
  A list of items, each of which determines where it ends, can be read back when what
  follows the list is not a comma: the text of a list ends in a closing bracket.
\<close>

definition self_delimiting :: "('a \<Rightarrow> string) \<Rightarrow> bool" where
  "self_delimiting f \<longleftrightarrow>
     (\<forall>s t x y. f s @ x = f t @ y \<longrightarrow> s = t \<and> x = y) \<and> (\<forall>s. \<exists>a w. f s = a # w \<and> a \<noteq> CHR '']'')"

lemma self_delimitingD:
  "self_delimiting f \<Longrightarrow> f s @ x = f t @ y \<Longrightarrow> s = t \<and> x = y"
  "self_delimiting f \<Longrightarrow> \<exists>a w. f s = a # w \<and> a \<noteq> CHR '']''"
  unfolding self_delimiting_def by blast+

lemma json_items_cancel:
  assumes sd: "self_delimiting f"
  shows "json_items (map f xs) @ CHR '']'' # u = json_items (map f ys) @ CHR '']'' # v \<Longrightarrow> xs = ys \<and> u = v"
proof (induction xs arbitrary: ys)
  case Nil
  then show ?case
  proof (cases ys)
    case (Cons y ys')
    obtain a w where "f y = a # w" "a \<noteq> CHR '']''" using self_delimitingD(2) [OF sd] by blast
    with Nil Cons show ?thesis by (cases ys') auto
  qed simp
next
  case (Cons x xs)
  obtain a w where aw: "f x = a # w" "a \<noteq> CHR '']''" using self_delimitingD(2) [OF sd] by blast
  from Cons.prems aw obtain y ys' where ys: "ys = y # ys'" by (cases ys; cases xs) auto
  define tail :: "'a list \<Rightarrow> string \<Rightarrow> string" where
    "tail zs z = (if zs = [] then CHR '']'' # z else CHR '','' # json_items (map f zs) @ CHR '']'' # z)"
    for zs z
  have eq: "json_items (map f (z # zs)) @ CHR '']'' # q = f z @ tail zs q" for z zs q
    by (cases zs) (simp_all add: tail_def)
  from Cons.prems have "f x @ tail xs u = f y @ tail ys' v" unfolding ys eq .
  from self_delimitingD(1) [OF sd this] have xy: "x = y" and t: "tail xs u = tail ys' v" by simp_all
  show ?case
  proof (cases "xs = [] \<or> ys' = []")
    case True
    with t show ?thesis by (auto simp: tail_def xy ys split: if_splits)
  next
    case False
    with t have "json_items (map f xs) @ CHR '']'' # u = json_items (map f ys') @ CHR '']'' # v"
      by (simp add: tail_def)
    from Cons.IH [OF this] show ?thesis by (simp add: xy ys)
  qed
qed

lemma self_delimiting_array:
  assumes "self_delimiting f"
  shows "self_delimiting (\<lambda>xs. json_array (map f xs))"
  unfolding self_delimiting_def
proof (intro conjI allI impI)
  fix xs ys :: "'a list" and x y
  assume "json_array (map f xs) @ x = json_array (map f ys) @ y"
  then have "json_items (map f xs) @ CHR '']'' # x = json_items (map f ys) @ CHR '']'' # y"
    by (simp add: json_array_def)
  from json_items_cancel [OF assms this] show "xs = ys" "x = y" by simp_all
next
  fix xs :: "'a list"
  show "\<exists>a w. json_array (map f xs) = a # w \<and> a \<noteq> CHR '']''" by (simp add: json_array_def)
qed

lemma self_delimiting_json_string: "self_delimiting json_string"
  unfolding self_delimiting_def
proof (intro conjI allI impI)
  fix s t x y
  assume "json_string s @ x = json_string t @ y"
  from json_string_cancel [OF this] show "s = t" "x = y" by simp_all
next
  fix s
  show "\<exists>a w. json_string s = a # w \<and> a \<noteq> CHR '']''" by (simp add: json_string_def)
qed

lemma self_delimiting_inj: "self_delimiting f \<Longrightarrow> f s = f t \<Longrightarrow> s = t"
  using self_delimitingD(1) [of f s "[]" t "[]"] by simp

lemma json_strings_inj: "json_strings xs = json_strings ys \<Longrightarrow> xs = ys"
  using self_delimiting_inj [OF self_delimiting_array [OF self_delimiting_json_string]]
  by (simp add: json_strings_def)

lemma json_nested_inj:
  "json_array (map json_strings xs) = json_array (map json_strings ys) \<Longrightarrow> xs = ys"
  using self_delimiting_inj
    [OF self_delimiting_array [OF self_delimiting_array [OF self_delimiting_json_string]]]
  unfolding json_strings_def by blast

subsection \<open>UTF-8\<close>

definition utf8_char :: "char \<Rightarrow> 8 word list" where
  "utf8_char c =
     (let n = (of_char c :: nat)
      in if n < 128 then [of_nat n] else [of_nat (192 + n div 64), of_nat (128 + n mod 64)])"

definition encode :: "string \<Rightarrow> 8 word list" where
  "encode s = concat (map utf8_char s)"

subsection \<open>SHA-256\<close>

type_synonym w32 = "32 word"
type_synonym hash_state = "w32 \<times> w32 \<times> w32 \<times> w32 \<times> w32 \<times> w32 \<times> w32 \<times> w32"

text \<open>
  The constants of FIPS 180-4: the first 32 bits of the fractional parts of the cube roots of the
  first 64 primes, and of the square roots of the first 8. \<open>iroot k n b\<close> is the integer part of
  the \<open>k\<close>-th root of \<open>n\<close>, if that has at most \<open>b\<close> bits; the roots here are below \<open>2 ^ 35\<close>.
  Taking a natural number to a 32-bit word drops the integer part of the root.
\<close>

fun iroot :: "nat \<Rightarrow> nat \<Rightarrow> nat \<Rightarrow> nat" where
  "iroot k n 0 = 0"
| "iroot k n (Suc b) =
     (let r = 2 * iroot k (n div 2 ^ k) b in if (r + 1) ^ k \<le> n then r + 1 else r)"

definition sha_primes :: "nat list" where
  "sha_primes = filter (\<lambda>n. list_all (\<lambda>d. n mod d \<noteq> 0) [2..<n]) [2..<312]"

definition sha_k :: "w32 list" where
  "sha_k = map (\<lambda>p. of_nat (iroot 3 (p * 2 ^ 96) 36)) sha_primes"

definition sha_init :: hash_state where
  "sha_init =
     (let h = (\<lambda>i. of_nat (iroot 2 (sha_primes ! i * 2 ^ 64) 36))
      in (h 0, h 1, h 2, h 3, h 4, h 5, h 6, h 7))"

definition rotr :: "nat \<Rightarrow> w32 \<Rightarrow> w32" where
  "rotr n x = drop_bit n x OR push_bit (32 - n) x"

definition big_sigma0 :: "w32 \<Rightarrow> w32" where
  "big_sigma0 x = rotr 2 x XOR rotr 13 x XOR rotr 22 x"

definition big_sigma1 :: "w32 \<Rightarrow> w32" where
  "big_sigma1 x = rotr 6 x XOR rotr 11 x XOR rotr 25 x"

definition small_sigma0 :: "w32 \<Rightarrow> w32" where
  "small_sigma0 x = rotr 7 x XOR rotr 18 x XOR drop_bit 3 x"

definition small_sigma1 :: "w32 \<Rightarrow> w32" where
  "small_sigma1 x = rotr 17 x XOR rotr 19 x XOR drop_bit 10 x"

definition be32 :: "8 word list \<Rightarrow> w32" where
  "be32 bs = foldl (\<lambda>acc b. push_bit 8 acc OR ucast b) 0 bs"

definition be_bytes :: "64 word \<Rightarrow> 8 word list" where
  "be_bytes n = map (\<lambda>i. ucast (drop_bit i n)) [56, 48, 40, 32, 24, 16, 8, 0]"

fun chunks :: "nat \<Rightarrow> 'a list \<Rightarrow> 'a list list" where
  "chunks n [] = []"
| "chunks n (x # xs) = (x # take (n - 1) xs) # chunks n (drop (n - 1) xs)"

definition sha_pad :: "8 word list \<Rightarrow> 8 word list" where
  "sha_pad bs =
     bs @ [0x80] @ replicate ((119 - length bs mod 64) mod 64) 0 @ be_bytes (of_nat (8 * length bs))"

fun extend :: "nat \<Rightarrow> w32 list \<Rightarrow> w32 list" where
  "extend 0 ws = rev ws"
| "extend (Suc k) ws =
     extend k ((small_sigma1 (ws ! 1) + ws ! 6 + small_sigma0 (ws ! 14) + ws ! 15) # ws)"

definition sha_schedule :: "8 word list \<Rightarrow> w32 list" where
  "sha_schedule block = extend 48 (rev (map be32 (chunks 4 block)))"

fun sha_round :: "hash_state \<Rightarrow> w32 \<times> w32 \<Rightarrow> hash_state" where
  "sha_round (a, b, c, d, e, f, g, h) (k, w) =
     (let t1 = h + big_sigma1 e + ((e AND f) XOR (NOT e AND g)) + k + w;
          t2 = big_sigma0 a + ((a AND b) XOR (a AND c) XOR (b AND c))
      in (t1 + t2, a, b, c, d + t1, e, f, g))"

fun sha_add :: "hash_state \<Rightarrow> hash_state \<Rightarrow> hash_state" where
  "sha_add (a, b, c, d, e, f, g, h) (a', b', c', d', e', f', g', h') =
     (a + a', b + b', c + c', d + d', e + e', f + f', g + g', h + h')"

definition sha_block :: "hash_state \<Rightarrow> 8 word list \<Rightarrow> hash_state" where
  "sha_block s block = sha_add s (foldl sha_round s (zip sha_k (sha_schedule block)))"

definition sha_words :: "hash_state \<Rightarrow> w32 list" where
  "sha_words s = (case s of (a, b, c, d, e, f, g, h) \<Rightarrow> [a, b, c, d, e, f, g, h])"

definition hex_word :: "w32 \<Rightarrow> string" where
  "hex_word w = map (\<lambda>i. hex_digit (unat (drop_bit i w AND 15))) [28, 24, 20, 16, 12, 8, 4, 0]"

text \<open>\<open>hashlib.sha256(data).hexdigest()\<close>, and \<open>hashlib.sha256(text.encode()).hexdigest()\<close>.\<close>

definition sha256_hex :: "8 word list \<Rightarrow> string" where
  "sha256_hex bs = concat (map hex_word (sha_words (foldl sha_block sha_init (chunks 64 (sha_pad bs)))))"

definition sha256_text :: "string \<Rightarrow> string" where
  "sha256_text s = sha256_hex (encode s)"

lemma length_hex_word [simp]: "length (hex_word w) = 8"
  by (simp add: hex_word_def)

lemma length_sha256_hex: "length (sha256_hex bs) = 64"
  by (simp add: sha256_hex_def sha_words_def length_concat split: prod.splits)

lemma set_hex_word: "set (hex_word w) \<subseteq> hex_digit ` {..<16}"
proof -
  have "unat (x AND 15) < 16" for x :: w32
  proof -
    have "unat (x AND 15) \<le> unat (15 :: w32)"
      by (rule word_and_le1 [THEN word_le_nat_alt [THEN iffD1]])
    then show ?thesis by simp
  qed
  then show ?thesis by (auto simp: hex_word_def)
qed

lemma set_sha256_hex: "set (sha256_hex bs) \<subseteq> hex_digit ` {..<16}"
  using set_hex_word by (fastforce simp: sha256_hex_def)

end
