(* ===== verification/Store.thy ===== *)
theory Store
  imports Prelude
begin

section \<open>Persistent stores, schedules and process crashes\<close>

text \<open>
  The five SQLite-backed classes of the package share one contract: an operation is one or
  more \<open>BEGIN IMMEDIATE\<close> transactions on a database file that survives the process. Here
  is that contract as a locale, what it gives for every schedule of operations, whatever
  processes issue them, and a step relation for processes that can die between taking the
  write lock and committing.
\<close>

subsection \<open>Schedules\<close>

text \<open>
  \<open>exec db op\<close> is the outcome of an operation and the database it leaves. A schedule is a
  list of operations: SQLite's write lock runs the transactions of all processes in some such order.
\<close>

fun after :: "('db \<Rightarrow> 'op \<Rightarrow> 'r result \<times> 'db) \<Rightarrow> 'db \<Rightarrow> 'op list \<Rightarrow> 'db" where
  "after exec db [] = db"
| "after exec db (op # ops) = after exec (snd (exec db op)) ops"

fun outcomes :: "('db \<Rightarrow> 'op \<Rightarrow> 'r result \<times> 'db) \<Rightarrow> 'db \<Rightarrow> 'op list \<Rightarrow> 'r result list" where
  "outcomes exec db [] = []"
| "outcomes exec db (op # ops) = fst (exec db op) # outcomes exec (snd (exec db op)) ops"

lemma after_append: "after exec db (xs @ ys) = after exec (after exec db xs) ys"
  by (induction xs arbitrary: db) simp_all

lemma outcomes_append:
  "outcomes exec db (xs @ ys) = outcomes exec db xs @ outcomes exec (after exec db xs) ys"
  by (induction xs arbitrary: db) simp_all

lemma length_outcomes [simp]: "length (outcomes exec db ops) = length ops"
  by (induction ops arbitrary: db) simp_all

text \<open>How many operations of a schedule returned a result of interest.\<close>

definition successes :: "('op \<Rightarrow> 'r \<Rightarrow> bool) \<Rightarrow> 'op list \<Rightarrow> 'r result list \<Rightarrow> nat" where
  "successes Q ops rs =
     length (filter (\<lambda>(op, r). case r of Inl e \<Rightarrow> False | Inr x \<Rightarrow> Q op x) (zip ops rs))"

text \<open>A method with its own result type as one operation of a store.\<close>

definition wrap :: "('a \<Rightarrow> 'b) \<Rightarrow> 'a result \<times> 'db \<Rightarrow> 'b result \<times> 'db" where
  "wrap f p = (case p of (Inl e, db) \<Rightarrow> (Inl e, db) | (Inr x, db) \<Rightarrow> (Inr (f x), db))"

lemma snd_wrap [simp]: "snd (wrap f p) = snd p"
  by (auto simp: wrap_def split: prod.split sum.split)

lemma fst_wrap: "fst (wrap f p) = map_sum id f (fst p)"
  by (auto simp: wrap_def split: prod.split sum.split)

lemma fst_wrap_Inr: "fst (wrap f p) = Inr y \<longleftrightarrow> (\<exists>x. fst p = Inr x \<and> y = f x)"
  by (auto simp: wrap_def split: prod.split sum.split)

lemma returns_wrap [simp]: "returns (fst (wrap f p)) = returns (fst p)"
  by (auto simp: wrap_def split: prod.split sum.split)

lemma raises_wrap [simp]: "raises c (fst (wrap f p)) = raises c (fst p)"
  by (auto simp: wrap_def split: prod.split sum.split)

subsection \<open>The contract of a store\<close>

locale store =
  fixes exec :: "'db \<Rightarrow> 'op \<Rightarrow> 'r result \<times> 'db"
    and inv :: "'db \<Rightarrow> bool"
  assumes exec_inv: "inv db \<Longrightarrow> inv (snd (exec db op))"
    and exec_fail: "inv db \<Longrightarrow> \<not> returns (fst (exec db op)) \<Longrightarrow> snd (exec db op) = db"
begin

lemma after_inv: "inv db \<Longrightarrow> inv (after exec db ops)"
  by (induction ops arbitrary: db) (simp_all add: exec_inv)

lemma after_drop_failed:
  assumes "inv db" and "\<not> returns (fst (exec (after exec db xs) op))"
  shows "after exec db (xs @ op # ys) = after exec db (xs @ ys)"
  using exec_fail [OF after_inv [OF assms(1)] assms(2)] by (simp add: after_append)

text \<open>A property that one operation keeps, every schedule keeps.\<close>

lemma after_stable:
  assumes step: "\<And>db op. inv db \<Longrightarrow> P db \<Longrightarrow> P (snd (exec db op))"
  shows "inv db \<Longrightarrow> P db \<Longrightarrow> P (after exec db ops)"
  by (induction ops arbitrary: db) (simp_all add: step exec_inv)

text \<open>A relation between the operations issued so far and the database.\<close>

lemma after_history:
  assumes step: "\<And>hist db op. inv db \<Longrightarrow> H hist db \<Longrightarrow> H (hist @ [op]) (snd (exec db op))"
    and "inv db" and "H [] db"
  shows "H ops (after exec db ops)"
proof (induction ops rule: rev_induct)
  case Nil
  show ?case by (simp add: assms(3))
next
  case (snoc op ops)
  from step [OF after_inv [OF assms(2)] snoc] show ?case by (simp add: after_append)
qed

text \<open>
  At most one success: if a success of an operation of the class \<open>Q\<close> leaves the database in a
  state \<open>D\<close> that no operation leaves, and in which no operation of the class succeeds,
  then a schedule holds at most one success of the class.
\<close>

lemma no_success:
  assumes stay: "\<And>db op. inv db \<Longrightarrow> D db \<Longrightarrow> D (snd (exec db op))"
    and block: "\<And>db op x. inv db \<Longrightarrow> D db \<Longrightarrow> fst (exec db op) = Inr x \<Longrightarrow> \<not> Q op x"
  shows "inv db \<Longrightarrow> D db \<Longrightarrow> successes Q ops (outcomes exec db ops) = 0"
proof (induction ops arbitrary: db)
  case Nil
  then show ?case by (simp add: successes_def)
next
  case (Cons op ops)
  have "successes Q ops (outcomes exec (snd (exec db op)) ops) = 0"
    using Cons by (simp add: stay exec_inv)
  with block [OF Cons.prems, of op] show ?case
    by (auto simp: successes_def split: sum.splits)
qed

lemma at_most_one_success:
  assumes stay: "\<And>db op. inv db \<Longrightarrow> D db \<Longrightarrow> D (snd (exec db op))"
    and block: "\<And>db op x. inv db \<Longrightarrow> D db \<Longrightarrow> fst (exec db op) = Inr x \<Longrightarrow> \<not> Q op x"
    and enter: "\<And>db op x. inv db \<Longrightarrow> fst (exec db op) = Inr x \<Longrightarrow> Q op x \<Longrightarrow> D (snd (exec db op))"
  shows "inv db \<Longrightarrow> successes Q ops (outcomes exec db ops) \<le> 1"
proof (induction ops arbitrary: db)
  case Nil
  then show ?case by (simp add: successes_def)
next
  case (Cons op ops)
  let ?db = "snd (exec db op)"
  have rest: "successes Q ops (outcomes exec ?db ops) \<le> 1"
    using Cons by (simp add: exec_inv)
  show ?case
  proof (cases "\<exists>x. fst (exec db op) = Inr x \<and> Q op x")
    case True
    then have "D ?db" using enter [OF Cons.prems] by blast
    then have "successes Q ops (outcomes exec ?db ops) = 0"
      by (intro no_success [where D = D]) (use stay block exec_inv [OF Cons.prems] in simp_all)
    then show ?thesis by (auto simp: successes_def split: sum.splits)
  next
    case False
    with rest show ?thesis by (auto simp: successes_def split: sum.splits)
  qed
qed

end

text \<open>
  A store that keeps, for each key, a version number that no operation lowers (an authority
  epoch, an evidence revision, a provider revision, a checkpoint sequence), and a part of the
  database (\<open>view\<close>) that changes only together with its version.
\<close>

locale versioned_store = store exec inv
  for exec :: "'db \<Rightarrow> 'op \<Rightarrow> 'r result \<times> 'db" and inv :: "'db \<Rightarrow> bool" +
  fixes version :: "'db \<Rightarrow> 'key \<Rightarrow> int"
    and view :: "'db \<Rightarrow> 'key \<Rightarrow> 'v"
  assumes version_mono: "inv db \<Longrightarrow> version db k \<le> version (snd (exec db op)) k"
    and view_stable: "inv db \<Longrightarrow> version (snd (exec db op)) k = version db k \<Longrightarrow>
      view (snd (exec db op)) k = view db k"
begin

lemma after_version_mono: "inv db \<Longrightarrow> version db k \<le> version (after exec db ops) k"
proof (induction ops arbitrary: db)
  case Nil
  then show ?case by simp
next
  case (Cons op ops)
  from Cons.prems have "version db k \<le> version (snd (exec db op)) k" by (rule version_mono)
  also have "\<dots> \<le> version (after exec (snd (exec db op)) ops) k"
    using Cons by (simp add: exec_inv)
  finally show ?case by simp
qed

lemma superseded_stays:
  "inv db \<Longrightarrow> v < version db k \<Longrightarrow> v < version (after exec db ops) k"
  using after_version_mono by (meson less_le_trans)

text \<open>No ABA: a version that is back where it was never left.\<close>

lemma view_unchanged:
  "inv db \<Longrightarrow> version (after exec db ops) k = version db k \<Longrightarrow> view (after exec db ops) k = view db k"
proof (induction ops arbitrary: db)
  case Nil
  then show ?case by simp
next
  case (Cons op ops)
  let ?db = "snd (exec db op)"
  have inv: "inv ?db" using Cons.prems(1) by (rule exec_inv)
  have "version db k \<le> version ?db k" using Cons.prems(1) by (rule version_mono)
  moreover have "version ?db k \<le> version (after exec ?db ops) k" using inv by (rule after_version_mono)
  ultimately have same: "version ?db k = version db k" using Cons.prems(2) by simp
  with Cons.IH [OF inv] Cons.prems view_stable [OF Cons.prems(1) same] show ?case by simp
qed

end

text \<open>
  Optimistic concurrency: some successes are conditioned on the version they read
  (\<open>guard op x = Some (k, v)\<close>) and move it on. Then a version is consumed at most once, a
  stale guard is refused for ever, and a guard that still holds means that nothing happened in between.
\<close>

locale conditional_store = versioned_store exec inv version view
  for exec :: "'db \<Rightarrow> 'op \<Rightarrow> 'r result \<times> 'db" and inv :: "'db \<Rightarrow> bool"
    and version :: "'db \<Rightarrow> 'key \<Rightarrow> int" and view :: "'db \<Rightarrow> 'key \<Rightarrow> 'v" +
  fixes guard :: "'op \<Rightarrow> 'r \<Rightarrow> ('key \<times> int) option"
  assumes guard_consumes: "inv db \<Longrightarrow> fst (exec db op) = Inr x \<Longrightarrow> guard op x = Some (k, v) \<Longrightarrow>
      version db k = v \<and> v < version (snd (exec db op)) k"
begin

lemma one_success_per_version:
  assumes "inv db"
  shows "successes (\<lambda>op x. guard op x = Some (k, v)) ops (outcomes exec db ops) \<le> 1"
proof (rule at_most_one_success [where D = "\<lambda>db. v < version db k"])
  fix db op
  assume "inv db" "v < version db k"
  then show "v < version (snd (exec db op)) k" using version_mono by (meson less_le_trans)
next
  fix db op x
  assume "inv db" "v < version db k" "fst (exec db op) = Inr x"
  then show "guard op x \<noteq> Some (k, v)" using guard_consumes by fastforce
next
  fix db op x
  assume "inv db" "fst (exec db op) = Inr x" "guard op x = Some (k, v)"
  then show "v < version (snd (exec db op)) k" using guard_consumes by blast
qed (rule assms)

lemma stale_guard_refused:
  assumes "inv db" and "v < version db k"
    and "fst (exec (after exec db ops) op) = Inr x"
  shows "guard op x \<noteq> Some (k, v)"
  using guard_consumes [OF after_inv [OF assms(1)] assms(3)] superseded_stays [OF assms(1,2), of ops]
  by fastforce

lemma guard_means_unchanged:
  assumes "inv db" and "fst (exec (after exec db ops) op) = Inr x"
    and "guard op x = Some (k, version db k)"
  shows "view (after exec db ops) k = view db k"
  using guard_consumes [OF after_inv [OF assms(1)] assms(2,3)] by (intro view_unchanged assms(1)) simp

end

subsection \<open>Processes that crash\<close>

text \<open>
  A process takes the write lock (\<open>BEGIN IMMEDIATE\<close>), works on its uncommitted rows, and
  then commits or dies; a death, or an exception, releases the lock and SQLite discards the
  uncommitted rows. \<open>log\<close> is a history variable: the operations committed so far, each with the
  process that ran it. Whether the process lives to see its outcome makes no difference to the database.
\<close>

record ('db, 'op) system =
  committed :: 'db
  lock :: "(nat \<times> 'op) option"
  log :: "(nat \<times> 'op) list"

inductive process_step ::
  "('db \<Rightarrow> 'op \<Rightarrow> 'r result \<times> 'db) \<Rightarrow> ('db, 'op) system \<Rightarrow> ('db, 'op) system \<Rightarrow> bool"
  for exec where
  begin_immediate:
    "lock s = None \<Longrightarrow> process_step exec s (s\<lparr>lock := Some (w, op)\<rparr>)"
| commit:
    "lock s = Some (w, op) \<Longrightarrow>
       process_step exec s
         (s\<lparr>committed := snd (exec (committed s) op), lock := None, log := log s @ [(w, op)]\<rparr>)"
| crash:
    "lock s = Some (w, op) \<Longrightarrow> process_step exec s (s\<lparr>lock := None\<rparr>)"

inductive_cases process_stepE: "process_step exec s t"

inductive_simps process_step_unlocked: "process_step exec s (t\<lparr>lock := Some p\<rparr>)"

inductive reachable ::
  "('db \<Rightarrow> 'op \<Rightarrow> 'r result \<times> 'db) \<Rightarrow> 'db \<Rightarrow> ('db, 'op) system \<Rightarrow> bool"
  for exec db where
  initial: "reachable exec db \<lparr>committed = db, lock = None, log = []\<rparr>"
| step: "reachable exec db s \<Longrightarrow> process_step exec s t \<Longrightarrow> reachable exec db t"

text \<open>Every interleaving with crashes is the serial schedule of what it committed.\<close>

lemma reachable_serial: "reachable exec db s \<Longrightarrow> committed s = after exec db (map snd (log s))"
proof (induction rule: reachable.induct)
  case initial
  show ?case by simp
next
  case (step s t)
  from step.hyps(2) step.IH show ?case
    by (cases rule: process_step.cases) (simp_all add: after_append)
qed

text \<open>Conversely every serial schedule is reachable, by one process that never crashes.\<close>

lemma serial_reachable:
  "reachable exec db \<lparr>committed = after exec db ops, lock = None, log = map (Pair w) ops\<rparr>"
proof (induction ops rule: rev_induct)
  case Nil
  show ?case by (simp add: reachable.initial)
next
  case (snoc op ops)
  let ?s = "\<lparr>committed = after exec db ops, lock = None, log = map (Pair w) ops\<rparr>"
  have "process_step exec ?s (?s\<lparr>lock := Some (w, op)\<rparr>)" by (rule begin_immediate) simp
  with snoc have "reachable exec db (?s\<lparr>lock := Some (w, op)\<rparr>)" by (rule reachable.step)
  moreover have "process_step exec (?s\<lparr>lock := Some (w, op)\<rparr>)
      \<lparr>committed = after exec db (ops @ [op]), lock = None, log = map (Pair w) (ops @ [op])\<rparr>"
    using process_step.commit [of "?s\<lparr>lock := Some (w, op)\<rparr>" w op exec] by (simp add: after_append)
  ultimately show ?case by (rule reachable.step)
qed

context store
begin

lemma reachable_inv: "reachable exec db s \<Longrightarrow> inv db \<Longrightarrow> inv (committed s)"
  by (simp add: reachable_serial after_inv)

end

end
