(* ===== verification/Simulator.thy ===== *)
theory Simulator
  imports Prelude
begin

section \<open>Parent/child event replay (\<open>events.py\<close>, \<open>simulator.py\<close>)\<close>

text \<open>
  The reducer that projects a shared event stream onto the state of one active run and turn.
  \<open>naive\<close> mode lets any completion on the stream end the parent; \<open>scoped\<close> mode takes
  events of the active turn only and fails closed on a contradictory event after termination.
\<close>

subsection \<open>Events and run state\<close>

datatype EventKind = OUTPUT | COMPLETED | FAILED

fun event_kind_value :: "EventKind \<Rightarrow> string" where
  "event_kind_value OUTPUT = ''output''"
| "event_kind_value COMPLETED = ''completed''"
| "event_kind_value FAILED = ''failed''"

record Event =
  ev_sequence :: int
  ev_run_id :: string
  ev_turn_id :: string
  ev_kind :: EventKind
  ev_payload :: string

record RunState =
  active_run_id :: string
  active_turn_id :: string
  out_text :: string
  terminal :: bool
  failed :: bool
  accepted_events :: "int list"
  ignored_events :: "int list"
  terminal_kind :: "EventKind option"
  terminal_payload :: string

record SimulationResult =
  sim_mode :: string
  sim_state :: RunState

text \<open>\<open>RunState(active_run_id=..., active_turn_id=...)\<close>, every other field at its default.\<close>

definition new_run_state :: "string \<Rightarrow> string \<Rightarrow> RunState" where
  "new_run_state run turn =
     \<lparr>active_run_id = run, active_turn_id = turn, out_text = '''', terminal = False, failed = False,
      accepted_events = [], ignored_events = [], terminal_kind = None, terminal_payload = ''''\<rparr>"

subsection \<open>The reducer\<close>

definition belongs_to_active_turn :: "RunState \<Rightarrow> Event \<Rightarrow> bool" where
  "belongs_to_active_turn st e \<longleftrightarrow>
     ev_run_id e = active_run_id st \<and> ev_turn_id e = active_turn_id st"

definition ignore_event :: "RunState \<Rightarrow> Event \<Rightarrow> RunState" where
  "ignore_event st e = st\<lparr>ignored_events := ignored_events st @ [ev_sequence e]\<rparr>"

definition handle_event_after_terminal :: "RunState \<Rightarrow> Event \<Rightarrow> RunState result" where
  "handle_event_after_terminal st e =
     (if Some (ev_kind e) = terminal_kind st \<and> ev_payload e = terminal_payload st
      then Inr (ignore_event st e)
      else
        let prior = (case terminal_kind st of Some k \<Rightarrow> event_kind_value k | None \<Rightarrow> ''unknown'')
        in raise TerminalStateConflict
             (''active turn emitted an incompatible event after termination: existing='' @ quoted prior
              @ '' incoming='' @ quoted (event_kind_value (ev_kind e))))"

definition apply_event :: "RunState \<Rightarrow> Event \<Rightarrow> string \<Rightarrow> RunState result" where
  "apply_event st e mode =
     (if mode = ''scoped'' \<and> \<not> belongs_to_active_turn st e then Inr (ignore_event st e)
      else if mode = ''scoped'' \<and> terminal st then handle_event_after_terminal st e
      else
        let next = st\<lparr>accepted_events := accepted_events st @ [ev_sequence e]\<rparr> in
        case ev_kind e of
          OUTPUT \<Rightarrow> Inr (next\<lparr>out_text := ev_payload e\<rparr>)
        | COMPLETED \<Rightarrow>
            Inr (next\<lparr>terminal := True, terminal_kind := Some COMPLETED,
                      terminal_payload := ev_payload e,
                      out_text := (if ev_payload e = '''' then out_text next else ev_payload e)\<rparr>)
        | FAILED \<Rightarrow>
            Inr (next\<lparr>terminal := True, failed := True, terminal_kind := Some FAILED,
                      terminal_payload := ev_payload e, out_text := ev_payload e\<rparr>))"

definition replay :: "Event list \<Rightarrow> RunState \<Rightarrow> string \<Rightarrow> SimulationResult result" where
  "replay events init mode =
     (if mode \<noteq> ''naive'' \<and> mode \<noteq> ''scoped''
      then raise ValueError (''unsupported reducer mode: '' @ mode)
      else if not_strictly_increasing (map ev_sequence events)
      then raise ValueError ''events must have unique monotonically increasing sequence numbers''
      else bind_result (run_steps (\<lambda>st e. apply_event st e mode) init events)
             (\<lambda>st. Inr \<lparr>sim_mode = mode, sim_state = st\<rparr>))"

text \<open>\<open>terminal\<close> and \<open>failed\<close> say what \<open>terminal_kind\<close> says.\<close>

definition wf_run_state :: "RunState \<Rightarrow> bool" where
  "wf_run_state st \<longleftrightarrow>
     (terminal st \<longleftrightarrow> terminal_kind st \<noteq> None) \<and> terminal_kind st \<noteq> Some OUTPUT \<and>
     (failed st \<longleftrightarrow> terminal_kind st = Some FAILED)"

lemma wf_new_run_state [simp]: "wf_run_state (new_run_state r t)"
  by (simp add: wf_run_state_def new_run_state_def)

subsection \<open>What one step does\<close>

abbreviation scoped_step :: "RunState \<Rightarrow> Event \<Rightarrow> RunState result" where
  "scoped_step st e \<equiv> apply_event st e ''scoped''"

abbreviation naive_step :: "RunState \<Rightarrow> Event \<Rightarrow> RunState result" where
  "naive_step st e \<equiv> apply_event st e ''naive''"

lemmas step_defs =
  apply_event_def handle_event_after_terminal_def ignore_event_def Let_def

lemma scoped_step_foreign [simp]:
  "\<not> belongs_to_active_turn st e \<Longrightarrow> scoped_step st e = Inr (ignore_event st e)"
  by (simp add: apply_event_def)

lemma step_identity:
  "apply_event st e mode = Inr st' \<Longrightarrow>
     active_run_id st' = active_run_id st \<and> active_turn_id st' = active_turn_id st"
  by (auto simp: step_defs split: if_splits EventKind.splits)

lemma belongs_cong:
  "active_run_id st' = active_run_id st \<Longrightarrow> active_turn_id st' = active_turn_id st \<Longrightarrow>
     belongs_to_active_turn st' = belongs_to_active_turn st"
  by (simp add: belongs_to_active_turn_def fun_eq_iff)

lemma step_belongs:
  "apply_event st e mode = Inr st' \<Longrightarrow> belongs_to_active_turn st' = belongs_to_active_turn st"
  by (rule belongs_cong) (simp_all add: step_identity)

interpretation scoped: reducer scoped_step "\<lambda>seen. wf_run_state"
  by unfold_locales (auto simp: step_defs wf_run_state_def split: if_splits EventKind.splits)

subsection \<open>Foreign events do not matter\<close>

text \<open>The state without the list of ignored sequence numbers.\<close>

definition visible :: "RunState \<Rightarrow> RunState" where
  "visible st = st\<lparr>ignored_events := []\<rparr>"

fun visible_outcome :: "SimulationResult result \<Rightarrow> RunState result" where
  "visible_outcome (Inl e) = Inl e"
| "visible_outcome (Inr r) = Inr (visible (sim_state r))"

lemma visible_ignore [simp]: "visible (ignore_event st e) = visible st"
  by (simp add: visible_def ignore_event_def)

lemma visible_eq_iff:
  "visible s = visible t \<longleftrightarrow>
     active_run_id s = active_run_id t \<and> active_turn_id s = active_turn_id t \<and>
     out_text s = out_text t \<and> terminal s = terminal t \<and> failed s = failed t \<and>
     accepted_events s = accepted_events t \<and> terminal_kind s = terminal_kind t \<and>
     terminal_payload s = terminal_payload t"
  by (cases s; cases t) (auto simp: visible_def)

lemma visible_step:
  assumes "visible s = visible t"
  shows "map_sum id visible (scoped_step s e) = map_sum id visible (scoped_step t e)"
  using assms unfolding visible_eq_iff
  by (simp add: apply_event_def handle_event_after_terminal_def Let_def belongs_to_active_turn_def
      visible_eq_iff ignore_event_def split: EventKind.split)

lemma visible_run_filter:
  assumes "visible s = visible t"
  shows "map_sum id visible (run_steps scoped_step s es) =
         map_sum id visible (run_steps scoped_step t (filter (belongs_to_active_turn s) es))"
  using assms
proof (induction es arbitrary: s t)
  case Nil
  then show ?case by simp
next
  case (Cons e es)
  show ?case
  proof (cases "belongs_to_active_turn s e")
    case False
    then have v: "visible (ignore_event s e) = visible t" by (simp add: Cons.prems)
    have "belongs_to_active_turn (ignore_event s e) = belongs_to_active_turn s"
      by (rule belongs_cong) (simp_all add: ignore_event_def)
    with Cons.IH [OF v] False show ?thesis by simp
  next
    case True
    note eq = visible_step [OF Cons.prems, of e]
    show ?thesis
    proof (cases "scoped_step s e")
      case (Inl x)
      with eq True show ?thesis by (cases "scoped_step t e") auto
    next
      case (Inr s1)
      with eq obtain t1 where t1: "scoped_step t e = Inr t1" "visible s1 = visible t1"
        by (cases "scoped_step t e") auto
      from Cons.IH [OF t1(2)] Inr t1(1) True show ?thesis by (simp add: step_belongs [OF Inr])
    qed
  qed
qed

lemma sorted_wrt_map_filter:
  "sorted_wrt (<) (map f xs) \<Longrightarrow> sorted_wrt (<) (map f (filter P xs))"
  by (simp add: sorted_wrt_map sorted_wrt_filter)

text \<open>
  C35: Scoped replay is blind to foreign events. For every ordered stream, replaying the whole
  stream and replaying only the events of the active run and turn give the same exception, or
  the same state up to the list of ignored sequence numbers.
\<close>

theorem scoped_replay_ignores_foreign_events:
  assumes "sorted_wrt (<) (map ev_sequence events)"
  shows "visible_outcome (replay events init ''scoped'') =
         visible_outcome (replay (filter (belongs_to_active_turn init) events) init ''scoped'')"
proof -
  have "map_sum id visible (run_steps scoped_step init events) =
        map_sum id visible (run_steps scoped_step init (filter (belongs_to_active_turn init) events))"
    by (rule visible_run_filter) simp
  then show ?thesis
    using assms sorted_wrt_map_filter [OF assms]
    by (cases "run_steps scoped_step init events";
        cases "run_steps scoped_step init (filter (belongs_to_active_turn init) events)")
      (simp_all add: replay_def not_strictly_increasing_iff)
qed

subsection \<open>The exact outcome of a replay\<close>

text \<open>
  The events that a live state takes without ending: foreign ones, and outputs of the active turn.
  The first other event is the terminal one.
\<close>

definition keeps_turn_open :: "RunState \<Rightarrow> Event \<Rightarrow> bool" where
  "keeps_turn_open st e \<longleftrightarrow> (belongs_to_active_turn st e \<longrightarrow> ev_kind e = OUTPUT)"

definition after_outputs :: "RunState \<Rightarrow> Event list \<Rightarrow> RunState" where
  "after_outputs st es =
     (let own = filter (belongs_to_active_turn st) es;
          foreign = filter (\<lambda>e. \<not> belongs_to_active_turn st e) es
      in st\<lparr>out_text := (if own = [] then out_text st else ev_payload (last own)),
            accepted_events := accepted_events st @ map ev_sequence own,
            ignored_events := ignored_events st @ map ev_sequence foreign\<rparr>)"

definition after_terminal :: "RunState \<Rightarrow> Event \<Rightarrow> RunState" where
  "after_terminal st t =
     st\<lparr>terminal := True, failed := (failed st \<or> ev_kind t = FAILED), terminal_kind := Some (ev_kind t),
        terminal_payload := ev_payload t,
        out_text := (if ev_kind t = COMPLETED \<and> ev_payload t = '''' then out_text st else ev_payload t),
        accepted_events := accepted_events st @ [ev_sequence t]\<rparr>"

definition conflicts :: "RunState \<Rightarrow> Event \<Rightarrow> bool" where
  "conflicts st e \<longleftrightarrow> belongs_to_active_turn st e \<and>
     \<not> (Some (ev_kind e) = terminal_kind st \<and> ev_payload e = terminal_payload st)"

definition conflict_text :: "EventKind option \<Rightarrow> EventKind \<Rightarrow> string" where
  "conflict_text prior incoming =
     ''active turn emitted an incompatible event after termination: existing=''
       @ quoted (case prior of Some k \<Rightarrow> event_kind_value k | None \<Rightarrow> ''unknown'')
       @ '' incoming='' @ quoted (event_kind_value incoming)"

text \<open>After termination, the first incompatible event of the active turn is reported; without one, all are ignored.\<close>

definition settled_outcome :: "RunState \<Rightarrow> Event list \<Rightarrow> RunState result" where
  "settled_outcome st es =
     (case find (conflicts st) es of
        Some e \<Rightarrow> raise TerminalStateConflict (conflict_text (terminal_kind st) (ev_kind e))
      | None \<Rightarrow> Inr (st\<lparr>ignored_events := ignored_events st @ map ev_sequence es\<rparr>))"

definition scoped_outcome :: "RunState \<Rightarrow> Event list \<Rightarrow> RunState result" where
  "scoped_outcome st es =
     (if terminal st then settled_outcome st es
      else case dropWhile (keeps_turn_open st) es of
        [] \<Rightarrow> Inr (after_outputs st es)
      | t # later \<Rightarrow>
          settled_outcome (after_terminal (after_outputs st (takeWhile (keeps_turn_open st) es)) t) later)"

text \<open>The naive mode: the last word wins, whoever said it.\<close>

definition naive_outcome :: "RunState \<Rightarrow> Event list \<Rightarrow> RunState" where
  "naive_outcome st es =
     (let last_end = find (\<lambda>e. ev_kind e \<noteq> OUTPUT) (rev es);
          last_text = find (\<lambda>e. \<not> (ev_kind e = COMPLETED \<and> ev_payload e = '''')) (rev es)
      in st\<lparr>out_text := (case last_text of Some e \<Rightarrow> ev_payload e | None \<Rightarrow> out_text st),
            terminal := (terminal st \<or> last_end \<noteq> None),
            failed := (failed st \<or> (\<exists>e \<in> set es. ev_kind e = FAILED)),
            accepted_events := accepted_events st @ map ev_sequence es,
            terminal_kind := (case last_end of Some e \<Rightarrow> Some (ev_kind e) | None \<Rightarrow> terminal_kind st),
            terminal_payload := (case last_end of Some e \<Rightarrow> ev_payload e | None \<Rightarrow> terminal_payload st)\<rparr>)"

lemma run_settled:
  "terminal st \<Longrightarrow> run_steps scoped_step st es = settled_outcome st es"
proof (induction es arbitrary: st)
  case Nil
  then show ?case by (simp add: settled_outcome_def)
next
  case (Cons e es)
  show ?case
  proof (cases "conflicts st e")
    case True
    then have "scoped_step st e = raise TerminalStateConflict (conflict_text (terminal_kind st) (ev_kind e))"
      using Cons.prems by (auto simp: conflicts_def step_defs conflict_text_def)
    with True show ?thesis by (simp add: settled_outcome_def)
  next
    case False
    then have "scoped_step st e = Inr (ignore_event st e)"
      using Cons.prems by (auto simp: conflicts_def apply_event_def handle_event_after_terminal_def)
    moreover have "conflicts (ignore_event st e) = conflicts st"
      by (simp add: conflicts_def fun_eq_iff ignore_event_def belongs_to_active_turn_def)
    ultimately show ?thesis
      using False Cons.IH [of "ignore_event st e"] Cons.prems
      by (simp add: settled_outcome_def ignore_event_def split: option.split)
  qed
qed

lemma run_open:
  "\<not> terminal st \<Longrightarrow> \<forall>e \<in> set es. keeps_turn_open st e \<Longrightarrow>
     run_steps scoped_step st es = Inr (after_outputs st es)"
proof (induction es arbitrary: st)
  case Nil
  then show ?case by (simp add: after_outputs_def)
next
  case (Cons e es)
  define s1 where "s1 = (if belongs_to_active_turn st e
     then st\<lparr>accepted_events := accepted_events st @ [ev_sequence e], out_text := ev_payload e\<rparr>
     else ignore_event st e)"
  have "scoped_step st e = Inr s1"
    using Cons.prems by (simp add: step_defs s1_def keeps_turn_open_def)
  moreover have own: "belongs_to_active_turn s1 = belongs_to_active_turn st"
    by (rule belongs_cong) (simp_all add: s1_def ignore_event_def)
  moreover have "run_steps scoped_step s1 es = Inr (after_outputs s1 es)"
    using Cons.prems own by (intro Cons.IH) (auto simp: s1_def ignore_event_def keeps_turn_open_def)
  moreover have "after_outputs s1 es = after_outputs st (e # es)"
    by (simp add: after_outputs_def Let_def own) (simp add: s1_def ignore_event_def)
  ultimately show ?case by simp
qed

lemma run_scoped: "run_steps scoped_step st es = scoped_outcome st es"
proof (cases "terminal st \<or> dropWhile (keeps_turn_open st) es = []")
  case True
  then show ?thesis
  proof (cases "terminal st")
    case True
    then show ?thesis by (simp add: scoped_outcome_def run_settled)
  next
    case live: False
    with True have drop: "dropWhile (keeps_turn_open st) es = []" by blast
    then have "\<forall>e \<in> set es. keeps_turn_open st e" by simp
    from run_open [OF live this] live show ?thesis unfolding scoped_outcome_def drop by simp
  qed
next
  case False
  then obtain t later where t: "dropWhile (keeps_turn_open st) es = t # later"
    by (cases "dropWhile (keeps_turn_open st) es") auto
  let ?outs = "takeWhile (keeps_turn_open st) es"
  define s1 where "s1 = after_outputs st ?outs"
  have es: "es = ?outs @ t # later" using t by (metis takeWhile_dropWhile_id)
  have "\<not> keeps_turn_open st t" using t hd_dropWhile [of "keeps_turn_open st" es] by simp
  then have "belongs_to_active_turn st t" "ev_kind t \<noteq> OUTPUT" by (simp_all add: keeps_turn_open_def)
  moreover have "\<not> terminal s1" "belongs_to_active_turn s1 = belongs_to_active_turn st"
    using False by (simp_all add: s1_def after_outputs_def Let_def belongs_to_active_turn_def fun_eq_iff)
  ultimately have "scoped_step s1 t = Inr (after_terminal s1 t)"
    by (cases "ev_kind t") (simp_all add: step_defs after_terminal_def)
  moreover have "run_steps scoped_step st ?outs = Inr s1"
    unfolding s1_def using False by (intro run_open) (auto dest: set_takeWhileD)
  ultimately have "run_steps scoped_step st es = run_steps scoped_step (after_terminal s1 t) later"
    by (subst es) (simp add: run_steps_append)
  then show ?thesis using False t by (simp add: scoped_outcome_def s1_def run_settled after_terminal_def)
qed

lemma run_naive: "run_steps naive_step st es = Inr (naive_outcome st es)"
proof (induction es rule: rev_induct)
  case Nil
  show ?case by (simp add: naive_outcome_def)
next
  case (snoc e es)
  have "naive_step (naive_outcome st es) e = Inr (naive_outcome st (es @ [e]))"
    by (cases "ev_kind e") (simp_all add: apply_event_def naive_outcome_def Let_def)
  with snoc show ?case by (simp add: run_steps_append)
qed

text \<open>
  C29: The exact result of a replay, for every stream, starting state and mode. An unsupported
  mode and an unordered stream are refused with their messages. Scoped: foreign events are
  ignored; outputs of the active turn are accepted up to its first terminal event; after
  it the first incompatible event of the turn raises \<open>TerminalStateConflict\<close> with both kinds in
  the message, and without one all later events are ignored. Accepted and ignored
  sequence numbers are listed in stream order. Naive: every event is accepted and the last one wins.
\<close>

theorem replay_outcome:
  "replay events init mode =
     (if mode \<notin> {''naive'', ''scoped''}
      then raise ValueError (''unsupported reducer mode: '' @ mode)
      else if \<not> sorted_wrt (<) (map ev_sequence events)
      then raise ValueError ''events must have unique monotonically increasing sequence numbers''
      else map_sum id (\<lambda>st. \<lparr>sim_mode = mode, sim_state = st\<rparr>)
        (if mode = ''scoped'' then scoped_outcome init events else Inr (naive_outcome init events)))"
proof -
  have bind: "bind_result r (\<lambda>st. Inr (f st)) = map_sum id f r" for f :: "RunState \<Rightarrow> SimulationResult" and r
    by (cases r) simp_all
  show ?thesis
    by (auto simp: replay_def not_strictly_increasing_iff bind run_scoped run_naive)
qed

definition sample_events :: "Event list" where
  "sample_events =
     [\<lparr>ev_sequence = 1, ev_run_id = ''parent'', ev_turn_id = ''turn'', ev_kind = OUTPUT, ev_payload = ''partial''\<rparr>,
      \<lparr>ev_sequence = 2, ev_run_id = ''child'', ev_turn_id = ''turn'', ev_kind = COMPLETED, ev_payload = ''child-final''\<rparr>,
      \<lparr>ev_sequence = 3, ev_run_id = ''parent'', ev_turn_id = ''turn'', ev_kind = COMPLETED, ev_payload = ''final''\<rparr>]"

lemma scoped_replay_ignores_foreign_events_witness:
  "visible_outcome (replay sample_events (new_run_state ''parent'' ''turn'') ''scoped'') =
   visible_outcome (replay (filter (belongs_to_active_turn (new_run_state ''parent'' ''turn'')) sample_events)
     (new_run_state ''parent'' ''turn'') ''scoped'')"
  by (rule scoped_replay_ignores_foreign_events) (simp add: sample_events_def)

subsection \<open>Every event is accounted for\<close>

definition recorded :: "RunState \<Rightarrow> Event list \<Rightarrow> RunState \<Rightarrow> bool" where
  "recorded init seen st \<longleftrightarrow>
     (\<exists>acc ign. accepted_events st = accepted_events init @ acc \<and>
                ignored_events st = ignored_events init @ ign \<and>
                subseq acc (map ev_sequence seen) \<and> subseq ign (map ev_sequence seen) \<and>
                mset acc + mset ign = mset (map ev_sequence seen))"

lemma recorded_accept:
  assumes "recorded init seen st"
    and "accepted_events st' = accepted_events st @ [ev_sequence e]" "ignored_events st' = ignored_events st"
  shows "recorded init (seen @ [e]) st'"
proof -
  from assms(1) obtain acc ign where
    "accepted_events st = accepted_events init @ acc" "ignored_events st = ignored_events init @ ign"
    "subseq acc (map ev_sequence seen)" "subseq ign (map ev_sequence seen)"
    "mset acc + mset ign = mset (map ev_sequence seen)"
    by (auto simp: recorded_def)
  with assms(2,3) show ?thesis
    unfolding recorded_def
    by (intro exI [of _ "acc @ [ev_sequence e]"] exI [of _ ign])
      (auto simp: list_emb_append_mono list_emb_prefix)
qed

lemma recorded_ignore:
  assumes "recorded init seen st"
  shows "recorded init (seen @ [e]) (ignore_event st e)"
proof -
  from assms obtain acc ign where
    "accepted_events st = accepted_events init @ acc" "ignored_events st = ignored_events init @ ign"
    "subseq acc (map ev_sequence seen)" "subseq ign (map ev_sequence seen)"
    "mset acc + mset ign = mset (map ev_sequence seen)"
    by (auto simp: recorded_def)
  then show ?thesis
    unfolding recorded_def
    by (intro exI [of _ acc] exI [of _ "ign @ [ev_sequence e]"])
      (auto simp: ignore_event_def list_emb_append_mono list_emb_prefix)
qed

lemma apply_event_records:
  assumes "recorded init seen st" and "apply_event st e mode = Inr st'"
  shows "recorded init (seen @ [e]) st'"
proof (cases "st' = ignore_event st e")
  case True
  with assms(1) show ?thesis by (simp add: recorded_ignore)
next
  case False
  then have "accepted_events st' = accepted_events st @ [ev_sequence e] \<and> ignored_events st' = ignored_events st"
    using assms(2)
    by (auto simp: apply_event_def handle_event_after_terminal_def Let_def split: if_splits EventKind.splits)
  with assms(1) show ?thesis by (blast intro: recorded_accept)
qed

interpretation recording: reducer "\<lambda>st e. apply_event st e mode" "recorded init" for mode init
  by unfold_locales (rule apply_event_records)

text \<open>
  Every event is accounted for exactly once, in both modes: a replay that returns has
  appended each sequence number either to \<open>accepted_events\<close> or to
  \<open>ignored_events\<close>, in stream order, and nothing else.
\<close>

theorem replay_accounts_for_every_event:
  assumes "replay events init mode = Inr r"
  shows "\<exists>acc ign. accepted_events (sim_state r) = accepted_events init @ acc \<and>
           ignored_events (sim_state r) = ignored_events init @ ign \<and>
           subseq acc (map ev_sequence events) \<and> subseq ign (map ev_sequence events) \<and>
           mset acc + mset ign = mset (map ev_sequence events)"
proof -
  have "recorded init [] init" by (simp add: recorded_def)
  moreover from assms have "run_steps (\<lambda>st e. apply_event st e mode) init events = Inr (sim_state r)"
    by (auto simp: replay_def bind_result_Inr_iff split: if_splits)
  ultimately have "recorded init events (sim_state r)" by (rule recording.run_inv)
  then show ?thesis by (simp add: recorded_def)
qed

lemma sample_replay:
  "replay sample_events (new_run_state ''parent'' ''turn'') ''scoped'' =
     Inr \<lparr>sim_mode = ''scoped'', sim_state =
       (new_run_state ''parent'' ''turn'')\<lparr>out_text := ''final'', terminal := True,
          accepted_events := [1, 3], ignored_events := [2], terminal_kind := Some COMPLETED,
          terminal_payload := ''final''\<rparr>\<rparr>"
  by (simp add: replay_def sample_events_def new_run_state_def not_strictly_increasing_def
      apply_event_def ignore_event_def belongs_to_active_turn_def)

lemma replay_accounts_for_every_event_witness:
  "\<exists>acc ign. [1, 3] = [] @ acc \<and> [2] = [] @ ign \<and>
     subseq acc (map ev_sequence sample_events) \<and> subseq ign (map ev_sequence sample_events) \<and>
     mset acc + mset ign = mset (map ev_sequence sample_events)"
  using replay_accounts_for_every_event [OF sample_replay] by (simp add: new_run_state_def)

subsection \<open>Termination is final in scoped mode, accidental in naive mode\<close>

text \<open>
  A terminal state absorbs. From a terminal state, a scoped replay of an ordered stream changes
  nothing but the list of ignored sequence numbers when no event of the active turn differs from
  the terminal event; otherwise it raises \<open>TerminalStateConflict\<close>.
\<close>

theorem terminal_state_absorbs:
  assumes "terminal init" and "sorted_wrt (<) (map ev_sequence events)"
  shows "if \<exists>e \<in> set events. conflicts init e
         then raises TerminalStateConflict (replay events init ''scoped'')
         else replay events init ''scoped'' =
                Inr \<lparr>sim_mode = ''scoped'',
                     sim_state = init\<lparr>ignored_events := ignored_events init @ map ev_sequence events\<rparr>\<rparr>"
proof (cases "find (conflicts init) events")
  case None
  then have "\<not> (\<exists>e \<in> set events. conflicts init e)" by (auto simp: find_None_iff)
  with None show ?thesis
    using assms run_settled [OF assms(1), of events]
    by (simp add: replay_def not_strictly_increasing_iff settled_outcome_def)
next
  case (Some e)
  then have "\<exists>e \<in> set events. conflicts init e" by (auto simp: find_Some_iff)
  with Some show ?thesis
    using assms run_settled [OF assms(1), of events]
    by (auto simp: replay_def not_strictly_increasing_iff settled_outcome_def raises_iff)
qed

lemma terminal_state_absorbs_witness:
  "raises TerminalStateConflict
     (replay [\<lparr>ev_sequence = 9, ev_run_id = ''r'', ev_turn_id = ''t'', ev_kind = FAILED, ev_payload = ''late''\<rparr>]
       ((new_run_state ''r'' ''t'')\<lparr>terminal := True, terminal_kind := Some COMPLETED, terminal_payload := ''a''\<rparr>)
       ''scoped'')"
  using terminal_state_absorbs
    [of "(new_run_state ''r'' ''t'')\<lparr>terminal := True, terminal_kind := Some COMPLETED, terminal_payload := ''a''\<rparr>"
      "[\<lparr>ev_sequence = 9, ev_run_id = ''r'', ev_turn_id = ''t'', ev_kind = FAILED, ev_payload = ''late''\<rparr>]"]
  by (simp add: new_run_state_def conflicts_def belongs_to_active_turn_def)

text \<open>
  The orchestration bug that \<open>naive\<close> mode models: it never raises on an ordered stream, it
  ignores nothing, and the parent ends terminal as soon as any event of the stream, of
  whatever run and turn, is a completion or a failure.
\<close>

theorem naive_replay_ends_on_any_completion:
  assumes "sorted_wrt (<) (map ev_sequence events)"
  shows "\<exists>st. replay events init ''naive'' = Inr \<lparr>sim_mode = ''naive'', sim_state = st\<rparr> \<and>
           ignored_events st = ignored_events init \<and>
           (terminal st \<longleftrightarrow> terminal init \<or> (\<exists>e \<in> set events. ev_kind e \<noteq> OUTPUT))"
proof -
  have "find (\<lambda>e. ev_kind e \<noteq> OUTPUT) (rev events) \<noteq> None \<longleftrightarrow> (\<exists>e \<in> set events. ev_kind e \<noteq> OUTPUT)"
    by (auto simp: find_None_iff simp del: not_None_eq)
  then show ?thesis
    using assms by (simp add: replay_def not_strictly_increasing_iff run_naive naive_outcome_def Let_def del: not_None_eq)
qed

lemma naive_replay_ends_on_any_completion_witness:
  "\<exists>st. replay (take 2 sample_events) (new_run_state ''parent'' ''turn'') ''naive''
      = Inr \<lparr>sim_mode = ''naive'', sim_state = st\<rparr> \<and> ignored_events st = [] \<and> terminal st"
  using naive_replay_ends_on_any_completion [of "take 2 sample_events" "new_run_state ''parent'' ''turn''"]
  by (auto simp: sample_events_def new_run_state_def)

text \<open>The states a scoped replay produces are well-formed, so the theorem on termination applies to them.\<close>

lemma scoped_replay_wf:
  "wf_run_state init \<Longrightarrow> replay events init ''scoped'' = Inr r \<Longrightarrow> wf_run_state (sim_state r)"
  using scoped.run_inv by (auto simp: replay_def bind_result_Inr_iff split: if_splits)

end
