(* ===== verification/Effects.thy ===== *)
theory Effects
  imports Prelude
begin

section \<open>Effect replay with an idempotency ledger (\<open>effects.py\<close>)\<close>

text \<open>
  Replaying tool side effects. \<open>naive\<close> mode applies every request; \<open>idempotent\<close> mode
  applies the first request of an operation identity, suppresses exact retries, and raises when
  an identity comes back with another tool or payload. The ledger-based loop is shown equal to
  a specification without a ledger.
\<close>

subsection \<open>Requests and the replay loop\<close>

record EffectRequest =
  er_sequence :: int
  er_operation_id :: string
  er_tool :: string
  er_payload :: string

record EffectReplayResult =
  er_mode :: string
  applied :: "EffectRequest list"
  duplicates :: "EffectRequest list"

definition effect_identity :: "EffectRequest \<Rightarrow> string \<times> string" where
  "effect_identity r = (er_tool r, er_payload r)"

text \<open>The loop's local variables: the two result lists and the ledger.\<close>

record EffectLoop =
  loop_applied :: "EffectRequest list"
  loop_duplicates :: "EffectRequest list"
  ledger :: "string \<rightharpoonup> string \<times> string"

definition effect_step :: "string \<Rightarrow> EffectLoop \<Rightarrow> EffectRequest \<Rightarrow> EffectLoop result" where
  "effect_step mode st r =
     (if mode = ''naive'' then Inr (st\<lparr>loop_applied := loop_applied st @ [r]\<rparr>)
      else case ledger st (er_operation_id r) of
        None \<Rightarrow>
          Inr (st\<lparr>ledger := (ledger st)(er_operation_id r \<mapsto> effect_identity r),
                  loop_applied := loop_applied st @ [r]\<rparr>)
      | Some previous \<Rightarrow>
          if previous \<noteq> effect_identity r
          then raise IdempotencyConflict
                 (''operation_id was reused for a different tool effect: '' @ er_operation_id r)
          else Inr (st\<lparr>loop_duplicates := loop_duplicates st @ [r]\<rparr>))"

definition empty_loop :: EffectLoop where
  "empty_loop = \<lparr>loop_applied = [], loop_duplicates = [], ledger = Map.empty\<rparr>"

definition validate_effect_order :: "EffectRequest list \<Rightarrow> unit result" where
  "validate_effect_order rs =
     (if not_strictly_increasing (map er_sequence rs)
      then raise ValueError ''effect requests must have unique monotonically increasing sequence numbers''
      else Inr ())"

definition replay_effects :: "EffectRequest list \<Rightarrow> string \<Rightarrow> EffectReplayResult result" where
  "replay_effects requests mode =
     (if mode \<noteq> ''naive'' \<and> mode \<noteq> ''idempotent''
      then raise ValueError (''unsupported replay mode: '' @ mode)
      else bind_result (validate_effect_order requests) (\<lambda>_.
           bind_result (run_steps (effect_step mode) empty_loop requests) (\<lambda>st.
           Inr \<lparr>er_mode = mode, applied = loop_applied st, duplicates = loop_duplicates st\<rparr>)))"

subsection \<open>The ledger-free specification\<close>

text \<open>No two requests share an operation id and differ in tool or payload.\<close>

definition binding_consistent :: "EffectRequest list \<Rightarrow> bool" where
  "binding_consistent rs \<longleftrightarrow>
     (\<forall>r \<in> set rs. \<forall>r' \<in> set rs.
        er_operation_id r = er_operation_id r' \<longrightarrow> effect_identity r = effect_identity r')"

text \<open>The requests whose operation id is seen for the first time, and the others.\<close>

fun first_requests :: "string set \<Rightarrow> EffectRequest list \<Rightarrow> EffectRequest list" where
  "first_requests seen [] = []"
| "first_requests seen (r # rs) =
     (if er_operation_id r \<in> seen then first_requests seen rs
      else r # first_requests (insert (er_operation_id r) seen) rs)"

fun repeated_requests :: "string set \<Rightarrow> EffectRequest list \<Rightarrow> EffectRequest list" where
  "repeated_requests seen [] = []"
| "repeated_requests seen (r # rs) =
     (if er_operation_id r \<in> seen then r # repeated_requests seen rs
      else repeated_requests (insert (er_operation_id r) seen) rs)"

text \<open>A ledger records the identities of a list of requests.\<close>

definition ledger_of :: "EffectRequest list \<Rightarrow> (string \<rightharpoonup> string \<times> string)" where
  "ledger_of rs = map_of (map (\<lambda>r. (er_operation_id r, effect_identity r)) rs)"

lemma ledger_of_None: "ledger_of rs op = None \<longleftrightarrow> op \<notin> er_operation_id ` set rs"
  by (force simp: ledger_of_def map_of_eq_None_iff)

lemma ledger_of_Some:
  "ledger_of rs op = Some i \<Longrightarrow> \<exists>r \<in> set rs. er_operation_id r = op \<and> effect_identity r = i"
  by (force simp: ledger_of_def dest: map_of_SomeD)

lemma ledger_of_snoc:
  "ledger_of (rs @ [r]) =
     (if er_operation_id r \<in> er_operation_id ` set rs then ledger_of rs
      else (ledger_of rs)(er_operation_id r \<mapsto> effect_identity r))"
proof -
  have "ledger_of (rs @ [r]) = (\<lambda>op. case ledger_of rs op of
      None \<Rightarrow> if op = er_operation_id r then Some (effect_identity r) else None | Some i \<Rightarrow> Some i)"
    by (auto simp: ledger_of_def map_add_def fun_eq_iff split: option.split)
  then show ?thesis
    using ledger_of_None [of rs "er_operation_id r"] by (auto simp: fun_eq_iff split: option.split)
qed

lemma binding_consistentD:
  "binding_consistent rs \<Longrightarrow> r \<in> set rs \<Longrightarrow> r' \<in> set rs \<Longrightarrow>
     er_operation_id r = er_operation_id r' \<Longrightarrow> effect_identity r = effect_identity r'"
  unfolding binding_consistent_def by blast

lemma binding_consistent_ledger:
  assumes "binding_consistent seen"
  shows "binding_consistent (seen @ [r]) \<longleftrightarrow>
    (case ledger_of seen (er_operation_id r) of None \<Rightarrow> True | Some i \<Rightarrow> i = effect_identity r)"
proof (cases "ledger_of seen (er_operation_id r)")
  case None
  then have "er_operation_id r \<notin> er_operation_id ` set seen" by (simp add: ledger_of_None)
  then have "\<forall>q \<in> set seen. er_operation_id q \<noteq> er_operation_id r" by (metis imageI)
  with assms have "binding_consistent (seen @ [r])"
    unfolding binding_consistent_def by (metis Un_iff empty_iff empty_set insert_iff list.set(2) set_append)
  with None show ?thesis by simp
next
  case (Some i)
  then obtain q where q: "q \<in> set seen" "er_operation_id q = er_operation_id r" "effect_identity q = i"
    using ledger_of_Some by blast
  have "binding_consistent (seen @ [r]) \<longleftrightarrow> i = effect_identity r"
  proof
    assume "binding_consistent (seen @ [r])"
    from binding_consistentD [OF this, of q r] q show "i = effect_identity r" by simp
  next
    assume "i = effect_identity r"
    then have "\<forall>x \<in> set seen. er_operation_id x = er_operation_id r \<longrightarrow> effect_identity x = effect_identity r"
      using binding_consistentD [OF assms _ q(1)] q by metis
    with assms show "binding_consistent (seen @ [r])"
      unfolding binding_consistent_def by (metis Un_iff empty_iff empty_set insert_iff list.set(2) set_append)
  qed
  with Some show ?thesis by simp
qed

lemma run_idempotent:
  assumes "binding_consistent seen" and "ledger st = ledger_of seen"
  shows "if binding_consistent (seen @ rs)
         then \<exists>st'. run_steps (effect_step ''idempotent'') st rs = Inr st' \<and>
                loop_applied st' = loop_applied st @ first_requests (er_operation_id ` set seen) rs \<and>
                loop_duplicates st' = loop_duplicates st @ repeated_requests (er_operation_id ` set seen) rs
         else raises IdempotencyConflict (run_steps (effect_step ''idempotent'') st rs)"
  using assms
proof (induction rs arbitrary: seen st)
  case Nil
  then show ?case by simp
next
  case (Cons r rs)
  have app: "seen @ r # rs = (seen @ [r]) @ rs" by simp
  show ?case
  proof (cases "binding_consistent (seen @ [r])")
    case False
    then have "\<not> binding_consistent (seen @ r # rs)"
      by (auto simp: binding_consistent_def)
    moreover have "raises IdempotencyConflict (effect_step ''idempotent'' st r)"
      using False binding_consistent_ledger [OF Cons.prems(1), of r] Cons.prems(2)
      by (auto simp: effect_step_def split: option.splits)
    ultimately show ?thesis by (auto simp: raises_iff)
  next
    case True
    show ?thesis
    proof (cases "er_operation_id r \<in> er_operation_id ` set seen")
      case new: False
      define st1 where "st1 = st\<lparr>ledger := (ledger st)(er_operation_id r \<mapsto> effect_identity r),
        loop_applied := loop_applied st @ [r]\<rparr>"
      have step: "effect_step ''idempotent'' st r = Inr st1"
        using new Cons.prems(2) ledger_of_None [of seen "er_operation_id r"]
        by (simp add: effect_step_def st1_def)
      have "ledger st1 = ledger_of (seen @ [r])"
        using new Cons.prems(2) by (simp add: ledger_of_snoc st1_def)
      from Cons.IH [OF True this] step new show ?thesis
        unfolding app by (auto simp: st1_def)
    next
      case old: True
      define st1 where "st1 = st\<lparr>loop_duplicates := loop_duplicates st @ [r]\<rparr>"
      obtain i where i: "ledger_of seen (er_operation_id r) = Some i"
        using old ledger_of_None [of seen "er_operation_id r"] by blast
      then have step: "effect_step ''idempotent'' st r = Inr st1"
        using True binding_consistent_ledger [OF Cons.prems(1), of r] Cons.prems(2)
        by (simp add: effect_step_def st1_def)
      have "ledger st1 = ledger_of (seen @ [r])"
        using old Cons.prems(2) by (simp add: ledger_of_snoc st1_def)
      from Cons.IH [OF True this] step old show ?thesis
        unfolding app by (auto simp: st1_def insert_absorb)
    qed
  qed
qed

lemma binding_consistent_empty [simp]: "binding_consistent []"
  by (simp add: binding_consistent_def)

lemma ledger_of_empty [simp]: "ledger_of [] = Map.empty"
  by (simp add: ledger_of_def)

lemma run_idempotent_empty:
  "if binding_consistent rs
   then \<exists>st'. run_steps (effect_step ''idempotent'') empty_loop rs = Inr st' \<and>
          loop_applied st' = first_requests {} rs \<and> loop_duplicates st' = repeated_requests {} rs
   else raises IdempotencyConflict (run_steps (effect_step ''idempotent'') empty_loop rs)"
  using run_idempotent [of "[]" empty_loop rs]
  by (simp add: empty_loop_def split del: if_split cong: if_cong)

text \<open>
  C37: The ledger-based loop implements its ledger-free specification. On an ordered request
  stream, idempotent replay applies exactly the first request of each operation id and reports
  the others as duplicates, provided no id comes with two different effects; otherwise it
  raises \<open>IdempotencyConflict\<close>.
\<close>

theorem idempotent_replay_spec:
  assumes "sorted_wrt (<) (map er_sequence requests)"
  shows "if binding_consistent requests
         then replay_effects requests ''idempotent'' =
                Inr \<lparr>er_mode = ''idempotent'', applied = first_requests {} requests,
                     duplicates = repeated_requests {} requests\<rparr>
         else raises IdempotencyConflict (replay_effects requests ''idempotent'')"
  using run_idempotent_empty [of requests] assms
  by (auto simp: replay_effects_def validate_effect_order_def not_strictly_increasing_iff raises_iff
      split: if_splits)

subsection \<open>What the specification promises\<close>

lemma first_requests_new:
  "r \<in> set (first_requests seen rs) \<Longrightarrow> er_operation_id r \<notin> seen"
  by (induction seen rs rule: first_requests.induct) (auto split: if_splits)

lemma distinct_first_requests: "distinct (map er_operation_id (first_requests seen rs))"
  by (induction seen rs rule: first_requests.induct) (auto dest: first_requests_new)

lemma ids_first_requests:
  "seen \<union> er_operation_id ` set (first_requests seen rs) = seen \<union> er_operation_id ` set rs"
  by (induction seen rs rule: first_requests.induct) auto

lemma mset_first_repeated:
  "mset (first_requests seen rs) + mset (repeated_requests seen rs) = mset rs"
  by (induction seen rs rule: first_requests.induct) auto

lemma subseq_first_requests: "subseq (first_requests seen rs) rs"
  by (induction seen rs rule: first_requests.induct) auto

lemma first_requests_append:
  "first_requests seen (xs @ ys) =
     first_requests seen xs @ first_requests (seen \<union> er_operation_id ` set xs) ys"
  by (induction seen xs rule: first_requests.induct) (simp_all add: insert_absorb)

lemma first_requests_none:
  "er_operation_id ` set ys \<subseteq> seen \<Longrightarrow> first_requests seen ys = []"
  by (induction seen ys rule: first_requests.induct) auto

lemma replay_effects_success:
  assumes "replay_effects requests ''idempotent'' = Inr res"
  shows "sorted_wrt (<) (map er_sequence requests)" "binding_consistent requests"
    "applied res = first_requests {} requests" "duplicates res = repeated_requests {} requests"
  using assms run_idempotent_empty [of requests]
  by (auto simp: replay_effects_def validate_effect_order_def not_strictly_increasing_iff bind_result_Inr_iff
      raises_iff split: if_splits)

text \<open>
  No effect is applied twice and none is lost. When idempotent replay returns, the applied
  requests carry pairwise different operation ids, they cover every operation id of the stream
  in stream order, together with the duplicates they are all the requests, and each duplicate
  repeats the exact tool and payload of an applied request with its id.
\<close>

theorem idempotent_replay_applies_once:
  assumes "replay_effects requests ''idempotent'' = Inr res"
  shows "distinct (map er_operation_id (applied res)) \<and>
         er_operation_id ` set (applied res) = er_operation_id ` set requests \<and>
         subseq (applied res) requests \<and>
         mset (applied res) + mset (duplicates res) = mset requests \<and>
         (\<forall>d \<in> set (duplicates res). \<exists>a \<in> set (applied res).
            er_operation_id a = er_operation_id d \<and> effect_identity a = effect_identity d)"
proof -
  note res = replay_effects_success [OF assms]
  have ids: "er_operation_id ` set (applied res) = er_operation_id ` set requests"
    using ids_first_requests [of "{}" requests] by (simp add: res(3))
  have ms: "mset (applied res) + mset (duplicates res) = mset requests"
    by (simp add: res mset_first_repeated)
  have "\<exists>a \<in> set (applied res). er_operation_id a = er_operation_id d \<and> effect_identity a = effect_identity d"
    if d: "d \<in> set (duplicates res)" for d
  proof -
    have sub: "set (applied res) \<union> set (duplicates res) = set requests"
      using arg_cong [OF ms, of set_mset] by simp
    with d ids obtain a where a: "a \<in> set (applied res)" "er_operation_id a = er_operation_id d"
      by (metis UnCI image_iff)
    with d sub binding_consistentD [OF res(2), of a d] show ?thesis by blast
  qed
  with ids ms show ?thesis
    by (simp add: res(3) distinct_first_requests subseq_first_requests)
qed

lemma run_naive_effects:
  "run_steps (effect_step ''naive'') st rs = Inr (st\<lparr>loop_applied := loop_applied st @ rs\<rparr>)"
  by (induction rs arbitrary: st) (simp_all add: effect_step_def)

lemma binding_consistent_prefix: "binding_consistent (xs @ ys) \<Longrightarrow> binding_consistent xs"
  by (simp add: binding_consistent_def)

text \<open>
  The crash window is closed. If a stream is extended by requests that repeat operations
  already emitted (the runtime lost their acknowledgement), and idempotent replay of the longer
  stream returns, then it applies exactly what replaying the stream before the crash applies;
  naive replay of the longer stream applies every emitted request again.
\<close>

theorem lost_ack_retry_is_suppressed:
  assumes "replay_effects (requests @ retries) ''idempotent'' = Inr res"
    and "er_operation_id ` set retries \<subseteq> er_operation_id ` set requests"
  shows "(\<exists>earlier. replay_effects requests ''idempotent'' = Inr earlier \<and> applied res = applied earlier) \<and>
         replay_effects (requests @ retries) ''naive'' =
           Inr \<lparr>er_mode = ''naive'', applied = requests @ retries, duplicates = []\<rparr>"
proof -
  note res = replay_effects_success [OF assms(1)]
  have sorted: "sorted_wrt (<) (map er_sequence requests)"
    using res(1) by (simp add: sorted_wrt_append)
  have "applied res = first_requests {} requests"
    using first_requests_none [OF assms(2)] by (simp add: res(3) first_requests_append)
  moreover have "binding_consistent requests" using res(2) by (rule binding_consistent_prefix)
  ultimately have "\<exists>earlier. replay_effects requests ''idempotent'' = Inr earlier \<and> applied res = applied earlier"
    using run_idempotent_empty [of requests] sorted
    by (auto simp: replay_effects_def validate_effect_order_def not_strictly_increasing_iff)
  moreover have "replay_effects (requests @ retries) ''naive'' =
      Inr \<lparr>er_mode = ''naive'', applied = requests @ retries, duplicates = []\<rparr>"
    using res(1)
    by (simp add: replay_effects_def validate_effect_order_def not_strictly_increasing_iff
        run_naive_effects empty_loop_def)
  ultimately show ?thesis by blast
qed

definition write_plan :: "int \<Rightarrow> EffectRequest" where
  "write_plan n =
     \<lparr>er_sequence = n, er_operation_id = ''write:plan'', er_tool = ''write_file'', er_payload = ''plan-v1''\<rparr>"

lemma retried_write:
  "replay_effects ([write_plan 1] @ [write_plan 2]) ''idempotent'' =
     Inr \<lparr>er_mode = ''idempotent'', applied = [write_plan 1], duplicates = [write_plan 2]\<rparr>"
  by (simp add: replay_effects_def validate_effect_order_def not_strictly_increasing_def
      effect_step_def empty_loop_def effect_identity_def write_plan_def)

lemma idempotent_replay_spec_witness:
  "replay_effects [write_plan 1, write_plan 2] ''idempotent'' =
     Inr \<lparr>er_mode = ''idempotent'', applied = first_requests {} [write_plan 1, write_plan 2],
          duplicates = repeated_requests {} [write_plan 1, write_plan 2]\<rparr>"
proof -
  have "binding_consistent [write_plan 1, write_plan 2]"
    by (simp add: binding_consistent_def write_plan_def effect_identity_def)
  then show ?thesis
    using idempotent_replay_spec [of "[write_plan 1, write_plan 2]"] by (simp add: write_plan_def)
qed

lemma idempotent_replay_applies_once_witness:
  "distinct (map er_operation_id [write_plan 1]) \<and>
   mset [write_plan 1] + mset [write_plan 2] = mset ([write_plan 1] @ [write_plan 2])"
  using idempotent_replay_applies_once [OF retried_write]
  unfolding EffectReplayResult.select_convs by (elim conjE) (intro conjI)

lemma lost_ack_retry_is_suppressed_witness:
  "replay_effects ([write_plan 1] @ [write_plan 2]) ''naive'' =
     Inr \<lparr>er_mode = ''naive'', applied = [write_plan 1] @ [write_plan 2], duplicates = []\<rparr>"
proof -
  have "er_operation_id ` set [write_plan 2] \<subseteq> er_operation_id ` set [write_plan 1]"
    unfolding write_plan_def by simp
  from lost_ack_retry_is_suppressed [OF retried_write this] show ?thesis by (rule conjunct2)
qed

end
