(* ===== verification/Approvals.thy ===== *)
theory Approvals
  imports Prelude
begin

section \<open>Approval lifecycle replay (\<open>approvals.py\<close>)\<close>

text \<open>
  A stream of approval events is replayed with exact operation binding: a decision or an
  execution counts only for the tool and payload that were requested under its operation id,
  and a decision, once taken, sticks. The loop state is related to the history of events by an
  invariant, from which the safety properties are read off.
\<close>

subsection \<open>Events, results and the loop\<close>

datatype ApprovalAction = REQUESTED | APPROVED | DENIED | EXECUTE

record ApprovalEvent =
  ap_sequence :: int
  ap_action :: ApprovalAction
  ap_operation_id :: string
  ap_tool :: string
  ap_payload :: string

record ApprovalReplayResult =
  executed :: "string list"
  approved :: "string list"
  denied :: "string list"

definition approval_identity :: "ApprovalEvent \<Rightarrow> string \<times> string" where
  "approval_identity e = (ap_tool e, ap_payload e)"

text \<open>The decisions dict is iterated at the end, so it keeps its insertion order.\<close>

record ApprovalLoop =
  requests :: "string \<rightharpoonup> string \<times> string"
  decisions :: "(string \<times> ApprovalAction) list"
  loop_executed :: "string list"

definition approval_step :: "ApprovalLoop \<Rightarrow> ApprovalEvent \<Rightarrow> ApprovalLoop result" where
  "approval_step st e =
     (let op = ap_operation_id e; identity = approval_identity e; requested = requests st op in
      if ap_action e = REQUESTED then
        (case requested of
           None \<Rightarrow> Inr (st\<lparr>requests := (requests st)(op \<mapsto> identity)\<rparr>)
         | Some i \<Rightarrow>
             if i \<noteq> identity
             then raise ApprovalConflict (''operation changed after approval request: '' @ op)
             else Inr st)
      else case requested of
        None \<Rightarrow> raise ApprovalConflict (''approval event has no matching request: '' @ op)
      | Some i \<Rightarrow>
          if i \<noteq> identity
          then raise ApprovalConflict (''approval binding does not match requested effect: '' @ op)
          else if ap_action e = APPROVED \<or> ap_action e = DENIED then
            (case map_of (decisions st) op of
               Some previous \<Rightarrow>
                 if previous \<noteq> ap_action e
                 then raise ApprovalConflict (''approval decision changed for operation: '' @ op)
                 else Inr (st\<lparr>decisions := AList.update op (ap_action e) (decisions st)\<rparr>)
             | None \<Rightarrow> Inr (st\<lparr>decisions := AList.update op (ap_action e) (decisions st)\<rparr>))
          else
            (case map_of (decisions st) op of
               None \<Rightarrow> raise ApprovalRequired (''operation cannot execute before approval: '' @ op)
             | Some decision \<Rightarrow>
                 if decision = DENIED
                 then raise ApprovalDenied (''operation was denied: '' @ op)
                 else if op \<notin> set (loop_executed st)
                 then Inr (st\<lparr>loop_executed := loop_executed st @ [op]\<rparr>)
                 else Inr st))"

definition empty_approvals :: ApprovalLoop where
  "empty_approvals = \<lparr>requests = Map.empty, decisions = [], loop_executed = []\<rparr>"

definition decided_as :: "ApprovalAction \<Rightarrow> (string \<times> ApprovalAction) list \<Rightarrow> string list" where
  "decided_as d ds = map fst (filter (\<lambda>(op, decision). decision = d) ds)"

definition replay_approval :: "ApprovalEvent list \<Rightarrow> ApprovalReplayResult result" where
  "replay_approval events =
     (if not_strictly_increasing (map ap_sequence events)
      then raise ValueError ''approval events must have unique monotonically increasing sequence numbers''
      else bind_result (run_steps approval_step empty_approvals events) (\<lambda>st.
        Inr \<lparr>executed = loop_executed st, approved = decided_as APPROVED (decisions st),
             denied = decided_as DENIED (decisions st)\<rparr>))"

subsection \<open>The loop state and the history\<close>

definition happened :: "ApprovalEvent list \<Rightarrow> ApprovalAction \<Rightarrow> string \<Rightarrow> bool" where
  "happened seen a op \<longleftrightarrow> (\<exists>e \<in> set seen. ap_action e = a \<and> ap_operation_id e = op)"

lemma happened_snoc [simp]:
  "happened (seen @ [e]) a op \<longleftrightarrow> happened seen a op \<or> (ap_action e = a \<and> ap_operation_id e = op)"
  by (auto simp: happened_def)

lemma happened_Nil [simp]: "\<not> happened [] a op"
  by (simp add: happened_def)

definition approval_inv :: "ApprovalEvent list \<Rightarrow> ApprovalLoop \<Rightarrow> bool" where
  "approval_inv seen st \<longleftrightarrow>
     (\<forall>e \<in> set seen. requests st (ap_operation_id e) = Some (approval_identity e)) \<and>
     (\<forall>op. requests st op \<noteq> None \<longleftrightarrow> happened seen REQUESTED op) \<and>
     (\<forall>op d. map_of (decisions st) op = Some d \<longleftrightarrow> (d = APPROVED \<or> d = DENIED) \<and> happened seen d op) \<and>
     distinct (map fst (decisions st)) \<and>
     (\<forall>op. op \<in> set (loop_executed st) \<longleftrightarrow> happened seen EXECUTE op) \<and>
     distinct (loop_executed st) \<and>
     (\<forall>op. happened seen EXECUTE op \<longrightarrow> happened seen APPROVED op)"

lemma approval_inv_empty: "approval_inv [] empty_approvals"
  by (simp add: approval_inv_def empty_approvals_def)

text \<open>Which steps return, and with what.\<close>

lemma approval_step_Inr:
  assumes "approval_step st e = Inr st'"
  obtains
    (request) "ap_action e = REQUESTED" "requests st (ap_operation_id e) = None"
      "st' = st\<lparr>requests := (requests st)(ap_operation_id e \<mapsto> approval_identity e)\<rparr>"
  | (request_again) "ap_action e = REQUESTED" "requests st (ap_operation_id e) = Some (approval_identity e)"
      "st' = st"
  | (decide) "ap_action e = APPROVED \<or> ap_action e = DENIED"
      "requests st (ap_operation_id e) = Some (approval_identity e)"
      "map_of (decisions st) (ap_operation_id e) \<in> {None, Some (ap_action e)}"
      "st' = st\<lparr>decisions := AList.update (ap_operation_id e) (ap_action e) (decisions st)\<rparr>"
  | (execute) "ap_action e = EXECUTE" "requests st (ap_operation_id e) = Some (approval_identity e)"
      "\<exists>d. map_of (decisions st) (ap_operation_id e) = Some d \<and> d \<noteq> DENIED"
      "st' = st\<lparr>loop_executed := loop_executed st @ (if ap_operation_id e \<in> set (loop_executed st) then [] else [ap_operation_id e])\<rparr>"
  using assms
  by (cases "ap_action e") (auto simp: approval_step_def Let_def split: option.splits if_splits)

lemma approval_step_inv:
  assumes inv: "approval_inv seen st" and step: "approval_step st e = Inr st'"
  shows "approval_inv (seen @ [e]) st'"
  using step
proof (cases rule: approval_step_Inr)
  case request
  with inv have "\<forall>x \<in> set seen. ap_operation_id x \<noteq> ap_operation_id e" by (auto simp: approval_inv_def)
  with inv request show ?thesis by (auto simp: approval_inv_def)
next
  case request_again
  with inv show ?thesis by (auto simp: approval_inv_def)
next
  case decide
  have "map_of (decisions st') op = Some d \<longleftrightarrow> (d = APPROVED \<or> d = DENIED) \<and> happened (seen @ [e]) d op" for op d
  proof -
    have D: "map_of (decisions st) op = Some d \<longleftrightarrow> (d = APPROVED \<or> d = DENIED) \<and> happened seen d op" for op d
      using inv unfolding approval_inv_def by blast
    have "d = ap_action e" if "d = APPROVED \<or> d = DENIED" "happened seen d (ap_operation_id e)"
      using D [of "ap_operation_id e" d] that decide(3) by (simp del: map_of_eq_Some_iff)
    then show ?thesis using D [of op d] decide(1) by (auto simp: decide(4) update_conv simp del: map_of_eq_Some_iff)
  qed
  moreover have "requests st' = requests st" "loop_executed st' = loop_executed st" using decide(4) by simp_all
  moreover have "distinct (map fst (decisions st'))"
    using inv decide(4) by (simp add: approval_inv_def distinct_update)
  ultimately show ?thesis using inv decide(1,2) by (auto simp: approval_inv_def)
next
  case execute
  then have "happened seen APPROVED (ap_operation_id e)" using inv by (auto simp: approval_inv_def)
  with inv execute show ?thesis by (auto simp: approval_inv_def)
qed

interpretation approval: reducer approval_step approval_inv
  by unfold_locales (rule approval_step_inv)

lemma replay_approval_success:
  assumes "replay_approval events = Inr res"
  obtains st where "run_steps approval_step empty_approvals events = Inr st" "approval_inv events st"
    "executed res = loop_executed st" "approved res = decided_as APPROVED (decisions st)"
    "denied res = decided_as DENIED (decisions st)"
  using assms approval.run_inv [OF approval_inv_empty]
  by (auto simp: replay_approval_def bind_result_Inr_iff split: if_splits)

lemma set_decided_as:
  "distinct (map fst ds) \<Longrightarrow> set (decided_as d ds) = {op. map_of ds op = Some d}"
  by (force simp: decided_as_def)

lemma distinct_decided_as: "distinct (map fst ds) \<Longrightarrow> distinct (decided_as d ds)"
  by (induction ds) (auto simp: decided_as_def image_iff)

subsection \<open>Safety of executions\<close>

lemma approval_inv_bound:
  "approval_inv seen st \<Longrightarrow> x \<in> set seen \<Longrightarrow> requests st (ap_operation_id x) = Some (approval_identity x)"
  by (simp add: approval_inv_def)

lemma approval_inv_decided:
  "approval_inv seen st \<Longrightarrow>
     map_of (decisions st) op = Some d \<longleftrightarrow> (d = APPROVED \<or> d = DENIED) \<and> happened seen d op"
  unfolding approval_inv_def by blast

lemma approval_inv_one_decision:
  assumes "approval_inv seen st"
  shows "\<not> (happened seen APPROVED op \<and> happened seen DENIED op)"
  using approval_inv_decided [OF assms, of op APPROVED] approval_inv_decided [OF assms, of op DENIED]
  by auto

lemma approval_inv_known:
  "approval_inv seen st \<Longrightarrow> requests st op = None \<longleftrightarrow> \<not> happened seen REQUESTED op"
  unfolding approval_inv_def by blast

text \<open>
  C36: No execution without a prior exact approval. If a replay returns, every \<open>EXECUTE\<close>
  event of the stream comes after a request and after an approval of the same operation id with
  the same tool and payload, its operation is never denied anywhere in the stream, and it is
  reported as executed.
\<close>

theorem execution_requires_exact_approval:
  assumes "replay_approval (xs @ e # ys) = Inr res" and "ap_action e = EXECUTE"
  shows "(\<exists>r \<in> set xs. ap_action r = REQUESTED \<and> ap_operation_id r = ap_operation_id e \<and>
            approval_identity r = approval_identity e) \<and>
         (\<exists>a \<in> set xs. ap_action a = APPROVED \<and> ap_operation_id a = ap_operation_id e \<and>
            approval_identity a = approval_identity e) \<and>
         \<not> happened (xs @ e # ys) DENIED (ap_operation_id e) \<and>
         ap_operation_id e \<in> set (executed res)"
proof -
  let ?op = "ap_operation_id e"
  from assms(1) obtain st where st: "run_steps approval_step empty_approvals (xs @ e # ys) = Inr st"
    "approval_inv (xs @ e # ys) st" "executed res = loop_executed st"
    by (rule replay_approval_success)
  from run_steps_prefix [OF st(1)] obtain s1 s2 where
    s1: "run_steps approval_step empty_approvals xs = Inr s1" and s2: "approval_step s1 e = Inr s2"
    by (auto simp: bind_result_Inr_iff)
  have inv1: "approval_inv xs s1" using approval.run_inv [OF approval_inv_empty s1] .
  have bound: "requests s1 ?op = Some (approval_identity e)"
    and dec: "\<exists>d. map_of (decisions s1) ?op = Some d \<and> d \<noteq> DENIED"
    by (cases rule: approval_step_Inr [OF s2]; use assms(2) in simp)+
  from dec obtain d where d: "map_of (decisions s1) ?op = Some d" "d \<noteq> DENIED" by blast
  then have "happened xs APPROVED ?op" using approval_inv_decided [OF inv1, of ?op d] by auto
  moreover have "happened xs REQUESTED ?op" using bound approval_inv_known [OF inv1, of ?op] by simp
  moreover have "approval_identity x = approval_identity e" if "x \<in> set xs" "ap_operation_id x = ?op" for x
    using approval_inv_bound [OF inv1 that(1)] that(2) bound by simp
  moreover have "happened (xs @ e # ys) APPROVED ?op"
    using \<open>happened xs APPROVED ?op\<close> by (auto simp: happened_def)
  then have "\<not> happened (xs @ e # ys) DENIED ?op" using approval_inv_one_decision [OF st(2)] by blast
  moreover have "?op \<in> set (executed res)"
    using st(2) assms(2) unfolding st(3) approval_inv_def happened_def by auto
  ultimately show ?thesis unfolding happened_def by blast
qed

text \<open>
  The projection is exact. When a replay returns, \<open>executed\<close>, \<open>approved\<close> and
  \<open>denied\<close> list, without repetition, the operation ids that were executed, approved and denied
  in the stream; no operation is both approved and denied, and every executed one is approved.
\<close>

theorem approval_projection:
  assumes "replay_approval events = Inr res"
  shows "distinct (executed res) \<and> (\<forall>op. op \<in> set (executed res) \<longleftrightarrow> happened events EXECUTE op) \<and>
         distinct (approved res) \<and> (\<forall>op. op \<in> set (approved res) \<longleftrightarrow> happened events APPROVED op) \<and>
         distinct (denied res) \<and> (\<forall>op. op \<in> set (denied res) \<longleftrightarrow> happened events DENIED op) \<and>
         set (approved res) \<inter> set (denied res) = {} \<and> set (executed res) \<subseteq> set (approved res)"
proof -
  from assms obtain st where st: "approval_inv events st" "executed res = loop_executed st"
    "approved res = decided_as APPROVED (decisions st)" "denied res = decided_as DENIED (decisions st)"
    by (rule replay_approval_success)
  have d: "distinct (map fst (decisions st))" using st(1) by (simp add: approval_inv_def)
  have ap: "op \<in> set (approved res) \<longleftrightarrow> happened events APPROVED op" for op
    unfolding st(3) set_decided_as [OF d] mem_Collect_eq approval_inv_decided [OF st(1)] by simp
  have dn: "op \<in> set (denied res) \<longleftrightarrow> happened events DENIED op" for op
    unfolding st(4) set_decided_as [OF d] mem_Collect_eq approval_inv_decided [OF st(1)] by simp
  have ex: "op \<in> set (executed res) \<longleftrightarrow> happened events EXECUTE op" "distinct (executed res)"
    "happened events EXECUTE op \<longrightarrow> happened events APPROVED op" for op
    using st(1) unfolding st(2) approval_inv_def by blast+
  show ?thesis
    using ap dn ex approval_inv_one_decision [OF st(1)] distinct_decided_as [OF d]
    by (auto simp: st(3,4))
qed

subsection \<open>What happens to the next event\<close>

text \<open>
  The decision table for one more event after a replay that returned \<open>res\<close>: \<open>None\<close> when it
  is accepted, otherwise the class of the exception.
\<close>

definition approval_verdict :: "ApprovalEvent list \<Rightarrow> ApprovalReplayResult \<Rightarrow> ApprovalEvent \<Rightarrow> exn_class option" where
  "approval_verdict xs res e =
     (let op = ap_operation_id e in
      if \<exists>x \<in> set xs. ap_operation_id x = op \<and> approval_identity x \<noteq> approval_identity e then Some ApprovalConflict
      else case ap_action e of
        REQUESTED \<Rightarrow> None
      | APPROVED \<Rightarrow> if \<not> happened xs REQUESTED op \<or> op \<in> set (denied res) then Some ApprovalConflict else None
      | DENIED \<Rightarrow> if \<not> happened xs REQUESTED op \<or> op \<in> set (approved res) then Some ApprovalConflict else None
      | EXECUTE \<Rightarrow>
          if \<not> happened xs REQUESTED op then Some ApprovalConflict
          else if op \<in> set (denied res) then Some ApprovalDenied
          else if op \<in> set (approved res) then None
          else Some ApprovalRequired)"

lemma approval_step_verdict:
  assumes inv: "approval_inv xs st"
    and res: "\<forall>op. op \<in> set (approved res) \<longleftrightarrow> map_of (decisions st) op = Some APPROVED"
      "\<forall>op. op \<in> set (denied res) \<longleftrightarrow> map_of (decisions st) op = Some DENIED"
  shows "case approval_verdict xs res e of
           None \<Rightarrow> returns (approval_step st e) | Some c \<Rightarrow> raises c (approval_step st e)"
proof -
  let ?op = "ap_operation_id e"
  have changed: "(\<exists>x \<in> set xs. ap_operation_id x = ?op \<and> approval_identity x \<noteq> approval_identity e)
      \<longleftrightarrow> requests st ?op \<noteq> None \<and> requests st ?op \<noteq> Some (approval_identity e)"
  proof
    assume "\<exists>x \<in> set xs. ap_operation_id x = ?op \<and> approval_identity x \<noteq> approval_identity e"
    then show "requests st ?op \<noteq> None \<and> requests st ?op \<noteq> Some (approval_identity e)"
      using approval_inv_bound [OF inv] by force
  next
    assume r: "requests st ?op \<noteq> None \<and> requests st ?op \<noteq> Some (approval_identity e)"
    then have "happened xs REQUESTED ?op" using approval_inv_known [OF inv, of ?op] by simp
    then obtain x where "x \<in> set xs" "ap_operation_id x = ?op" unfolding happened_def by blast
    with r approval_inv_bound [OF inv, of x]
    show "\<exists>x \<in> set xs. ap_operation_id x = ?op \<and> approval_identity x \<noteq> approval_identity e" by auto
  qed
  have known: "happened xs REQUESTED ?op \<longleftrightarrow> requests st ?op \<noteq> None"
    using approval_inv_known [OF inv, of ?op] by simp
  have vals: "map_of (decisions st) ?op = Some d \<Longrightarrow> d = APPROVED \<or> d = DENIED" for d
    using approval_inv_decided [OF inv] by blast
  show ?thesis
    unfolding approval_verdict_def Let_def changed known res [rule_format]
    by (cases "requests st ?op"; cases "map_of (decisions st) ?op"; cases "ap_action e")
      (auto simp: approval_step_def Let_def dest: vals simp del: map_of_eq_Some_iff)
qed

text \<open>
  Every branch of the lifecycle, for any history. After a replay that returned, one more
  ordered event is accepted or raises exactly as the decision table says: a changed tool or
  payload and an unrequested operation conflict, a decision cannot be reversed, execution
  without a decision raises \<open>ApprovalRequired\<close> and execution after a denial \<open>ApprovalDenied\<close>.
\<close>

theorem approval_next_event:
  assumes "replay_approval xs = Inr res" and "sorted_wrt (<) (map ap_sequence (xs @ [e]))"
  shows "case approval_verdict xs res e of
           None \<Rightarrow> returns (replay_approval (xs @ [e]))
         | Some c \<Rightarrow> raises c (replay_approval (xs @ [e]))"
proof -
  from assms(1) obtain st where st: "run_steps approval_step empty_approvals xs = Inr st"
    "approval_inv xs st" "approved res = decided_as APPROVED (decisions st)"
    "denied res = decided_as DENIED (decisions st)"
    by (rule replay_approval_success)
  have d: "distinct (map fst (decisions st))" using st(2) by (simp add: approval_inv_def)
  have "case approval_verdict xs res e of
          None \<Rightarrow> returns (approval_step st e) | Some c \<Rightarrow> raises c (approval_step st e)"
    by (rule approval_step_verdict [OF st(2)]) (simp_all add: st(3,4) set_decided_as [OF d])
  moreover have "\<not> not_strictly_increasing (map ap_sequence (xs @ [e]))"
    using assms(2) by (simp add: not_strictly_increasing_iff)
  then have "replay_approval (xs @ [e]) = bind_result (approval_step st e) (\<lambda>st.
      Inr \<lparr>executed = loop_executed st, approved = decided_as APPROVED (decisions st),
           denied = decided_as DENIED (decisions st)\<rparr>)"
    by (simp add: replay_approval_def run_steps_snoc st(1))
  ultimately show ?thesis by (cases "approval_step st e") (auto split: option.splits)
qed

definition approval_event :: "int \<Rightarrow> ApprovalAction \<Rightarrow> string \<Rightarrow> ApprovalEvent" where
  "approval_event n a pl =
     \<lparr>ap_sequence = n, ap_action = a, ap_operation_id = ''write:plan'', ap_tool = ''write_file'', ap_payload = pl\<rparr>"

lemmas approval_eval =
  replay_approval_def not_strictly_increasing_def approval_step_def empty_approvals_def
  approval_event_def approval_identity_def decided_as_def Let_def

lemma approved_run:
  "replay_approval ([approval_event 1 REQUESTED ''v1'', approval_event 2 APPROVED ''v1'']
       @ approval_event 3 EXECUTE ''v1'' # []) =
     Inr \<lparr>executed = [''write:plan''], approved = [''write:plan''], denied = []\<rparr>"
  by (simp add: approval_eval)

lemma denied_run:
  "replay_approval [approval_event 1 REQUESTED ''v1'', approval_event 2 DENIED ''v1''] =
     Inr \<lparr>executed = [], approved = [], denied = [''write:plan'']\<rparr>"
  by (simp add: approval_eval)

lemma execution_requires_exact_approval_witness:
  "\<not> happened ([approval_event 1 REQUESTED ''v1'', approval_event 2 APPROVED ''v1'']
       @ approval_event 3 EXECUTE ''v1'' # []) DENIED (ap_operation_id (approval_event 3 EXECUTE ''v1''))"
proof -
  have "ap_action (approval_event 3 EXECUTE ''v1'') = EXECUTE" by (simp add: approval_event_def)
  from execution_requires_exact_approval [OF approved_run this] show ?thesis by blast
qed

lemma approval_projection_witness: "set [''write:plan''] \<inter> set ([] :: string list) = {}"
  using approval_projection [OF approved_run] by simp

lemma approval_next_event_witness:
  "raises ApprovalDenied (replay_approval
     ([approval_event 1 REQUESTED ''v1'', approval_event 2 DENIED ''v1''] @ [approval_event 3 EXECUTE ''v1'']))"
proof -
  have "sorted_wrt (<) (map ap_sequence
      ([approval_event 1 REQUESTED ''v1'', approval_event 2 DENIED ''v1''] @ [approval_event 3 EXECUTE ''v1'']))"
    by (simp add: approval_event_def)
  moreover have "approval_verdict [approval_event 1 REQUESTED ''v1'', approval_event 2 DENIED ''v1'']
      \<lparr>executed = [], approved = [], denied = [''write:plan'']\<rparr> (approval_event 3 EXECUTE ''v1'') = Some ApprovalDenied"
    by (simp add: approval_verdict_def approval_event_def approval_identity_def happened_def)
  ultimately show ?thesis using approval_next_event [OF denied_run] by fastforce
qed

end
