(* ===== verification/Durable.thy ===== *)
theory Durable
  imports Store
begin

section \<open>The durable sandbox (\<open>durable.py\<close>)\<close>

text \<open>
  Approvals, a local effect (a note) and its completion flag in one SQLite file. The model has
  the two tables, every method as a transaction with its statements in order, and the
  instrumented crash points of \<open>execute\<close>. Proved: the table invariant, refinement of an
  abstract approval automaton, at most one effect per operation in every schedule of any number
  of processes, provenance of every note, and recovery from a crash at any point.
\<close>

subsection \<open>The database and the operation\<close>

record LocalOperation =
  lo_operation_id :: string
  lo_tool :: string
  lo_payload :: string

definition mk_LocalOperation :: "pyval \<Rightarrow> pyval \<Rightarrow> pyval \<Rightarrow> LocalOperation result" where
  "mk_LocalOperation operation_id tool payload =
     (if not_nonempty_str operation_id then raise ValueError ''operation_id must be a nonempty string''
      else if tool \<noteq> PStr ''record_note''
      then raise ValueError ''this sandbox supports only the inert record_note tool''
      else if \<not> is_str payload
      then raise TypeError ''payload must be a string; matching is exact, not semantic''
      else Inr \<lparr>lo_operation_id = str_of operation_id, lo_tool = str_of tool, lo_payload = str_of payload\<rparr>)"

text \<open>Columns of the \<open>operations\<close> table; \<open>notes\<close> maps an operation id to a payload.\<close>

record operation_row =
  row_tool :: string
  row_payload :: string
  row_decision :: "string option"
  row_completed :: int

record sandbox_db =
  user_version :: int
  operations :: "(string, operation_row) table"
  notes_table :: "(string, string) table"

definition new_sandbox_file :: sandbox_db where
  "new_sandbox_file = \<lparr>user_version = 0, operations = [], notes_table = []\<rparr>"

subsection \<open>The methods\<close>

definition open_sandbox :: "string \<Rightarrow> (sandbox_db, unit) txn" where
  "open_sandbox database db =
     (if database = '':memory:''
      then (raise ValueError ''a file-backed database is required for restart recovery'', db)
      else transaction (\<lambda>db.
        if user_version db \<noteq> 0 \<and> user_version db \<noteq> 1
        then (raise ValueError (''unsupported sandbox database schema: '' @ show_int (user_version db)), db)
        else (Inr (), db\<lparr>user_version := 1\<rparr>)) db)"

definition existing :: "sandbox_db \<Rightarrow> LocalOperation \<Rightarrow> operation_row result" where
  "existing db op =
     (case select_key (operations db) (lo_operation_id op) of
        None \<Rightarrow> raise ApprovalRequired ''operation must be requested before a decision or execution''
      | Some row \<Rightarrow>
          if (row_tool row, row_payload row) \<noteq> (lo_tool op, lo_payload op)
          then raise IdempotencyConflict ''operation_id is already bound to a different exact effect''
          else Inr row)"

definition new_row :: "LocalOperation \<Rightarrow> operation_row" where
  "new_row op =
     \<lparr>row_tool = lo_tool op, row_payload = lo_payload op, row_decision = None, row_completed = 0\<rparr>"

definition request :: "LocalOperation \<Rightarrow> (sandbox_db, unit) txn" where
  "request op = transaction (\<lambda>db.
     let db1 = (case select_key (operations db) (lo_operation_id op) of
                  None \<Rightarrow> db\<lparr>operations := insert_row (lo_operation_id op) (new_row op) (operations db)\<rparr>
                | Some _ \<Rightarrow> db)
     in case existing db1 op of Inl e \<Rightarrow> (Inl e, db1) | Inr _ \<Rightarrow> (Inr (), db1))"

definition decide :: "LocalOperation \<Rightarrow> string \<Rightarrow> (sandbox_db, unit) txn" where
  "decide op decision db =
     (if decision \<noteq> ''approved'' \<and> decision \<noteq> ''denied''
      then (raise ValueError ''decision must be approved or denied'', db)
      else transaction (\<lambda>db.
        case existing db op of
          Inl e \<Rightarrow> (Inl e, db)
        | Inr row \<Rightarrow>
            if row_decision row \<noteq> None \<and> row_decision row \<noteq> Some decision
            then (raise ApprovalConflict ''an existing decision cannot be reversed by replay'', db)
            else (Inr (), db\<lparr>operations := update_row (lo_operation_id op)
                    (\<lambda>r. r\<lparr>row_decision := Some decision\<rparr>) (operations db)\<rparr>)) db)"

text \<open>
  \<open>execute\<close> with its instrumentation: the callback is consulted at four stages, and
  \<open>Some e\<close> means that it does not return (it raises, or ends the process).
\<close>

definition execute_body ::
  "LocalOperation \<Rightarrow> (string \<Rightarrow> exn option) \<Rightarrow> (sandbox_db, bool) txn" where
  "execute_body op checkpoint db =
     (case existing db op of
        Inl e \<Rightarrow> (Inl e, db)
      | Inr row \<Rightarrow>
          if row_decision row = None then (raise ApprovalRequired ''an exact approval is required'', db)
          else if row_decision row = Some ''denied''
          then (raise ApprovalDenied ''the exact operation was denied'', db)
          else if row_completed row \<noteq> 0 then (Inr False, db)
          else case checkpoint ''before_effect'' of
            Some e \<Rightarrow> (Inl e, db)
          | None \<Rightarrow>
              if select_key (notes_table db) (lo_operation_id op) \<noteq> None
              then (raise IntegrityError ''UNIQUE constraint failed: notes.operation_id'', db)
              else
                let db1 = db\<lparr>notes_table := insert_row (lo_operation_id op) (lo_payload op) (notes_table db)\<rparr> in
                case checkpoint ''after_effect'' of
                  Some e \<Rightarrow> (Inl e, db1)
                | None \<Rightarrow>
                    let db2 = db1\<lparr>operations := update_row (lo_operation_id op)
                                 (\<lambda>r. r\<lparr>row_completed := 1\<rparr>) (operations db1)\<rparr> in
                    case checkpoint ''before_commit'' of
                      Some e \<Rightarrow> (Inl e, db2)
                    | None \<Rightarrow> (Inr True, db2))"

definition execute :: "LocalOperation \<Rightarrow> (string \<Rightarrow> exn option) \<Rightarrow> (sandbox_db, bool) txn" where
  "execute op checkpoint db =
     (case transaction (execute_body op checkpoint) db of
        (Inr True, db') \<Rightarrow>
          (case checkpoint ''after_commit'' of Some e \<Rightarrow> (Inl e, db') | None \<Rightarrow> (Inr True, db'))
      | (r, db') \<Rightarrow> (r, db'))"

abbreviation no_checkpoint :: "string \<Rightarrow> exn option" where
  "no_checkpoint \<equiv> (\<lambda>stage. None)"

definition list_notes :: "(sandbox_db, (string \<times> string) list) txn" where
  "list_notes = transaction (\<lambda>db. (Inr (sort_key fst (notes_table db)), db))"

subsection \<open>The methods as operations of a store\<close>

datatype sandbox_op =
    Open string | Request LocalOperation | Decide LocalOperation string
  | Execute LocalOperation | Notes

datatype sandbox_result = Returned | Executed bool | NoteRows "(string \<times> string) list"

fun sandbox_exec :: "sandbox_db \<Rightarrow> sandbox_op \<Rightarrow> sandbox_result result \<times> sandbox_db" where
  "sandbox_exec db (Open path) = wrap (\<lambda>_. Returned) (open_sandbox path db)"
| "sandbox_exec db (Request op) = wrap (\<lambda>_. Returned) (request op db)"
| "sandbox_exec db (Decide op d) = wrap (\<lambda>_. Returned) (decide op d db)"
| "sandbox_exec db (Execute op) = wrap Executed (execute op no_checkpoint db)"
| "sandbox_exec db Notes = wrap NoteRows (list_notes db)"

definition sandbox_inv :: "sandbox_db \<Rightarrow> bool" where
  "sandbox_inv db \<longleftrightarrow>
     primary_key (operations db) \<and> primary_key (notes_table db) \<and>
     (\<forall>id row. select_key (operations db) id = Some row \<longrightarrow>
        row_decision row \<in> {None, Some ''approved'', Some ''denied''} \<and>
        row_completed row \<in> {0, 1} \<and>
        (row_completed row = 1 \<longrightarrow> row_decision row = Some ''approved'')) \<and>
     (\<forall>id p. select_key (notes_table db) id = Some p \<longleftrightarrow>
        (\<exists>row. select_key (operations db) id = Some row \<and> row_completed row = 1 \<and> row_payload row = p))"

lemma sandbox_inv_new: "sandbox_inv new_sandbox_file"
  by (simp add: sandbox_inv_def new_sandbox_file_def)

subsection \<open>What an operation can do to the database\<close>

lemma request_result:
  "request op db =
     (case select_key (operations db) (lo_operation_id op) of
        None \<Rightarrow> (Inr (), db\<lparr>operations := insert_row (lo_operation_id op) (new_row op) (operations db)\<rparr>)
      | Some row \<Rightarrow>
          if (row_tool row, row_payload row) = (lo_tool op, lo_payload op) then (Inr (), db)
          else (raise IdempotencyConflict ''operation_id is already bound to a different exact effect'', db))"
  by (simp add: request_def transaction_def existing_def new_row_def select_insert split: option.split)

lemma execute_default:
  "execute op no_checkpoint db = transaction (execute_body op no_checkpoint) db"
  by (simp add: execute_def split: prod.split sum.split bool.split)

lemma sandbox_exec_cases:
  assumes "sandbox_inv db"
  obtains
    (same) "snd (sandbox_exec db op) = db" "fst (sandbox_exec db op) \<noteq> Inr (Executed True)"
  | (opened) path where "op = Open path" "snd (sandbox_exec db op) = db\<lparr>user_version := 1\<rparr>"
      "fst (sandbox_exec db op) = Inr Returned"
  | (requested) lo where "op = Request lo" "select_key (operations db) (lo_operation_id lo) = None"
      "snd (sandbox_exec db op) = db\<lparr>operations := insert_row (lo_operation_id lo) (new_row lo) (operations db)\<rparr>"
      "fst (sandbox_exec db op) = Inr Returned"
  | (decided) lo d row where "op = Decide lo d" "d = ''approved'' \<or> d = ''denied''"
      "select_key (operations db) (lo_operation_id lo) = Some row"
      "row_tool row = lo_tool lo" "row_payload row = lo_payload lo" "row_decision row \<in> {None, Some d}"
      "snd (sandbox_exec db op) = db\<lparr>operations := update_row (lo_operation_id lo)
          (\<lambda>r. r\<lparr>row_decision := Some d\<rparr>) (operations db)\<rparr>"
      "fst (sandbox_exec db op) = Inr Returned"
  | (executed) lo row where "op = Execute lo"
      "select_key (operations db) (lo_operation_id lo) = Some row"
      "row_tool row = lo_tool lo" "row_payload row = lo_payload lo" "row_decision row = Some ''approved''"
      "row_completed row = 0" "select_key (notes_table db) (lo_operation_id lo) = None"
      "snd (sandbox_exec db op) = db\<lparr>notes_table := insert_row (lo_operation_id lo) (lo_payload lo) (notes_table db),
         operations := update_row (lo_operation_id lo) (\<lambda>r. r\<lparr>row_completed := 1\<rparr>) (operations db)\<rparr>"
      "fst (sandbox_exec db op) = Inr (Executed True)"
proof (cases op)
  case (Open path)
  then show ?thesis
    by (cases "path = '':memory:''"; cases "user_version db \<noteq> 0 \<and> user_version db \<noteq> 1")
      (auto simp: open_sandbox_def transaction_def wrap_def intro: same opened)
next
  case (Request lo)
  then show ?thesis
    by (cases "select_key (operations db) (lo_operation_id lo)")
      (auto simp: request_result wrap_def intro: same requested split: if_splits)
next
  case (Decide lo d)
  show ?thesis
  proof (cases "d = ''approved'' \<or> d = ''denied''")
    case False
    with Decide show ?thesis by (intro same) (auto simp: decide_def wrap_def)
  next
    case d: True
    show ?thesis
    proof (cases "existing db lo")
      case (Inl e)
      with d Decide show ?thesis by (intro same) (auto simp: decide_def wrap_def transaction_def)
    next
      case (Inr row)
      then have row: "select_key (operations db) (lo_operation_id lo) = Some row"
        "row_tool row = lo_tool lo" "row_payload row = lo_payload lo"
        by (auto simp: existing_def split: option.splits if_splits)
      show ?thesis
      proof (cases "row_decision row \<in> {None, Some d}")
        case True
        with d Decide Inr row show ?thesis
          by (intro decided [of lo d row]) (auto simp: decide_def wrap_def transaction_def)
      next
        case False
        with d Decide Inr show ?thesis by (intro same) (auto simp: decide_def wrap_def transaction_def)
      qed
    qed
  qed
next
  case (Execute lo)
  show ?thesis
  proof (cases "existing db lo")
    case (Inl e)
    with Execute show ?thesis
      by (intro same) (simp_all add: execute_default execute_body_def wrap_def transaction_def)
  next
    case (Inr row)
    then have row: "select_key (operations db) (lo_operation_id lo) = Some row"
      "row_tool row = lo_tool lo" "row_payload row = lo_payload lo"
      by (auto simp: existing_def split: option.splits if_splits)
    show ?thesis
    proof (cases "row_decision row = Some ''approved'' \<and> row_completed row = 0")
      case True
      then have "select_key (notes_table db) (lo_operation_id lo) = None"
        using assms row(1)
        by (cases "select_key (notes_table db) (lo_operation_id lo)") (auto simp: sandbox_inv_def)
      with True Execute Inr row show ?thesis
        by (intro executed [of lo row])
          (simp_all add: execute_default execute_body_def wrap_def transaction_def Let_def)
    next
      case False
      moreover have "row_decision row \<in> {None, Some ''approved'', Some ''denied''}"
        using assms row(1) unfolding sandbox_inv_def by blast
      ultimately show ?thesis using Execute Inr
        by (intro same) (auto simp: execute_default execute_body_def wrap_def transaction_def)
    qed
  qed
next
  case Notes
  then show ?thesis by (intro same) (simp_all add: list_notes_def wrap_def transaction_def)
qed

lemma sandbox_exec_inv:
  assumes "sandbox_inv db"
  shows "sandbox_inv (snd (sandbox_exec db op))"
  using assms
proof (cases rule: sandbox_exec_cases [of db op])
  case same
  with assms show ?thesis by simp
next
  case opened
  with assms show ?thesis by (simp add: sandbox_inv_def)
next
  case (requested lo)
  with assms show ?thesis
    by (auto simp: sandbox_inv_def select_insert primary_key_insert new_row_def split: if_splits)
next
  case (decided lo d row)
  with assms show ?thesis
    by (auto simp: sandbox_inv_def split: if_splits)
next
  case (executed lo row)
  with assms show ?thesis
    by (auto simp: sandbox_inv_def select_insert primary_key_insert split: if_splits)
qed

lemma sandbox_exec_fail:
  "\<not> returns (fst (sandbox_exec db op)) \<Longrightarrow> snd (sandbox_exec db op) = db"
proof (cases op)
  case (Execute lo)
  then show "\<not> returns (fst (sandbox_exec db op)) \<Longrightarrow> snd (sandbox_exec db op) = db"
    by (simp add: execute_default snd_transaction)
qed (auto simp: open_sandbox_def request_def decide_def list_notes_def snd_transaction)

interpretation sandbox: store sandbox_exec sandbox_inv
  by unfold_locales (simp_all add: sandbox_exec_inv sandbox_exec_fail)

subsection \<open>Refinement of an approval automaton\<close>

text \<open>What the sandbox promises per operation id: an exact binding and a status that only moves up.\<close>

datatype approval_status = Pending | Rejected | Granted | Completed

instantiation approval_status :: order
begin

definition less_eq_approval_status :: "approval_status \<Rightarrow> approval_status \<Rightarrow> bool" where
  "less_eq_approval_status s t \<longleftrightarrow> s = t \<or> s = Pending \<or> (s = Granted \<and> t = Completed)"

definition less_approval_status :: "approval_status \<Rightarrow> approval_status \<Rightarrow> bool" where
  "less_approval_status s t \<longleftrightarrow> s \<noteq> t \<and> (s = Pending \<or> (s = Granted \<and> t = Completed))"

instance
  by standard (auto simp: less_eq_approval_status_def less_approval_status_def)

end

type_synonym sandbox_spec = "string \<Rightarrow> ((string \<times> string) \<times> approval_status) option"

definition status_of :: "operation_row \<Rightarrow> approval_status" where
  "status_of row =
     (if row_completed row \<noteq> 0 then Completed
      else if row_decision row = None then Pending
      else if row_decision row = Some ''approved'' then Granted
      else Rejected)"

definition sandbox_abs :: "sandbox_db \<Rightarrow> sandbox_spec" where
  "sandbox_abs db k =
     map_option (\<lambda>row. ((row_tool row, row_payload row), status_of row)) (select_key (operations db) k)"

text \<open>
  The automaton: the outcome of each operation (the class of the exception, or the result) and
  the next abstract state.
\<close>

fun spec_bound :: "sandbox_spec \<Rightarrow> LocalOperation \<Rightarrow> exn_class + approval_status" where
  "spec_bound m lo =
     (case m (lo_operation_id lo) of
        None \<Rightarrow> Inl ApprovalRequired
      | Some (i, s) \<Rightarrow> if i = (lo_tool lo, lo_payload lo) then Inr s else Inl IdempotencyConflict)"

fun spec_exec :: "sandbox_spec \<Rightarrow> sandbox_op \<Rightarrow> (exn_class + sandbox_result) \<times> sandbox_spec" where
  "spec_exec m (Request lo) =
     (if m (lo_operation_id lo) = None
      then (Inr Returned, m(lo_operation_id lo \<mapsto> ((lo_tool lo, lo_payload lo), Pending)))
      else case spec_bound m lo of Inl c \<Rightarrow> (Inl c, m) | Inr s \<Rightarrow> (Inr Returned, m))"
| "spec_exec m (Decide lo d) =
     (if d \<noteq> ''approved'' \<and> d \<noteq> ''denied'' then (Inl ValueError, m)
      else case spec_bound m lo of
        Inl c \<Rightarrow> (Inl c, m)
      | Inr s \<Rightarrow>
          let t = (if d = ''approved'' then Granted else Rejected) in
          if s = Pending then (Inr Returned, m(lo_operation_id lo \<mapsto> ((lo_tool lo, lo_payload lo), t)))
          else if t \<le> s then (Inr Returned, m)
          else (Inl ApprovalConflict, m))"
| "spec_exec m (Execute lo) =
     (case spec_bound m lo of
        Inl c \<Rightarrow> (Inl c, m)
      | Inr Pending \<Rightarrow> (Inl ApprovalRequired, m)
      | Inr Rejected \<Rightarrow> (Inl ApprovalDenied, m)
      | Inr Granted \<Rightarrow>
          (Inr (Executed True), m(lo_operation_id lo \<mapsto> ((lo_tool lo, lo_payload lo), Completed)))
      | Inr Completed \<Rightarrow> (Inr (Executed False), m))"
| "spec_exec m op = (Inr Returned, m)"

definition outcome_class :: "'a result \<Rightarrow> exn_class + 'a" where
  "outcome_class r = map_sum fst id r"

definition approval_call :: "sandbox_op \<Rightarrow> bool" where
  "approval_call op = (case op of Open path \<Rightarrow> False | Notes \<Rightarrow> False | _ \<Rightarrow> True)"

lemma sandbox_inv_row:
  assumes "sandbox_inv db" "select_key (operations db) k = Some row"
  shows "row_decision row = None \<or> row_decision row = Some ''approved'' \<or> row_decision row = Some ''denied''"
    "row_completed row = 0 \<or> row_completed row = 1"
    "row_completed row = 1 \<Longrightarrow> row_decision row = Some ''approved''"
  using assms unfolding sandbox_inv_def by blast+

lemma sandbox_abs_update_row:
  "select_key (operations db) k = Some row \<Longrightarrow>
     sandbox_abs (db\<lparr>operations := update_row k f (operations db)\<rparr>) =
       (sandbox_abs db)(k \<mapsto> ((row_tool (f row), row_payload (f row)), status_of (f row)))"
  by (simp add: sandbox_abs_def fun_eq_iff)

lemma sandbox_abs_insert:
  "select_key (operations db) (lo_operation_id lo) = None \<Longrightarrow>
     sandbox_abs (db\<lparr>operations := insert_row (lo_operation_id lo) (new_row lo) (operations db)\<rparr>) =
       (sandbox_abs db)(lo_operation_id lo \<mapsto> ((lo_tool lo, lo_payload lo), Pending))"
  by (simp add: sandbox_abs_def fun_eq_iff select_insert new_row_def status_of_def)

lemma refine_request:
  "outcome_class (fst (sandbox_exec db (Request lo))) = fst (spec_exec (sandbox_abs db) (Request lo)) \<and>
   sandbox_abs (snd (sandbox_exec db (Request lo))) = snd (spec_exec (sandbox_abs db) (Request lo))"
  by (cases "select_key (operations db) (lo_operation_id lo)")
    (auto simp: request_result wrap_def outcome_class_def sandbox_abs_insert,
     auto simp: sandbox_abs_def)

lemma refine_decide:
  assumes "sandbox_inv db"
  shows "outcome_class (fst (sandbox_exec db (Decide lo d))) = fst (spec_exec (sandbox_abs db) (Decide lo d)) \<and>
   sandbox_abs (snd (sandbox_exec db (Decide lo d))) = snd (spec_exec (sandbox_abs db) (Decide lo d))"
proof (cases "select_key (operations db) (lo_operation_id lo)")
  case None
  then show ?thesis
    by (auto simp: decide_def existing_def wrap_def transaction_def outcome_class_def sandbox_abs_def)
next
  case (Some row)
  note r = sandbox_inv_row [OF assms Some]
  have abs: "sandbox_abs db (lo_operation_id lo) = Some ((row_tool row, row_payload row), status_of row)"
    by (simp add: sandbox_abs_def Some)
  have same: "sandbox_abs db = (sandbox_abs db)(lo_operation_id lo \<mapsto> ((row_tool row, row_payload row), status_of row))"
    using abs by (simp add: fun_eq_iff)
  show ?thesis
    using r Some
    by (auto simp: decide_def existing_def wrap_def transaction_def outcome_class_def Let_def abs
        sandbox_abs_update_row status_of_def less_eq_approval_status_def same [symmetric, simplified status_of_def])
qed

lemma sandbox_abs_notes [simp]: "sandbox_abs (db\<lparr>notes_table := t\<rparr>) = sandbox_abs db"
  by (simp add: sandbox_abs_def fun_eq_iff)

lemma sandbox_abs_complete:
  "select_key (operations db) k = Some row \<Longrightarrow> row_completed (f row) \<noteq> 0 \<Longrightarrow>
     sandbox_abs (db\<lparr>notes_table := t, operations := update_row k f (operations db)\<rparr>) =
       (sandbox_abs db)(k \<mapsto> ((row_tool (f row), row_payload (f row)), Completed))"
  by (simp add: sandbox_abs_def fun_eq_iff status_of_def)

lemma sandbox_abs_version [simp]: "sandbox_abs (db\<lparr>user_version := v\<rparr>) = sandbox_abs db"
  by (simp add: sandbox_abs_def fun_eq_iff)

lemma sandbox_inv_no_note:
  assumes "sandbox_inv db" "select_key (operations db) k = Some row" "row_completed row = 0"
  shows "select_key (notes_table db) k = None"
  using assms by (cases "select_key (notes_table db) k") (auto simp: sandbox_inv_def)

lemma execute_result:
  assumes "sandbox_inv db"
  shows "execute lo no_checkpoint db =
    (case existing db lo of
       Inl e \<Rightarrow> (Inl e, db)
     | Inr row \<Rightarrow>
         if row_decision row = None then (raise ApprovalRequired ''an exact approval is required'', db)
         else if row_decision row = Some ''denied'' then (raise ApprovalDenied ''the exact operation was denied'', db)
         else if row_completed row \<noteq> 0 then (Inr False, db)
         else (Inr True, db\<lparr>notes_table := insert_row (lo_operation_id lo) (lo_payload lo) (notes_table db),
                 operations := update_row (lo_operation_id lo) (\<lambda>r. r\<lparr>row_completed := 1\<rparr>) (operations db)\<rparr>))"
  using sandbox_inv_no_note [OF assms]
  by (auto simp: execute_default execute_body_def transaction_def existing_def Let_def
      split: option.splits sum.splits)

lemma refine_execute:
  assumes "sandbox_inv db"
  shows "outcome_class (fst (sandbox_exec db (Execute lo))) = fst (spec_exec (sandbox_abs db) (Execute lo)) \<and>
   sandbox_abs (snd (sandbox_exec db (Execute lo))) = snd (spec_exec (sandbox_abs db) (Execute lo))"
proof (cases "select_key (operations db) (lo_operation_id lo)")
  case None
  then show ?thesis
    by (auto simp: execute_result [OF assms] existing_def wrap_def outcome_class_def sandbox_abs_def)
next
  case (Some row)
  have abs: "sandbox_abs db (lo_operation_id lo) = Some ((row_tool row, row_payload row), status_of row)"
    by (simp add: sandbox_abs_def Some)
  show ?thesis
    using sandbox_inv_row [OF assms Some] Some
    by (auto simp: execute_result [OF assms] existing_def wrap_def outcome_class_def abs
        sandbox_abs_complete status_of_def)
qed

text \<open>
  C15: The SQLite implementation refines the approval automaton. From every database that
  satisfies the table invariant, each of \<open>request\<close>, \<open>decide\<close> and \<open>execute\<close> returns or
  raises as the automaton says, and leaves a database whose abstraction is the automaton's next state.
\<close>

theorem sandbox_refines_automaton:
  assumes "sandbox_inv db" and "approval_call op"
  shows "outcome_class (fst (sandbox_exec db op)) = fst (spec_exec (sandbox_abs db) op) \<and>
         sandbox_abs (snd (sandbox_exec db op)) = snd (spec_exec (sandbox_abs db) op)"
  using assms refine_request refine_decide refine_execute
  by (cases op) (simp_all add: approval_call_def del: spec_exec.simps sandbox_exec.simps)

subsection \<open>Schedules of any number of processes\<close>

lemma sandbox_abs_step:
  assumes inv: "sandbox_inv db" and k: "sandbox_abs db k = Some (i, s)"
  shows "\<exists>t. sandbox_abs (snd (sandbox_exec db op)) k = Some (i, t) \<and> s \<le> t"
  using inv
proof (cases rule: sandbox_exec_cases [of db op])
  case (requested lo)
  then have "sandbox_abs db (lo_operation_id lo) = None" by (simp add: sandbox_abs_def)
  with k have "k \<noteq> lo_operation_id lo" by auto
  with k requested(2,3) show ?thesis by (simp add: sandbox_abs_insert)
next
  case (decided lo d row)
  show ?thesis
  proof (cases "k = lo_operation_id lo")
    case False
    with k decided(3,7) show ?thesis by (simp add: sandbox_abs_update_row)
  next
    case True
    with k decided(3) have i: "i = (row_tool row, row_payload row)" "s = status_of row"
      by (simp_all add: sandbox_abs_def)
    have "status_of row \<le> status_of (row\<lparr>row_decision := Some d\<rparr>)"
      using decided(2,6) sandbox_inv_row [OF inv decided(3)]
      by (auto simp: status_of_def less_eq_approval_status_def)
    with True decided(3,7) show ?thesis by (simp add: sandbox_abs_update_row i)
  qed
next
  case (executed lo row)
  show ?thesis
  proof (cases "k = lo_operation_id lo")
    case False
    with k executed(2,8) show ?thesis by (simp add: sandbox_abs_complete)
  next
    case True
    with k executed(2) have i: "i = (row_tool row, row_payload row)" "s = status_of row"
      by (simp_all add: sandbox_abs_def)
    have "status_of row \<le> Completed"
      using executed(5,6) by (simp add: status_of_def less_eq_approval_status_def)
    with True executed(2,8) show ?thesis by (simp add: sandbox_abs_complete i)
  qed
qed (use k in \<open>simp_all del: sandbox_exec.simps\<close>)

text \<open>
  Bindings and decisions are permanent. Once an operation id is bound to a tool and payload,
  no schedule of operations by any processes, restarts included, unbinds or rebinds it, and its
  status only moves up: a decision is never reversed and a completion never undone.
\<close>

theorem binding_and_decision_persist:
  assumes "sandbox_inv db" and "sandbox_abs db k = Some (i, s)"
  shows "\<exists>t. sandbox_abs (after sandbox_exec db ops) k = Some (i, t) \<and> s \<le> t"
proof -
  have step: "\<exists>t. sandbox_abs (snd (sandbox_exec db op)) k = Some (i, t) \<and> s \<le> t"
    if "sandbox_inv db" "\<exists>t. sandbox_abs db k = Some (i, t) \<and> s \<le> t" for db op
    using sandbox_abs_step that by (meson order_trans)
  show ?thesis using sandbox.after_stable [of "\<lambda>db. \<exists>t. sandbox_abs db k = Some (i, t) \<and> s \<le> t", OF step]
    assms by blast
qed

definition effect_of :: "string \<Rightarrow> sandbox_op \<Rightarrow> sandbox_result \<Rightarrow> bool" where
  "effect_of k op r =
     (case op of Execute lo \<Rightarrow> lo_operation_id lo = k \<and> r = Executed True | _ \<Rightarrow> False)"

definition note_count :: "sandbox_db \<Rightarrow> string \<Rightarrow> nat" where
  "note_count db k = length (filter (\<lambda>(id', p). id' = k) (notes_table db))"

lemma note_count_primary:
  "primary_key (notes_table db) \<Longrightarrow>
     note_count db k = (if select_key (notes_table db) k = None then 0 else 1)"
proof -
  have "distinct (map fst t) \<Longrightarrow>
    length (filter (\<lambda>(k', p). k' = k) t) = (if map_of t k = None then 0 else 1)" for t :: "(string, string) table"
    by (induction t) (auto simp: filter_empty_conv map_of_eq_None_iff)
  then show "primary_key (notes_table db) \<Longrightarrow> ?thesis"
    by (simp add: note_count_def primary_key_def select_key_def)
qed

lemma note_count_step:
  assumes inv: "sandbox_inv db"
  shows "note_count (snd (sandbox_exec db op)) k =
    note_count db k + successes (effect_of k) [op] [fst (sandbox_exec db op)]"
  using inv
proof (cases rule: sandbox_exec_cases [of db op])
  case same
  then show ?thesis by (auto simp: successes_def effect_of_def split: sum.splits sandbox_op.splits)
next
  case (executed lo row)
  then show ?thesis by (auto simp: successes_def effect_of_def note_count_def insert_row_def)
qed (auto simp: successes_def effect_of_def note_count_def)

lemma successes_Cons:
  "successes Q (op # ops) (r # rs) = successes Q [op] [r] + successes Q ops rs"
  by (simp add: successes_def)

lemma note_count_after:
  "sandbox_inv db \<Longrightarrow>
     note_count (after sandbox_exec db ops) k = note_count db k + successes (effect_of k) ops (outcomes sandbox_exec db ops)"
proof (induction ops arbitrary: db)
  case Nil
  then show ?case by (simp add: successes_def)
next
  case (Cons op ops)
  have "sandbox_inv (snd (sandbox_exec db op))" using Cons.prems by (rule sandbox_exec_inv)
  from Cons.IH [OF this] note_count_step [OF Cons.prems, of op k]
    successes_Cons [of "effect_of k" op ops "fst (sandbox_exec db op)" "outcomes sandbox_exec (snd (sandbox_exec db op)) ops"]
  show ?case by (simp del: sandbox_exec.simps)
qed

text \<open>
  C30: At most one effect. In every schedule of operations on a fresh file, by any number of
  processes, the number of times \<open>execute\<close> reports for an operation id that it performed the
  effect is the number of notes stored under that id, and it is at most one.
\<close>

theorem at_most_one_local_effect:
  "let final = after sandbox_exec new_sandbox_file ops in
   successes (effect_of k) ops (outcomes sandbox_exec new_sandbox_file ops) = note_count final k \<and>
   note_count final k \<le> 1"
proof -
  have inv: "sandbox_inv (after sandbox_exec new_sandbox_file ops)"
    using sandbox_inv_new by (rule sandbox.after_inv)
  then have "note_count (after sandbox_exec new_sandbox_file ops) k \<le> 1"
    by (simp add: note_count_primary sandbox_inv_def)
  moreover have "note_count new_sandbox_file k = 0"
    by (simp add: note_count_def new_sandbox_file_def)
  ultimately show ?thesis
    using note_count_after [OF sandbox_inv_new, of ops k] by (simp add: Let_def)
qed

subsection \<open>Crash recovery\<close>

lemma execute_fresh:
  assumes "sandbox_inv db" and "fst (execute lo no_checkpoint db) = Inr True"
  obtains row where "existing db lo = Inr row" "row_decision row = Some ''approved''" "row_completed row = 0"
    "select_key (notes_table db) (lo_operation_id lo) = None"
    "snd (execute lo no_checkpoint db) =
       db\<lparr>notes_table := insert_row (lo_operation_id lo) (lo_payload lo) (notes_table db),
          operations := update_row (lo_operation_id lo) (\<lambda>r. r\<lparr>row_completed := 1\<rparr>) (operations db)\<rparr>"
proof -
  obtain row where row: "existing db lo = Inr row" "row_decision row \<noteq> None"
    "row_decision row \<noteq> Some ''denied''" "row_completed row = 0"
    using assms(2) by (auto simp: execute_result [OF assms(1)] split: sum.splits if_splits)
  then have sel: "select_key (operations db) (lo_operation_id lo) = Some row"
    by (auto simp: existing_def split: option.splits if_splits)
  from row sandbox_inv_row(1) [OF assms(1) sel] have "row_decision row = Some ''approved''" by auto
  moreover have "select_key (notes_table db) (lo_operation_id lo) = None"
    using sandbox_inv_no_note [OF assms(1) sel] row(4) by simp
  ultimately show ?thesis
    using row by (intro that [of row]) (simp_all add: execute_result [OF assms(1)])
qed

lemma execute_again:
  assumes "sandbox_inv db" and "fst (execute lo no_checkpoint db) = Inr True"
  shows "execute lo no_checkpoint (snd (execute lo no_checkpoint db)) =
    (Inr False, snd (execute lo no_checkpoint db))"
proof -
  obtain row where row: "existing db lo = Inr row" "row_decision row = Some ''approved''"
    "snd (execute lo no_checkpoint db) =
       db\<lparr>notes_table := insert_row (lo_operation_id lo) (lo_payload lo) (notes_table db),
          operations := update_row (lo_operation_id lo) (\<lambda>r. r\<lparr>row_completed := 1\<rparr>) (operations db)\<rparr>"
    by (rule execute_fresh [OF assms])
  have "sandbox_inv (snd (execute lo no_checkpoint db))"
    using sandbox_exec_inv [OF assms(1), of "Execute lo"] by simp
  moreover have "existing (snd (execute lo no_checkpoint db)) lo = Inr (row\<lparr>row_completed := 1\<rparr>)"
    using row by (auto simp: existing_def split: option.splits if_splits)
  ultimately show ?thesis by (simp add: execute_result row(2))
qed

text \<open>
  C4: Recovery from a crash at any point of \<open>execute\<close>. Suppose the operation is ready to
  run. Whatever the checkpoint callback does at each stage, the database afterwards is either
  untouched (some stage up to \<open>before_commit\<close> did not return) or holds the effect and the
  completion flag together, never one without the other; running \<open>execute\<close> again then reports
  True in the first case and False in the second, and both end in the state of an undisturbed run.
\<close>

theorem execute_crash_recovery:
  assumes "sandbox_inv db" and "fst (execute lo no_checkpoint db) = Inr True"
  shows "let crashed = snd (execute lo checkpoint db);
             survived = (checkpoint ''before_effect'' = None \<and> checkpoint ''after_effect'' = None \<and>
                         checkpoint ''before_commit'' = None)
         in crashed = (if survived then snd (execute lo no_checkpoint db) else db) \<and>
            execute lo no_checkpoint crashed = (Inr (\<not> survived), snd (execute lo no_checkpoint db))"
proof -
  obtain row where row: "existing db lo = Inr row" "row_decision row = Some ''approved''" "row_completed row = 0"
    "select_key (notes_table db) (lo_operation_id lo) = None"
    "snd (execute lo no_checkpoint db) =
       db\<lparr>notes_table := insert_row (lo_operation_id lo) (lo_payload lo) (notes_table db),
          operations := update_row (lo_operation_id lo) (\<lambda>r. r\<lparr>row_completed := 1\<rparr>) (operations db)\<rparr>"
    by (rule execute_fresh [OF assms])
  define survived where "survived = (checkpoint ''before_effect'' = None \<and>
    checkpoint ''after_effect'' = None \<and> checkpoint ''before_commit'' = None)"
  have crashed: "snd (execute lo checkpoint db) = (if survived then snd (execute lo no_checkpoint db) else db)"
    unfolding row(5) using row(1-4)
    by (auto simp: execute_def execute_body_def transaction_def Let_def survived_def split: option.splits)
  have "execute lo no_checkpoint db = (Inr True, snd (execute lo no_checkpoint db))"
    using assms(2) by (simp add: prod_eq_iff)
  with execute_again [OF assms] crashed show ?thesis
    by (simp add: Let_def survived_def [symmetric])
qed

subsection \<open>Provenance of the notes\<close>

text \<open>The operations that must have happened, in this order, for a row to be as it is.\<close>

definition trail :: "string \<Rightarrow> operation_row \<Rightarrow> sandbox_op list" where
  "trail k row =
     (let lo = \<lparr>lo_operation_id = k, lo_tool = row_tool row, lo_payload = row_payload row\<rparr> in
      Request lo # (case row_decision row of None \<Rightarrow> [] | Some d \<Rightarrow> [Decide lo d]) @
      (if row_completed row = 0 then [] else [Execute lo]))"

lemma local_operation_eta [simp]:
  "\<lparr>lo_operation_id = lo_operation_id lo, lo_tool = lo_tool lo, lo_payload = lo_payload lo\<rparr> = lo"
  by (cases lo) simp

definition rows_have_trails :: "sandbox_op list \<Rightarrow> sandbox_db \<Rightarrow> bool" where
  "rows_have_trails hist db \<longleftrightarrow>
     (\<forall>k row. select_key (operations db) k = Some row \<longrightarrow> subseq (trail k row) hist)"

lemma rows_have_trails_step:
  assumes inv: "sandbox_inv db" and H: "rows_have_trails hist db"
  shows "rows_have_trails (hist @ [op]) (snd (sandbox_exec db op))"
proof -
  have old: "subseq (trail k row) (hist @ [op])" if "select_key (operations db) k = Some row" for k row
    using H that unfolding rows_have_trails_def by (metis subseq_rev_drop_many)
  show ?thesis
    using inv
  proof (cases rule: sandbox_exec_cases [of db op])
    case (requested lo)
    have "subseq (trail (lo_operation_id lo) (new_row lo)) (hist @ [op])"
      by (simp add: trail_def Let_def new_row_def requested(1) subseq_singleton_left)
    with old requested(2,3) show ?thesis by (simp add: rows_have_trails_def select_insert)
  next
    case (decided lo d row)
    have "subseq (trail (lo_operation_id lo) (row\<lparr>row_decision := Some d\<rparr>)) (hist @ [op])"
    proof (cases "row_decision row")
      case (Some d')
      with decided(6) have "row\<lparr>row_decision := Some d\<rparr> = row" by simp
      with old [OF decided(3)] show ?thesis by simp
    next
      case None
      with sandbox_inv_row(2,3) [OF inv decided(3)] have "row_completed row = 0" by auto
      then have "trail (lo_operation_id lo) row @ [op] =
          trail (lo_operation_id lo) (row\<lparr>row_decision := Some d\<rparr>)"
        using None decided(1,4,5) by (simp add: trail_def Let_def)
      moreover have "subseq (trail (lo_operation_id lo) row @ [op]) (hist @ [op])"
        using H decided(3) by (intro list_emb_append_mono) (simp_all add: rows_have_trails_def)
      ultimately show ?thesis by simp
    qed
    with old decided(3,7) show ?thesis by (auto simp: rows_have_trails_def)
  next
    case (executed lo row)
    have "subseq (trail (lo_operation_id lo) row) hist"
      using H executed(2) by (simp add: rows_have_trails_def)
    then have "subseq (trail (lo_operation_id lo) row @ [op]) (hist @ [op])"
      by (rule list_emb_append_mono) simp
    moreover have "trail (lo_operation_id lo) row @ [op] =
        trail (lo_operation_id lo) (row\<lparr>row_completed := 1\<rparr>)"
      using executed(1,3-6) by (simp add: trail_def Let_def)
    ultimately show ?thesis
      using old executed(2,8) by (auto simp: rows_have_trails_def)
  qed (use old in \<open>simp_all add: rows_have_trails_def del: sandbox_exec.simps\<close>)
qed

text \<open>
  C27: Provenance under crashes. Let any number of processes work on a fresh file, each free to die
  between taking the write lock and committing. In every state they can reach, a note that is
  stored was asked for: the log of committed operations holds a request, then an approval, then an
  execution of one operation with exactly the id, tool and payload noted, and the note is there once.
\<close>

theorem note_provenance:
  assumes "reachable sandbox_exec new_sandbox_file s"
    and "select_key (notes_table (committed s)) k = Some p"
  shows "\<exists>lo. lo_operation_id lo = k \<and> lo_payload lo = p \<and>
              subseq [Request lo, Decide lo ''approved'', Execute lo] (map snd (log s)) \<and>
              note_count (committed s) k = 1"
proof -
  let ?ops = "map snd (log s)"
  have db: "committed s = after sandbox_exec new_sandbox_file ?ops"
    using assms(1) by (rule reachable_serial)
  have inv: "sandbox_inv (committed s)"
    using assms(1) sandbox_inv_new by (rule sandbox.reachable_inv)
  with assms(2) obtain row where row: "select_key (operations (committed s)) k = Some row"
      "row_completed row = 1" "row_payload row = p"
    unfolding sandbox_inv_def by blast
  have "rows_have_trails ?ops (committed s)"
    unfolding db
    by (rule sandbox.after_history [of rows_have_trails, OF rows_have_trails_step sandbox_inv_new])
      (simp_all add: rows_have_trails_def new_sandbox_file_def)
  with row(1) have "subseq (trail k row) ?ops" by (simp add: rows_have_trails_def)
  moreover have "note_count (committed s) k = 1"
    using note_count_primary [of "committed s" k] inv assms(2) unfolding sandbox_inv_def by simp
  ultimately show ?thesis
    using row sandbox_inv_row(3) [OF inv row(1)]
    by (intro exI [of _ "\<lparr>lo_operation_id = k, lo_tool = row_tool row, lo_payload = row_payload row\<rparr>"])
      (simp add: trail_def Let_def)
qed

subsection \<open>Concrete runs\<close>

definition note_op :: LocalOperation where
  "note_op = \<lparr>lo_operation_id = ''op-1'', lo_tool = ''record_note'', lo_payload = ''hello''\<rparr>"

definition approved_db :: sandbox_db where
  "approved_db = after sandbox_exec new_sandbox_file [Open ''s.db'', Request note_op, Decide note_op ''approved'']"

lemmas sandbox_run_simps =
  open_sandbox_def request_def decide_def existing_def execute_def execute_body_def transaction_def
  wrap_def Let_def new_sandbox_file_def new_row_def select_key_def insert_row_def update_row_def

lemma note_op_result: "mk_LocalOperation (PStr ''op-1'') (PStr ''record_note'') (PStr ''hello'') = Inr note_op"
  by (simp add: mk_LocalOperation_def note_op_def blank_iff py_isspace_def)

lemma approved_db_eq:
  "approved_db = \<lparr>user_version = 1, operations = [(''op-1'', \<lparr>row_tool = ''record_note'',
     row_payload = ''hello'', row_decision = Some ''approved'', row_completed = 0\<rparr>)], notes_table = []\<rparr>"
  by (simp add: approved_db_def note_op_def sandbox_run_simps)

lemma approved_db_inv: "sandbox_inv approved_db"
  unfolding approved_db_def using sandbox_inv_new by (rule sandbox.after_inv)

lemma approved_db_ready: "fst (execute note_op no_checkpoint approved_db) = Inr True"
  by (simp add: approved_db_eq note_op_def sandbox_run_simps)

lemma approved_db_abs:
  "sandbox_abs approved_db ''op-1'' = Some ((''record_note'', ''hello''), Granted)"
  by (simp add: approved_db_eq sandbox_abs_def select_key_def status_of_def)

lemma sandbox_refines_automaton_witness:
  "outcome_class (fst (sandbox_exec approved_db (Execute note_op))) = Inr (Executed True) \<and>
   sandbox_abs (snd (sandbox_exec approved_db (Execute note_op))) ''op-1'' =
     Some ((''record_note'', ''hello''), Completed)"
proof -
  have "approval_call (Execute note_op)" by (simp add: approval_call_def)
  from sandbox_refines_automaton [OF approved_db_inv this] show ?thesis
    using approved_db_abs by (simp add: note_op_def del: sandbox_exec.simps)
qed

lemma binding_and_decision_persist_witness:
  "\<exists>t. sandbox_abs (after sandbox_exec approved_db [Decide note_op ''denied'', Execute note_op, Execute note_op]) ''op-1'' =
     Some ((''record_note'', ''hello''), t) \<and> Granted \<le> t"
  by (rule binding_and_decision_persist [OF approved_db_inv approved_db_abs])

lemma execute_crash_recovery_witness:
  "execute note_op no_checkpoint
     (snd (execute note_op ((\<lambda>stage. None)(''after_effect'' := Some (ProcessExit, ''os._exit''))) approved_db)) =
   (Inr True, snd (execute note_op no_checkpoint approved_db))"
  using execute_crash_recovery [OF approved_db_inv approved_db_ready,
      of "(\<lambda>stage. None)(''after_effect'' := Some (ProcessExit, ''os._exit''))"]
  unfolding Let_def by (elim conjE) simp

lemma note_provenance_witness:
  "\<exists>lo. lo_operation_id lo = ''op-1'' \<and> lo_payload lo = ''hello'' \<and>
     subseq [Request lo, Decide lo ''approved'', Execute lo]
       [Request note_op, Decide note_op ''approved'', Execute note_op]"
proof -
  let ?ops = "[Request note_op, Decide note_op ''approved'', Execute note_op]"
  define s :: "(sandbox_db, sandbox_op) system" where
    "s = \<lparr>committed = after sandbox_exec new_sandbox_file ?ops, lock = None, log = map (Pair 0) ?ops\<rparr>"
  have reach: "reachable sandbox_exec new_sandbox_file s" unfolding s_def by (rule serial_reachable)
  have "select_key (notes_table (committed s)) ''op-1'' = Some ''hello''"
    unfolding s_def by (simp add: note_op_def sandbox_run_simps)
  moreover have "map snd (log s) = ?ops" unfolding s_def by simp
  ultimately show ?thesis using note_provenance [OF reach] by metis
qed

end
