(* ===== verification/Policy.thy ===== *)
theory Policy
  imports Approvals Durable
begin

section \<open>The durable sandbox implements the approval reducer\<close>

text \<open>
  The in-memory reducer of \<open>approvals.py\<close> and the SQLite sandbox of \<open>durable.py\<close> enforce one
  approval policy. Events are translated to calls through the constructor of \<open>LocalOperation\<close>,
  the loop state is related to the database, and a step-by-step simulation shows that the sandbox
  accepts the reducer's streams that name its one tool, with the same effects.
\<close>

text \<open>
  An approval event as the call of the sandbox that it stands for. The caller first builds the
  operation, and the constructor can refuse it: then there is no call, and the \<open>ValueError\<close> is
  the outcome of the event.
\<close>

definition event_operation :: "ApprovalEvent \<Rightarrow> LocalOperation result" where
  "event_operation e = mk_LocalOperation (PStr (ap_operation_id e)) (PStr (ap_tool e)) (PStr (ap_payload e))"

definition approval_op :: "ApprovalAction \<Rightarrow> LocalOperation \<Rightarrow> sandbox_op" where
  "approval_op a lo =
     (case a of
        REQUESTED \<Rightarrow> Request lo
      | APPROVED \<Rightarrow> Decide lo ''approved''
      | DENIED \<Rightarrow> Decide lo ''denied''
      | EXECUTE \<Rightarrow> Execute lo)"

definition sandbox_event :: "sandbox_db \<Rightarrow> ApprovalEvent \<Rightarrow> sandbox_result result \<times> sandbox_db" where
  "sandbox_event db e =
     (case event_operation e of
        Inl x \<Rightarrow> (Inl x, db)
      | Inr lo \<Rightarrow> sandbox_exec db (approval_op (ap_action e) lo))"

definition decision_text :: "ApprovalAction \<Rightarrow> string" where
  "decision_text a = (if a = APPROVED then ''approved'' else ''denied'')"

text \<open>The loop state of the reducer and the database agree.\<close>

definition same_approvals :: "ApprovalLoop \<Rightarrow> sandbox_db \<Rightarrow> bool" where
  "same_approvals st db \<longleftrightarrow>
     (\<forall>k. map_option (\<lambda>row. (row_tool row, row_payload row)) (select_key (operations db) k) = requests st k) \<and>
     (\<forall>k row. select_key (operations db) k = Some row \<longrightarrow>
        row_decision row = map_option decision_text (map_of (decisions st) k)) \<and>
     (\<forall>k d. map_of (decisions st) k = Some d \<longrightarrow> (d = APPROVED \<or> d = DENIED) \<and> requests st k \<noteq> None) \<and>
     map fst (notes_table db) = loop_executed st"

text \<open>The events that the sandbox has an operation for: its one tool, and an id that is not blank.\<close>

definition sandboxed :: "ApprovalEvent \<Rightarrow> bool" where
  "sandboxed e \<longleftrightarrow> ap_tool e = ''record_note'' \<and> \<not> blank (ap_operation_id e)"

lemma event_operation_returns: "returns (event_operation e) \<longleftrightarrow> sandboxed e"
  by (auto simp: event_operation_def mk_LocalOperation_def sandboxed_def)

lemma event_operation_fields:
  assumes "event_operation e = Inr lo"
  shows "lo_operation_id lo = ap_operation_id e" "lo_tool lo = ap_tool e" "lo_payload lo = ap_payload e"
  using assms by (auto simp: event_operation_def mk_LocalOperation_def split: if_splits)

lemma decision_text_simps [simp]: "decision_text APPROVED = ''approved''" "decision_text DENIED = ''denied''"
  by (simp_all add: decision_text_def)

lemma same_approvals_row:
  assumes "same_approvals st db"
  shows "requests st k = None \<Longrightarrow> select_key (operations db) k = None \<and> map_of (decisions st) k = None"
    and "requests st k = Some i \<Longrightarrow> \<exists>row. select_key (operations db) k = Some row \<and> i = (row_tool row, row_payload row) \<and>
      row_decision row = map_option decision_text (map_of (decisions st) k)"
    and "map_of (decisions st) k = Some d \<Longrightarrow> d = APPROVED \<or> d = DENIED"
    and "map fst (notes_table db) = loop_executed st"
proof -
  have *: "map_option (\<lambda>row. (row_tool row, row_payload row)) (select_key (operations db) k) = requests st k"
    "\<And>row. select_key (operations db) k = Some row \<Longrightarrow> row_decision row = map_option decision_text (map_of (decisions st) k)"
    "\<And>d. map_of (decisions st) k = Some d \<Longrightarrow> (d = APPROVED \<or> d = DENIED) \<and> requests st k \<noteq> None"
    "map fst (notes_table db) = loop_executed st"
    using assms unfolding same_approvals_def by blast+
  show "requests st k = None \<Longrightarrow> select_key (operations db) k = None \<and> map_of (decisions st) k = None"
    using *(1) *(3) by (cases "map_of (decisions st) k") auto
  show "requests st k = Some i \<Longrightarrow> \<exists>row. select_key (operations db) k = Some row \<and> i = (row_tool row, row_payload row) \<and>
      row_decision row = map_option decision_text (map_of (decisions st) k)"
    using *(1,2) by (auto simp: map_option_case split: option.splits)
  show "map_of (decisions st) k = Some d \<Longrightarrow> d = APPROVED \<or> d = DENIED" using *(3) by blast
  show "map fst (notes_table db) = loop_executed st" by (rule *(4))
qed

lemma simulate_request:
  assumes lo: "event_operation e = Inr lo" and R: "same_approvals st db" and a: "ap_action e = REQUESTED"
  shows "case approval_step st e of
      Inl x \<Rightarrow> \<not> returns (fst (sandbox_exec db (approval_op (ap_action e) lo)))
    | Inr st' \<Rightarrow> returns (fst (sandbox_exec db (approval_op (ap_action e) lo))) \<and>
        same_approvals st' (snd (sandbox_exec db (approval_op (ap_action e) lo)))"
proof (cases "requests st (ap_operation_id e)")
  case None
  with same_approvals_row(1) [OF R None] R a show ?thesis
    by (auto simp: approval_step_def approval_op_def request_result same_approvals_def select_insert new_row_def
        approval_identity_def event_operation_fields [OF lo])
next
  case (Some i)
  from same_approvals_row(2) [OF R Some] Some R a show ?thesis
    by (auto simp: approval_step_def approval_op_def request_result approval_identity_def
        event_operation_fields [OF lo] split: if_splits)
qed

lemma simulate_unbound:
  assumes lo: "event_operation e = Inr lo" and R: "same_approvals st db" and inv: "sandbox_inv db" and a: "ap_action e \<noteq> REQUESTED"
    and "requests st (ap_operation_id e) \<noteq> Some (approval_identity e)"
  shows "\<not> returns (approval_step st e) \<and> \<not> returns (fst (sandbox_exec db (approval_op (ap_action e) lo)))"
proof -
  note [simp] = event_operation_fields [OF lo]
  have e: "existing db lo = Inl x \<Longrightarrow> \<not> returns (fst (sandbox_exec db (approval_op (ap_action e) lo)))" for x
    using a by (cases "ap_action e") (simp_all add: approval_op_def decide_def execute_result [OF inv])
  show ?thesis
  proof (cases "requests st (ap_operation_id e)")
    case None
    with same_approvals_row(1) [OF R None] a e show ?thesis
      by (simp add: approval_step_def existing_def Let_def)
  next
    case (Some i)
    then obtain row where row: "select_key (operations db) (ap_operation_id e) = Some row" "i = (row_tool row, row_payload row)"
      using same_approvals_row(2) [OF R Some] by blast
    with Some assms(5) have ne: "i \<noteq> approval_identity e" by simp
    then have "\<not> (row_tool row = ap_tool e \<and> row_payload row = ap_payload e)"
      by (simp add: row(2) approval_identity_def)
    then have "existing db lo =
        raise IdempotencyConflict ''operation_id is already bound to a different exact effect''"
      by (simp add: existing_def row(1))
    moreover have "\<not> returns (approval_step st e)" using Some ne a by (simp add: approval_step_def Let_def)
    ultimately show ?thesis using e by blast
  qed
qed

lemma same_approvals_decide:
  assumes R: "same_approvals st db" and row: "select_key (operations db) k = Some row"
    and d: "d = APPROVED \<or> d = DENIED"
  shows "same_approvals (st\<lparr>decisions := AList.update k d (decisions st)\<rparr>)
    (db\<lparr>operations := update_row k (\<lambda>r. r\<lparr>row_decision := Some (decision_text d)\<rparr>) (operations db)\<rparr>)"
proof -
  have "requests st k = map_option (\<lambda>row. (row_tool row, row_payload row)) (select_key (operations db) k)"
    using R unfolding same_approvals_def by simp
  then have "requests st k = Some (row_tool row, row_payload row)" using row by simp
  then show ?thesis
    using R row d unfolding same_approvals_def
    by (auto simp: update_conv fun_upd_def option.map_comp comp_def split: if_splits)
qed

lemma simulate_decide:
  assumes lo: "event_operation e = Inr lo" and R: "same_approvals st db" and a: "ap_action e = APPROVED \<or> ap_action e = DENIED"
    and i: "requests st (ap_operation_id e) = Some (approval_identity e)"
  shows "case approval_step st e of
      Inl x \<Rightarrow> \<not> returns (fst (sandbox_exec db (approval_op (ap_action e) lo)))
    | Inr st' \<Rightarrow> returns (fst (sandbox_exec db (approval_op (ap_action e) lo))) \<and>
        same_approvals st' (snd (sandbox_exec db (approval_op (ap_action e) lo)))"
proof -
  note [simp] = event_operation_fields [OF lo]
  obtain row where row: "select_key (operations db) (ap_operation_id e) = Some row"
    "approval_identity e = (row_tool row, row_payload row)"
    "row_decision row = map_option decision_text (map_of (decisions st) (ap_operation_id e))"
    using same_approvals_row(2) [OF R i] by blast
  have ex: "existing db lo = Inr row"
    using row by (simp add: existing_def approval_identity_def)
  have op: "approval_op (ap_action e) lo = Decide lo (decision_text (ap_action e))"
    using a by (auto simp: approval_op_def)
  show ?thesis
  proof (cases "map_of (decisions st) (ap_operation_id e) \<in> {None, Some (ap_action e)}")
    case True
    then have st: "approval_step st e = Inr (st\<lparr>decisions := AList.update (ap_operation_id e) (ap_action e) (decisions st)\<rparr>)"
      using a i by (auto simp: approval_step_def Let_def split: option.split)
    have "decide lo (decision_text (ap_action e)) db = (Inr (), db\<lparr>operations :=
        update_row (ap_operation_id e) (\<lambda>r. r\<lparr>row_decision := Some (decision_text (ap_action e))\<rparr>) (operations db)\<rparr>)"
    proof -
      have "row_decision row = None \<or> row_decision row = Some (decision_text (ap_action e))"
        using True row(3) by auto
      moreover have "decision_text (ap_action e) = ''approved'' \<or> decision_text (ap_action e) = ''denied''"
        by (simp add: decision_text_def)
      ultimately show ?thesis by (auto simp add: decide_def transaction_def ex simp del: decision_text_simps)
    qed
    with st op same_approvals_decide [OF R row(1) a] show ?thesis by (simp add: wrap_def)
  next
    case False
    then obtain d where d: "map_of (decisions st) (ap_operation_id e) = Some d" "d \<noteq> ap_action e" by auto
    with same_approvals_row(3) [OF R d(1)] a have "decision_text d \<noteq> decision_text (ap_action e)" by auto
    with row(3) d a op ex have "\<not> returns (fst (sandbox_exec db (approval_op (ap_action e) lo)))"
      by (auto simp: decide_def decision_text_def split: if_splits)
    moreover have "\<not> returns (approval_step st e)"
      using d a i by (auto simp: approval_step_def Let_def)
    ultimately show ?thesis by (cases "approval_step st e") simp_all
  qed
qed

lemma simulate_execute:
  assumes lo: "event_operation e = Inr lo" and R: "same_approvals st db" and inv: "sandbox_inv db" and a: "ap_action e = EXECUTE"
    and i: "requests st (ap_operation_id e) = Some (approval_identity e)"
  shows "case approval_step st e of
      Inl x \<Rightarrow> \<not> returns (fst (sandbox_exec db (approval_op (ap_action e) lo)))
    | Inr st' \<Rightarrow> returns (fst (sandbox_exec db (approval_op (ap_action e) lo))) \<and>
        same_approvals st' (snd (sandbox_exec db (approval_op (ap_action e) lo)))"
proof -
  note [simp] = event_operation_fields [OF lo]
  let ?k = "ap_operation_id e"
  obtain row where row: "select_key (operations db) ?k = Some row"
    "approval_identity e = (row_tool row, row_payload row)"
    "row_decision row = map_option decision_text (map_of (decisions st) ?k)"
    using same_approvals_row(2) [OF R i] by blast
  have ex: "existing db lo = Inr row"
    using row by (simp add: existing_def approval_identity_def)
  have op: "approval_op (ap_action e) lo = Execute lo" using a by (simp add: approval_op_def)
  have finished: "row_completed row \<noteq> 0 \<longleftrightarrow> ?k \<in> set (loop_executed st)"
  proof -
    have "?k \<in> set (loop_executed st) \<longleftrightarrow> select_key (notes_table db) ?k \<noteq> None"
      using same_approvals_row(4) [OF R] by (metis list.set_map select_None_iff)
    also have "\<dots> \<longleftrightarrow> row_completed row \<noteq> 0"
      using inv row(1) sandbox_inv_row(2) [OF inv row(1)] sandbox_inv_no_note [OF inv row(1)]
      by (auto simp: sandbox_inv_def)
    finally show ?thesis by blast
  qed
  show ?thesis
  proof (cases "map_of (decisions st) ?k = Some APPROVED")
    case False
    then have "map_of (decisions st) ?k \<in> {None, Some DENIED}"
      using same_approvals_row(3) [OF R, of ?k] by (cases "map_of (decisions st) ?k") auto
    with row(3) op ex a i show ?thesis
      by (auto simp: approval_step_def execute_result [OF inv] Let_def)
  next
    case True
    with row(3) have dec: "row_decision row = Some ''approved''" by simp
    show ?thesis
    proof (cases "?k \<in> set (loop_executed st)")
      case x: True
      with True a i have "approval_step st e = Inr st" by (simp add: approval_step_def Let_def)
      moreover have "execute lo no_checkpoint db = (Inr False, db)"
        using dec x finished by (simp add: execute_result [OF inv] ex)
      ultimately show ?thesis using R op by (simp add: wrap_def)
    next
      case x: False
      let ?db = "db\<lparr>notes_table := insert_row ?k (ap_payload e) (notes_table db),
          operations := update_row ?k (\<lambda>r. r\<lparr>row_completed := 1\<rparr>) (operations db)\<rparr>"
      from x True a i have "approval_step st e = Inr (st\<lparr>loop_executed := loop_executed st @ [?k]\<rparr>)"
        by (simp add: approval_step_def Let_def)
      moreover have "execute lo no_checkpoint db = (Inr True, ?db)"
        using dec x finished by (simp add: execute_result [OF inv] ex)
      moreover have "same_approvals (st\<lparr>loop_executed := loop_executed st @ [?k]\<rparr>) ?db"
        using R unfolding same_approvals_def
        by (auto simp: insert_row_def option.map_comp comp_def split: if_splits)
      ultimately show ?thesis using op by (simp add: wrap_def)
    qed
  qed
qed

lemma simulate_event:
  assumes R: "same_approvals st db" and inv: "sandbox_inv db" and e: "sandboxed e"
  shows "case approval_step st e of
      Inl x \<Rightarrow> \<not> returns (fst (sandbox_event db e))
    | Inr st' \<Rightarrow> returns (fst (sandbox_event db e)) \<and> same_approvals st' (snd (sandbox_event db e))"
proof -
  from e obtain lo where lo: "event_operation e = Inr lo"
    by (auto simp: event_operation_returns [symmetric] returns_iff)
  then have call: "sandbox_event db e = sandbox_exec db (approval_op (ap_action e) lo)"
    by (simp add: sandbox_event_def)
  consider "ap_action e = REQUESTED"
    | "ap_action e = APPROVED \<or> ap_action e = DENIED" "requests st (ap_operation_id e) = Some (approval_identity e)"
    | "ap_action e = EXECUTE" "requests st (ap_operation_id e) = Some (approval_identity e)"
    | "ap_action e \<noteq> REQUESTED" "requests st (ap_operation_id e) \<noteq> Some (approval_identity e)"
    by (cases "ap_action e") auto
  then show ?thesis
  proof cases
    case 1
    with lo R show ?thesis unfolding call by (rule simulate_request)
  next
    case 2
    with lo R show ?thesis unfolding call by (rule simulate_decide)
  next
    case 3
    with lo R inv show ?thesis unfolding call by (rule simulate_execute)
  next
    case 4
    from simulate_unbound [OF lo R inv this] show ?thesis
      unfolding call by (cases "approval_step st e") simp_all
  qed
qed

lemma sandbox_event_inv: "sandbox_inv db \<Longrightarrow> sandbox_inv (snd (sandbox_event db e))"
  by (simp add: sandbox_event_def sandbox_exec_inv split: sum.split del: sandbox_exec.simps)

lemma refused_event: "\<not> sandboxed e \<Longrightarrow> \<not> returns (fst (sandbox_event db e))"
  by (auto simp: event_operation_returns [symmetric] sandbox_event_def split: sum.split)

lemma simulate_run:
  "same_approvals st db \<Longrightarrow> sandbox_inv db \<Longrightarrow>
     ((\<forall>r \<in> set (outcomes sandbox_event db es). returns r) \<longleftrightarrow>
        list_all sandboxed es \<and> returns (run_steps approval_step st es)) \<and>
     (\<forall>st'. list_all sandboxed es \<longrightarrow> run_steps approval_step st es = Inr st' \<longrightarrow>
        same_approvals st' (after sandbox_event db es))"
proof (induction es arbitrary: st db)
  case Nil
  then show ?case by simp
next
  case (Cons e es)
  let ?db = "snd (sandbox_event db e)"
  have inv: "sandbox_inv ?db" using Cons.prems(2) by (rule sandbox_event_inv)
  show ?case
  proof (cases "sandboxed e")
    case False
    with refused_event [of e db] show ?thesis by simp
  next
    case True
    note step = simulate_event [OF Cons.prems True]
    show ?thesis
    proof (cases "approval_step st e")
      case (Inl x)
      with step show ?thesis by simp
    next
      case (Inr st')
      with step have "returns (fst (sandbox_event db e))" "same_approvals st' ?db" by simp_all
      with Cons.IH [OF this(2) inv] Inr True show ?thesis by simp
    qed
  qed
qed

text \<open>
  C1: The durable sandbox implements the approval reducer on the operations it supports. For an
  ordered stream of approval events, build each event's \<open>LocalOperation\<close> and make the sandbox
  call, on a fresh file. Every call returns exactly when the reducer accepts the stream and each
  event names the one inert tool and an operation id that is not blank (the reducer itself
  accepts any tool). Then the notes were stored in the order the reducer lists as executed,
  and the stored decisions are the ones it lists as approved and denied.
\<close>

theorem sandbox_implements_approval_reducer:
  assumes "sorted_wrt (<) (map ap_sequence events)"
    and "final = after sandbox_event new_sandbox_file events"
  shows "((\<forall>r \<in> set (outcomes sandbox_event new_sandbox_file events). returns r) \<longleftrightarrow>
      returns (replay_approval events) \<and>
      (\<forall>e \<in> set events. ap_tool e = ''record_note'' \<and> \<not> blank (ap_operation_id e))) \<and>
    (\<forall>res. (\<forall>r \<in> set (outcomes sandbox_event new_sandbox_file events). returns r) \<longrightarrow>
       replay_approval events = Inr res \<longrightarrow>
       map fst (notes_table final) = executed res \<and>
       set (approved res) = {k. \<exists>row. select_key (operations final) k = Some row \<and> row_decision row = Some ''approved''} \<and>
       set (denied res) = {k. \<exists>row. select_key (operations final) k = Some row \<and> row_decision row = Some ''denied''})"
proof -
  have start: "same_approvals empty_approvals new_sandbox_file"
    by (simp add: same_approvals_def empty_approvals_def new_sandbox_file_def)
  have ord: "\<not> not_strictly_increasing (map ap_sequence events)"
    using assms(1) by (simp add: not_strictly_increasing_iff)
  have all: "(\<forall>e \<in> set events. ap_tool e = ''record_note'' \<and> \<not> blank (ap_operation_id e)) \<longleftrightarrow> list_all sandboxed events"
    by (simp add: list_all_iff sandboxed_def)
  note sim = simulate_run [OF start sandbox_inv_new, of events, folded assms(2)]
  show ?thesis
  proof (cases "run_steps approval_step empty_approvals events")
    case (Inl x)
    then have "replay_approval events = Inl x" using ord by (simp add: replay_approval_def)
    with Inl sim show ?thesis by simp
  next
    case (Inr st)
    then have res: "replay_approval events = Inr \<lparr>executed = loop_executed st,
        approved = decided_as APPROVED (decisions st), denied = decided_as DENIED (decisions st)\<rparr>"
      using ord by (simp add: replay_approval_def)
    have "distinct (map fst (decisions st))"
      using approval.run_inv [OF approval_inv_empty Inr] by (simp add: approval_inv_def)
    note sets = set_decided_as [OF this]
    have row: "map_of (decisions st) k = Some d \<longleftrightarrow>
        (\<exists>row. select_key (operations final) k = Some row \<and> row_decision row = Some (decision_text d))"
      if "d = APPROVED \<or> d = DENIED" and R: "same_approvals st final" for k d
      using same_approvals_row(1,2,3) [OF R, of k] that(1)
      by (cases "requests st k"; cases "map_of (decisions st) k") (auto simp: decision_text_def split: if_splits)
    show ?thesis
    proof (cases "list_all sandboxed events")
      case False
      with sim have "\<not> (\<forall>r \<in> set (outcomes sandbox_event new_sandbox_file events). returns r)" by blast
      with False show ?thesis unfolding all by blast
    next
      case True
      with sim Inr have R: "same_approvals st final" by simp
      from row [OF _ R, of APPROVED] row [OF _ R, of DENIED] show ?thesis
        using same_approvals_row(4) [OF R] sim True Inr by (simp add: all res sets)
    qed
  qed
qed

definition note_event :: "int \<Rightarrow> ApprovalAction \<Rightarrow> ApprovalEvent" where
  "note_event n a =
     \<lparr>ap_sequence = n, ap_action = a, ap_operation_id = ''op-1'', ap_tool = ''record_note'', ap_payload = ''hello''\<rparr>"

lemma sandbox_implements_approval_reducer_witness:
  "map fst (notes_table (after sandbox_event new_sandbox_file
     [note_event 1 REQUESTED, note_event 2 APPROVED, note_event 3 EXECUTE])) = [''op-1'']"
  using sandbox_implements_approval_reducer [OF _ refl, of
      "[note_event 1 REQUESTED, note_event 2 APPROVED, note_event 3 EXECUTE]"]
  by (simp add: note_event_def replay_approval_def not_strictly_increasing_iff approval_step_def empty_approvals_def
      approval_identity_def decided_as_def Let_def blank_iff py_isspace_def)

end
