(* ===== verification/Reconciliation.thy ===== *)
theory Reconciliation
  imports Store Digest
begin

section \<open>Reconciling a lost acknowledgement (\<open>reconciliation.py\<close>)\<close>

text \<open>
  Whether a write whose acknowledgement was lost may be retried: the pure decision
  \<open>reconcile_lost_ack\<close>, the pure conditional write \<open>apply_conditional_retry\<close>, and the
  SQLite provider that runs it as a transaction. Proved: the decision table, that an authority to
  retry binds one effect, the provider's invariants, its refinement of the pure write, single use
  of every revision, and freedom from time-of-check/time-of-use races.
\<close>

subsection \<open>Operations, evidence and decisions\<close>

text \<open>
  The dataclass does not check that \<open>readback\<close> is a member of the enum;
  \<open>NotAMember\<close> stands for any other value, with its text.
\<close>

datatype ProviderReadbackState = PRESENT | ABSENT | AMBIGUOUS | NotAMember string

record ExternalOperation =
  xo_provider :: string
  xo_operation_id :: string
  xo_tool :: string
  xo_payload :: string

definition mk_ExternalOperation ::
  "pyval \<Rightarrow> pyval \<Rightarrow> pyval \<Rightarrow> pyval \<Rightarrow> ExternalOperation result" where
  "mk_ExternalOperation provider operation_id tool payload =
     (if not_nonempty_str provider then raise ValueError ''provider must be a nonempty string''
      else if not_nonempty_str operation_id then raise ValueError ''operation_id must be a nonempty string''
      else if not_nonempty_str tool then raise ValueError ''tool must be a nonempty string''
      else if \<not> is_str payload
      then raise TypeError ''payload must be a string; reconciliation matching is exact''
      else Inr \<lparr>xo_provider = str_of provider, xo_operation_id = str_of operation_id,
                xo_tool = str_of tool, xo_payload = str_of payload\<rparr>)"

definition canonical_effect :: "ExternalOperation \<Rightarrow> string" where
  "canonical_effect op = json_strings [xo_provider op, xo_operation_id op, xo_tool op, xo_payload op]"

definition effect_sha256 :: "ExternalOperation \<Rightarrow> string" where
  "effect_sha256 op = sha256_text (canonical_effect op)"

record ProviderEvidence =
  pe_provider :: string
  pe_operation_id :: string
  pe_readback :: ProviderReadbackState
  pe_observed_tool :: "string option"
  pe_observed_payload :: "string option"
  pe_readback_revision :: "int option"
  pe_idempotency_key :: "string option"
  pe_idempotency_effect_sha256 :: "string option"

definition mk_ProviderEvidence :: "ProviderEvidence \<Rightarrow> ProviderEvidence result" where
  "mk_ProviderEvidence ev =
     (case pe_readback_revision ev of
        Some n \<Rightarrow> if n < 0 then raise ValueError ''readback_revision must be nonnegative'' else Inr ev
      | None \<Rightarrow> Inr ev)"

record ReconciliationDecision =
  rd_action :: string
  rd_should_retry :: bool
  rd_reason :: string
  rd_retry_precondition_revision :: "int option"
  rd_retry_effect_sha256 :: "string option"

record VersionedProviderState =
  vp_revision :: int
  vp_effects :: "ExternalOperation list"

definition mk_VersionedProviderState ::
  "int \<Rightarrow> ExternalOperation list \<Rightarrow> VersionedProviderState result" where
  "mk_VersionedProviderState revision effects =
     (if revision < 0 then raise ValueError ''revision must be nonnegative''
      else Inr \<lparr>vp_revision = revision, vp_effects = effects\<rparr>)"

lemma canonical_effect_inj: "canonical_effect x = canonical_effect y \<longleftrightarrow> x = y"
  by (cases x; cases y) (auto simp: canonical_effect_def dest: json_strings_inj)

subsection \<open>The pure decision and the pure conditional write\<close>

definition accept_decision :: ReconciliationDecision where
  "accept_decision =
     \<lparr>rd_action = ''accept_remote_commit'', rd_should_retry = False,
      rd_reason = ''provider readback confirms the exact effect already committed'',
      rd_retry_precondition_revision = None, rd_retry_effect_sha256 = None\<rparr>"

definition retry_decision :: "int \<Rightarrow> ExternalOperation \<Rightarrow> ReconciliationDecision" where
  "retry_decision revision op =
     \<lparr>rd_action = ''retry_exact_operation'', rd_should_retry = True,
      rd_reason = ''provider confirms absence and exact idempotency evidence permits a retry only '' @
        ''while the observed provider revision is still current'',
      rd_retry_precondition_revision = Some revision, rd_retry_effect_sha256 = Some (effect_sha256 op)\<rparr>"

definition reconcile_lost_ack ::
  "ExternalOperation \<Rightarrow> ProviderEvidence \<Rightarrow> ReconciliationDecision result" where
  "reconcile_lost_ack op ev =
     (if pe_provider ev \<noteq> xo_provider op \<or> pe_operation_id ev \<noteq> xo_operation_id op
      then raise ReconciliationConflict
        ''provider evidence is not bound to the exact provider and operation identity''
      else if pe_readback ev = AMBIGUOUS
      then raise RemoteStateAmbiguous
        ''provider readback is ambiguous; retry would risk duplicating a committed effect''
      else if pe_readback ev = PRESENT
      then (if (pe_observed_tool ev, pe_observed_payload ev) \<noteq> (Some (xo_tool op), Some (xo_payload op))
            then raise ReconciliationConflict
              ''provider readback found a conflicting effect for this operation identity''
            else Inr accept_decision)
      else if pe_readback ev \<noteq> ABSENT
      then raise ValueError (''unsupported provider readback state: '' @
             (case pe_readback ev of NotAMember s \<Rightarrow> s | _ \<Rightarrow> ''''))
      else if pe_observed_tool ev \<noteq> None \<or> pe_observed_payload ev \<noteq> None
      then raise ReconciliationConflict
        ''confirmed-absent evidence cannot simultaneously report an observed effect''
      else if \<not> (pe_idempotency_key ev = Some (xo_operation_id op) \<and>
                 pe_idempotency_effect_sha256 ev = Some (effect_sha256 op))
      then raise RetrySafetyUnknown
        ''provider absence is known, but exact idempotent replay safety is not established''
      else case pe_readback_revision ev of
        None \<Rightarrow> raise RetrySafetyUnknown
          ''provider absence is known, but no revision is available to bind a conditional retry''
      | Some revision \<Rightarrow> Inr (retry_decision revision op))"

definition apply_conditional_retry ::
  "ExternalOperation \<Rightarrow> ReconciliationDecision \<Rightarrow> VersionedProviderState \<Rightarrow> VersionedProviderState result" where
  "apply_conditional_retry op d st =
     (if \<not> rd_should_retry d \<or> rd_action d \<noteq> ''retry_exact_operation''
      then raise RetrySafetyUnknown ''reconciliation decision does not authorize a retry''
      else case rd_retry_precondition_revision d of
        None \<Rightarrow> raise RetrySafetyUnknown ''retry decision is missing a provider revision precondition''
      | Some expected \<Rightarrow>
          if rd_retry_effect_sha256 d \<noteq> Some (effect_sha256 op)
          then raise ReconciliationConflict ''retry decision is not bound to the exact operation effect''
          else if vp_revision st \<noteq> expected
          then raise StaleProviderReadback
            ''provider revision changed after the absence readback; retry must be reconciled again''
          else if list_ex (\<lambda>x. xo_provider x = xo_provider op \<and> xo_operation_id x = xo_operation_id op) (vp_effects st)
          then raise ReconciliationConflict
            ''provider state contradicts the absence readback for this operation identity''
          else mk_VersionedProviderState (vp_revision st + 1) (vp_effects st @ [op]))"

subsection \<open>The SQLite provider\<close>

text \<open>
  Tables: \<open>provider_revisions\<close> keyed by provider, \<open>provider_effects\<close> keyed by provider
  and operation id with the tool and payload as columns. \<open>CREATE TABLE IF NOT EXISTS\<close> leaves
  an existing database as it is, so opening one changes no rows.
\<close>

record provider_db =
  provider_revisions :: "(string, int) table"
  provider_effects :: "(string \<times> string, string \<times> string) table"

definition new_provider_file :: provider_db where
  "new_provider_file = \<lparr>provider_revisions = [], provider_effects = []\<rparr>"

definition open_provider :: "string \<Rightarrow> (provider_db, unit) txn" where
  "open_provider database db =
     (if database = '':memory:''
      then (raise ValueError ''a file-backed database is required for competing-worker tests'', db)
      else (Inr (), db))"

text \<open>\<open>SELECT operation_id, tool, payload ... WHERE provider=? ORDER BY operation_id\<close>.\<close>

definition provider_rows :: "provider_db \<Rightarrow> string \<Rightarrow> (string \<times> string \<times> string) list" where
  "provider_rows db provider =
     sort_key fst (map (\<lambda>((p, oid), (tool, payload)). (oid, tool, payload))
       (filter (\<lambda>((p, oid), row). p = provider) (provider_effects db)))"

definition snapshot_in_transaction :: "string \<Rightarrow> (provider_db, VersionedProviderState) txn" where
  "snapshot_in_transaction provider db =
     (let (revision, db1) =
        (case select_key (provider_revisions db) provider of
           None \<Rightarrow> (0, db\<lparr>provider_revisions := insert_row provider 0 (provider_revisions db)\<rparr>)
         | Some revision \<Rightarrow> (revision, db))
      in (bind_result
            (map_result (\<lambda>(oid, tool, payload).
               mk_ExternalOperation (PStr provider) (PStr oid) (PStr tool) (PStr payload)) (provider_rows db1 provider))
            (mk_VersionedProviderState revision), db1))"

definition snapshot :: "pyval \<Rightarrow> (provider_db, VersionedProviderState) txn" where
  "snapshot provider db =
     (if not_nonempty_str provider then (raise ValueError ''provider must be a nonempty string'', db)
      else transaction (snapshot_in_transaction (str_of provider)) db)"

text \<open>\<open>read\<close> commits before it compares the row, so its conflict leaves the committed rows.\<close>

definition read_operation :: "ExternalOperation \<Rightarrow> (provider_db, ProviderEvidence) txn" where
  "read_operation op db =
     (case transaction (\<lambda>db.
        case snapshot_in_transaction (xo_provider op) db of
          (Inl e, db1) \<Rightarrow> (Inl e, db1)
        | (Inr state, db1) \<Rightarrow>
            (Inr (state, select_key (provider_effects db1) (xo_provider op, xo_operation_id op)), db1)) db of
        (Inl e, db1) \<Rightarrow> (Inl e, db1)
      | (Inr (state, None), db1) \<Rightarrow>
          (mk_ProviderEvidence
             \<lparr>pe_provider = xo_provider op, pe_operation_id = xo_operation_id op, pe_readback = ABSENT,
              pe_observed_tool = None, pe_observed_payload = None,
              pe_readback_revision = Some (vp_revision state),
              pe_idempotency_key = Some (xo_operation_id op),
              pe_idempotency_effect_sha256 = Some (effect_sha256 op)\<rparr>, db1)
      | (Inr (state, Some row), db1) \<Rightarrow>
          if row \<noteq> (xo_tool op, xo_payload op)
          then (raise ReconciliationConflict
                 ''provider stores a conflicting effect for this operation identity'', db1)
          else (mk_ProviderEvidence
             \<lparr>pe_provider = xo_provider op, pe_operation_id = xo_operation_id op, pe_readback = PRESENT,
              pe_observed_tool = Some (fst row), pe_observed_payload = Some (snd row),
              pe_readback_revision = Some (vp_revision state),
              pe_idempotency_key = None, pe_idempotency_effect_sha256 = None\<rparr>, db1))"

definition conditional_apply ::
  "ExternalOperation \<Rightarrow> ReconciliationDecision \<Rightarrow> (provider_db, VersionedProviderState) txn" where
  "conditional_apply op d = transaction (\<lambda>db.
     case snapshot_in_transaction (xo_provider op) db of
       (Inl e, db1) \<Rightarrow> (Inl e, db1)
     | (Inr current, db1) \<Rightarrow>
         (case apply_conditional_retry op d current of
            Inl e \<Rightarrow> (Inl e, db1)
          | Inr updated \<Rightarrow>
              if select_key (provider_effects db1) (xo_provider op, xo_operation_id op) \<noteq> None
              then (raise IntegrityError ''UNIQUE constraint failed: provider_effects.provider, provider_effects.operation_id'', db1)
              else
                let db2 = db1\<lparr>provider_effects := insert_row (xo_provider op, xo_operation_id op)
                            (xo_tool op, xo_payload op) (provider_effects db1)\<rparr> in
                if \<not> fits_int64 (vp_revision updated) then (overflow, db2)
                else (Inr updated, db2\<lparr>provider_revisions :=
                        update_row (xo_provider op) (\<lambda>_. vp_revision updated) (provider_revisions db2)\<rparr>)))"

subsection \<open>The provider as a store\<close>

datatype provider_op =
    OpenProvider string | Snapshot pyval | Read ExternalOperation
  | ConditionalApply ExternalOperation ReconciliationDecision

datatype provider_result = Opened | StateOf VersionedProviderState | EvidenceOf ProviderEvidence | Applied VersionedProviderState

fun provider_exec :: "provider_db \<Rightarrow> provider_op \<Rightarrow> provider_result result \<times> provider_db" where
  "provider_exec db (OpenProvider path) = wrap (\<lambda>_. Opened) (open_provider path db)"
| "provider_exec db (Snapshot p) = wrap StateOf (snapshot p db)"
| "provider_exec db (Read op) = wrap EvidenceOf (read_operation op db)"
| "provider_exec db (ConditionalApply op d) = wrap Applied (conditional_apply op d db)"

definition revision_of :: "provider_db \<Rightarrow> string \<Rightarrow> int" where
  "revision_of db p = (case select_key (provider_revisions db) p of None \<Rightarrow> 0 | Some r \<Rightarrow> r)"

definition provider_inv :: "provider_db \<Rightarrow> bool" where
  "provider_inv db \<longleftrightarrow>
     primary_key (provider_revisions db) \<and> primary_key (provider_effects db) \<and>
     (\<forall>p. revision_of db p = int (length (provider_rows db p)))"

lemma provider_inv_new: "provider_inv new_provider_file"
  by (simp add: provider_inv_def new_provider_file_def revision_of_def provider_rows_def)

lemma revision_nonneg: "provider_inv db \<Longrightarrow> 0 \<le> revision_of db p"
  by (simp add: provider_inv_def)

definition with_revision_row :: "string \<Rightarrow> provider_db \<Rightarrow> provider_db" where
  "with_revision_row p db =
     (if select_key (provider_revisions db) p = None
      then db\<lparr>provider_revisions := insert_row p 0 (provider_revisions db)\<rparr> else db)"

lemma provider_rows_revisions [simp]:
  "provider_rows (db\<lparr>provider_revisions := t\<rparr>) p = provider_rows db p"
  by (simp add: provider_rows_def)

lemma with_revision_row_simps [simp]:
  "provider_effects (with_revision_row p db) = provider_effects db"
  "provider_rows (with_revision_row p db) q = provider_rows db q"
  "revision_of (with_revision_row p db) q = revision_of db q"
  "select_key (provider_revisions (with_revision_row p db)) p = Some (revision_of db p)"
  by (auto simp: with_revision_row_def revision_of_def provider_rows_def select_insert split: option.splits)

lemma with_revision_row_inv: "provider_inv db \<Longrightarrow> provider_inv (with_revision_row p db)"
  by (auto simp: provider_inv_def) (simp add: with_revision_row_def primary_key_insert)

definition rows_as_operations :: "provider_db \<Rightarrow> string \<Rightarrow> ExternalOperation list result" where
  "rows_as_operations db p = map_result (\<lambda>(oid, tool, payload).
     mk_ExternalOperation (PStr p) (PStr oid) (PStr tool) (PStr payload)) (provider_rows db p)"

lemma snapshot_in_transaction_eq:
  "snapshot_in_transaction p db =
     (bind_result (rows_as_operations db p) (mk_VersionedProviderState (revision_of db p)), with_revision_row p db)"
  by (auto simp: snapshot_in_transaction_def rows_as_operations_def revision_of_def with_revision_row_def
      split: option.splits)

text \<open>What a decision must say for \<open>apply_conditional_retry\<close> to accept it at revision \<open>r\<close>.\<close>

definition authorizes :: "ReconciliationDecision \<Rightarrow> ExternalOperation \<Rightarrow> int \<Rightarrow> bool" where
  "authorizes d op r \<longleftrightarrow>
     rd_should_retry d \<and> rd_action d = ''retry_exact_operation'' \<and>
     rd_retry_precondition_revision d = Some r \<and> rd_retry_effect_sha256 d = Some (effect_sha256 op)"

lemma apply_conditional_retry_Inr_iff:
  "apply_conditional_retry op d st = Inr st' \<longleftrightarrow>
     authorizes d op (vp_revision st) \<and>
     (\<forall>x \<in> set (vp_effects st). xo_provider x = xo_provider op \<longrightarrow> xo_operation_id x \<noteq> xo_operation_id op) \<and>
     0 \<le> vp_revision st + 1 \<and>
     st' = \<lparr>vp_revision = vp_revision st + 1, vp_effects = vp_effects st @ [op]\<rparr>"
  by (auto simp: apply_conditional_retry_def authorizes_def mk_VersionedProviderState_def list_ex_iff
      split: option.splits)

lemma rows_as_operations_Inr:
  "rows_as_operations db p = Inr xs \<Longrightarrow>
     xs = map (\<lambda>(oid, tool, payload). \<lparr>xo_provider = p, xo_operation_id = oid, xo_tool = tool, xo_payload = payload\<rparr>)
       (provider_rows db p)"
proof -
  have "map_result (\<lambda>(oid, tool, payload). mk_ExternalOperation (PStr p) (PStr oid) (PStr tool) (PStr payload)) rows = Inr xs \<Longrightarrow>
    xs = map (\<lambda>(oid, tool, payload). \<lparr>xo_provider = p, xo_operation_id = oid, xo_tool = tool, xo_payload = payload\<rparr>) rows"
    for rows xs
    by (induction rows arbitrary: xs)
      (auto simp: bind_result_Inr_iff mk_ExternalOperation_def split: if_splits)
  then show "rows_as_operations db p = Inr xs \<Longrightarrow> ?thesis"
    unfolding rows_as_operations_def .
qed

lemma set_provider_rows:
  "(oid, row) \<in> set (provider_rows db p) \<longleftrightarrow> ((p, oid), row) \<in> set (provider_effects db)"
  by (force simp: provider_rows_def)

lemma provider_rows_insert:
  "mset (provider_rows (db\<lparr>provider_effects := insert_row (p, oid) row (provider_effects db)\<rparr>) q) =
     mset (provider_rows db q) + (if q = p then {#(oid, row)#} else {#})"
  by (cases row) (simp add: provider_rows_def insert_row_def)



text \<open>The database after a successful conditional write.\<close>

definition applied_db :: "ExternalOperation \<Rightarrow> provider_db \<Rightarrow> provider_db" where
  "applied_db op db =
     (let db2 = (with_revision_row (xo_provider op) db)\<lparr>provider_effects :=
            insert_row (xo_provider op, xo_operation_id op) (xo_tool op, xo_payload op) (provider_effects db)\<rparr>
      in db2\<lparr>provider_revisions :=
           update_row (xo_provider op) (\<lambda>_. revision_of db (xo_provider op) + 1) (provider_revisions db2)\<rparr>)"

lemma applied_db_simps [simp]:
  "provider_effects (applied_db op db) =
     insert_row (xo_provider op, xo_operation_id op) (xo_tool op, xo_payload op) (provider_effects db)"
  "revision_of (applied_db op db) p = revision_of db p + (if p = xo_provider op then 1 else 0)"
  by (auto simp: applied_db_def revision_of_def with_revision_row_def select_insert Let_def split: option.splits)

lemma provider_rows_cong: "provider_effects db = provider_effects db' \<Longrightarrow> provider_rows db p = provider_rows db' p"
  by (simp add: provider_rows_def)

lemma mset_applied_rows:
  "mset (provider_rows (applied_db op db) p) =
     mset (provider_rows db p) +
     (if p = xo_provider op then {#(xo_operation_id op, xo_tool op, xo_payload op)#} else {#})"
proof -
  have "provider_rows (applied_db op db) p = provider_rows (db\<lparr>provider_effects :=
      insert_row (xo_provider op, xo_operation_id op) (xo_tool op, xo_payload op) (provider_effects db)\<rparr>) p"
    by (rule provider_rows_cong) simp
  then show ?thesis by (simp add: provider_rows_insert)
qed

lemma applied_rows_other: "p \<noteq> xo_provider op \<Longrightarrow> provider_rows (applied_db op db) p = provider_rows db p"
  by (simp add: provider_rows_def insert_row_def)

lemma applied_db_inv:
  assumes "provider_inv db" "select_key (provider_effects db) (xo_provider op, xo_operation_id op) = None"
  shows "provider_inv (applied_db op db)"
proof -
  have "length (provider_rows (applied_db op db) p) =
      length (provider_rows db p) + (if p = xo_provider op then 1 else 0)" for p
    using arg_cong [OF mset_applied_rows [of op db p], of size] by simp
  moreover have "primary_key (provider_revisions (applied_db op db))"
    using with_revision_row_inv [OF assms(1), of "xo_provider op"]
    by (simp add: applied_db_def provider_inv_def Let_def)
  ultimately show ?thesis
    using assms by (simp add: provider_inv_def primary_key_insert)
qed

lemma conditional_apply_Inr:
  assumes "fst (conditional_apply op d db) = Inr st"
  obtains xs where "rows_as_operations db (xo_provider op) = Inr xs"
    "authorizes d op (revision_of db (xo_provider op))"
    "select_key (provider_effects db) (xo_provider op, xo_operation_id op) = None"
    "fits_int64 (revision_of db (xo_provider op) + 1)"
    "st = \<lparr>vp_revision = revision_of db (xo_provider op) + 1, vp_effects = xs @ [op]\<rparr>"
    "snd (conditional_apply op d db) = applied_db op db"
proof -
  let ?p = "xo_provider op"
  obtain xs where xs: "rows_as_operations db ?p = Inr xs"
    using assms by (cases "rows_as_operations db ?p")
      (auto simp: conditional_apply_def snapshot_in_transaction_eq)
  have r: "0 \<le> revision_of db ?p"
    using assms by (rule contrapos_pp)
      (simp add: conditional_apply_def snapshot_in_transaction_eq xs mk_VersionedProviderState_def)
  define current where "current = \<lparr>vp_revision = revision_of db ?p, vp_effects = xs\<rparr>"
  have snap: "snapshot_in_transaction ?p db = (Inr current, with_revision_row ?p db)"
    using r by (simp add: snapshot_in_transaction_eq xs mk_VersionedProviderState_def current_def)
  obtain upd where upd: "apply_conditional_retry op d current = Inr upd"
    using assms by (cases "apply_conditional_retry op d current") (auto simp: conditional_apply_def snap)
  then have upd': "authorizes d op (revision_of db ?p)" "upd = \<lparr>vp_revision = revision_of db ?p + 1, vp_effects = xs @ [op]\<rparr>"
    by (simp_all add: apply_conditional_retry_Inr_iff current_def)
  have ok: "select_key (provider_effects db) (?p, xo_operation_id op) = None" "fits_int64 (revision_of db ?p + 1)" "st = upd"
    using assms by (simp_all add: conditional_apply_def snap upd upd'(2) Let_def overflow_def split: if_splits del: not_None_eq)
  then have "snd (conditional_apply op d db) = applied_db op db"
    by (simp add: conditional_apply_def snd_transaction snap upd upd'(2) Let_def applied_db_def)
  with xs ok upd' show ?thesis by (intro that) simp_all
qed

lemma provider_exec_cases:
  assumes "provider_inv db"
  obtains
    (same) p where "snd (provider_exec db op) = with_revision_row p db \<or> snd (provider_exec db op) = db"
      "\<And>st. fst (provider_exec db op) \<noteq> Inr (Applied st)"
  | (applied) x d xs where "op = ConditionalApply x d" "rows_as_operations db (xo_provider x) = Inr xs"
      "authorizes d x (revision_of db (xo_provider x))"
      "select_key (provider_effects db) (xo_provider x, xo_operation_id x) = None"
      "fst (provider_exec db op) =
         Inr (Applied \<lparr>vp_revision = revision_of db (xo_provider x) + 1, vp_effects = xs @ [x]\<rparr>)"
      "snd (provider_exec db op) = applied_db x db"
proof (cases op)
  case (OpenProvider path)
  then show ?thesis by (intro same) (auto simp: open_provider_def wrap_def)
next
  case (Snapshot p)
  then show ?thesis
    by (intro same [of "str_of p"])
      (auto simp: snapshot_def fst_wrap_Inr snapshot_in_transaction_eq snd_transaction)
next
  case (Read x)
  then show ?thesis
    by (intro same [of "xo_provider x"])
      (auto simp: read_operation_def wrap_def snapshot_in_transaction_eq transaction_def
        split: prod.splits sum.splits option.splits)
next
  case (ConditionalApply x d)
  show ?thesis
  proof (cases "fst (conditional_apply x d db)")
    case (Inl e)
    then have "snd (conditional_apply x d db) = db"
      unfolding conditional_apply_def by (rule transaction_rollback)
    with Inl ConditionalApply show ?thesis by (intro same) (simp_all add: fst_wrap)
  next
    case (Inr st)
    show ?thesis
      using Inr ConditionalApply
      by (rule_tac conditional_apply_Inr [OF Inr]) (auto intro!: applied simp: fst_wrap)
  qed
qed

lemma provider_exec_inv:
  assumes "provider_inv db"
  shows "provider_inv (snd (provider_exec db op))"
  using assms
proof (cases rule: provider_exec_cases [of db op])
  case (same p)
  then show ?thesis using assms with_revision_row_inv by auto
next
  case applied
  then show ?thesis using assms applied_db_inv by simp
qed

lemma revision_row_of_effect:
  assumes "provider_inv db" "select_key (provider_effects db) (p, oid) = Some row"
  shows "with_revision_row p db = db"
proof -
  have "(oid, row) \<in> set (provider_rows db p)"
    using assms(2) by (simp add: set_provider_rows select_SomeD)
  then have "0 < length (provider_rows db p)" by (cases "provider_rows db p") auto
  then have "revision_of db p \<noteq> 0" using assms(1) by (simp add: provider_inv_def)
  then show ?thesis by (auto simp: revision_of_def with_revision_row_def split: option.splits)
qed

lemma provider_exec_fail:
  assumes "provider_inv db" "\<not> returns (fst (provider_exec db op))"
  shows "snd (provider_exec db op) = db"
proof (cases op)
  case (OpenProvider path)
  then show ?thesis by (simp add: open_provider_def)
next
  case (Snapshot p)
  with assms(2) show ?thesis by (auto simp: snapshot_def snd_transaction)
next
  case (ConditionalApply x d)
  with assms(2) show ?thesis by (auto simp: conditional_apply_def snd_transaction)
next
  case (Read x)
  show ?thesis
  proof (cases "fst (snapshot_in_transaction (xo_provider x) db)")
    case (Inl e)
    then show ?thesis
      by (simp add: Read read_operation_def transaction_def snapshot_in_transaction_eq)
  next
    case (Inr st)
    then have "0 \<le> vp_revision st"
      by (auto simp: snapshot_in_transaction_eq bind_result_Inr_iff mk_VersionedProviderState_def split: if_splits)
    with Inr assms revision_row_of_effect [OF assms(1)] show ?thesis
      by (auto simp: Read read_operation_def transaction_def snapshot_in_transaction_eq mk_ProviderEvidence_def
          split: option.splits prod.splits if_splits)
  qed
qed

text \<open>Which revision a successful conditional write consumed.\<close>

definition revision_guard :: "provider_op \<Rightarrow> provider_result \<Rightarrow> (string \<times> int) option" where
  "revision_guard op x =
     (case (op, x) of
        (ConditionalApply xo d, Applied st) \<Rightarrow>
          map_option (\<lambda>r. (xo_provider xo, r)) (rd_retry_precondition_revision d)
      | _ \<Rightarrow> None)"

interpretation provider: store provider_exec provider_inv
  by unfold_locales (simp_all add: provider_exec_inv provider_exec_fail)

lemma provider_revision_step:
  assumes "provider_inv db"
  shows "revision_of db p \<le> revision_of (snd (provider_exec db op)) p"
    and "revision_of (snd (provider_exec db op)) p = revision_of db p \<Longrightarrow>
      provider_rows (snd (provider_exec db op)) p = provider_rows db p"
  using assms
  by (cases rule: provider_exec_cases [of db op];
      auto simp del: provider_exec.simps simp: applied_rows_other split: if_splits)+

lemma revision_guard_consumes:
  assumes "provider_inv db" "fst (provider_exec db op) = Inr x" "revision_guard op x = Some (k, v)"
  shows "revision_of db k = v \<and> v < revision_of (snd (provider_exec db op)) k"
  using assms(1)
proof (cases rule: provider_exec_cases [of db op])
  case same
  then show ?thesis using assms
    by (auto simp: revision_guard_def split: provider_op.splits provider_result.splits)
next
  case applied
  then show ?thesis using assms(2,3)
    by (auto simp: revision_guard_def authorizes_def simp del: provider_exec.simps)
qed

interpretation provider: conditional_store provider_exec provider_inv revision_of provider_rows revision_guard
  by unfold_locales (use provider_revision_step revision_guard_consumes in blast)+

subsection \<open>The decision\<close>

text \<open>
  The decision table of \<open>reconcile_lost_ack\<close>. It returns in two situations only. Evidence
  bound to the exact provider and operation that reports exactly the operation's effect is
  accepted without a retry. Evidence of confirmed absence, with no observed effect, with the operation
  id as idempotency key, the operation's digest and a revision authorizes a retry at that revision.
  Everything else raises; in particular ambiguous evidence always raises \<open>RemoteStateAmbiguous\<close> when it is bound.
\<close>

theorem reconciliation_decision_table:
  "(reconcile_lost_ack op ev = Inr d \<longleftrightarrow>
      pe_provider ev = xo_provider op \<and> pe_operation_id ev = xo_operation_id op \<and>
      (pe_readback ev = PRESENT \<and> pe_observed_tool ev = Some (xo_tool op) \<and>
         pe_observed_payload ev = Some (xo_payload op) \<and> d = accept_decision \<or>
       pe_readback ev = ABSENT \<and> pe_observed_tool ev = None \<and> pe_observed_payload ev = None \<and>
         pe_idempotency_key ev = Some (xo_operation_id op) \<and>
         pe_idempotency_effect_sha256 ev = Some (effect_sha256 op) \<and>
         (\<exists>r. pe_readback_revision ev = Some r \<and> d = retry_decision r op))) \<and>
   (raises RemoteStateAmbiguous (reconcile_lost_ack op ev) \<longleftrightarrow>
      pe_provider ev = xo_provider op \<and> pe_operation_id ev = xo_operation_id op \<and> pe_readback ev = AMBIGUOUS) \<and>
   (raises RetrySafetyUnknown (reconcile_lost_ack op ev) \<longleftrightarrow>
      pe_provider ev = xo_provider op \<and> pe_operation_id ev = xo_operation_id op \<and> pe_readback ev = ABSENT \<and>
      pe_observed_tool ev = None \<and> pe_observed_payload ev = None \<and>
      \<not> (pe_idempotency_key ev = Some (xo_operation_id op) \<and>
         pe_idempotency_effect_sha256 ev = Some (effect_sha256 op) \<and> pe_readback_revision ev \<noteq> None))"
  by (cases "pe_readback ev"; cases "pe_readback_revision ev")
    (auto simp: reconcile_lost_ack_def)

definition sha256_collision :: "string \<Rightarrow> string \<Rightarrow> bool" where
  "sha256_collision s t \<longleftrightarrow> s \<noteq> t \<and> sha256_text s = sha256_text t"

lemma same_digest:
  "effect_sha256 x = effect_sha256 y \<Longrightarrow> x = y \<or> sha256_collision (canonical_effect x) (canonical_effect y)"
  by (auto simp: effect_sha256_def sha256_collision_def canonical_effect_inj)

lemma retry_decision_authorizes:
  "authorizes (retry_decision r op) op' r' \<longleftrightarrow> r' = r \<and> effect_sha256 op' = effect_sha256 op"
  by (auto simp: authorizes_def retry_decision_def)

lemma accept_never_authorizes [simp]: "\<not> authorizes accept_decision op r"
  by (simp add: authorizes_def accept_decision_def)

lemma reconciled_authority:
  assumes "reconcile_lost_ack op ev = Inr d" "authorizes d op' r"
  shows "pe_readback ev = ABSENT" "pe_readback_revision ev = Some r" "effect_sha256 op' = effect_sha256 op"
    "pe_observed_tool ev = None" "pe_observed_payload ev = None"
    "pe_provider ev = xo_provider op" "pe_operation_id ev = xo_operation_id op"
    "pe_idempotency_key ev = Some (xo_operation_id op)"
    "pe_idempotency_effect_sha256 ev = Some (effect_sha256 op)" "d = retry_decision r op"
  using assms
  by (cases "pe_readback ev"; cases "pe_readback_revision ev";
      auto simp: reconcile_lost_ack_def retry_decision_authorizes split: if_splits)+

text \<open>
  C31: A retry that goes through was fully justified. If a decision obtained by reconciling one
  operation lets a conditional write of any operation through, then the evidence confirmed the
  absence of the effect at exactly the current revision under the exact idempotency key, the
  written operation is the reconciled one (or SHA-256 has a collision on their canonical texts), no
  effect of that identity was stored, and the new state is the old one with that effect, one revision on.
\<close>

theorem retry_is_justified:
  assumes "reconcile_lost_ack op ev = Inr d" and "apply_conditional_retry op' d st = Inr st'"
  shows "pe_readback ev = ABSENT \<and> pe_readback_revision ev = Some (vp_revision st) \<and>
         pe_provider ev = xo_provider op \<and> pe_idempotency_key ev = Some (xo_operation_id op) \<and>
         (op' = op \<or> sha256_collision (canonical_effect op') (canonical_effect op)) \<and>
         (xo_provider op', xo_operation_id op') \<notin> (\<lambda>x. (xo_provider x, xo_operation_id x)) ` set (vp_effects st) \<and>
         st' = \<lparr>vp_revision = vp_revision st + 1, vp_effects = vp_effects st @ [op']\<rparr>"
proof -
  from assms(2) have auth: "authorizes d op' (vp_revision st)" and rest:
    "\<forall>x \<in> set (vp_effects st). xo_provider x = xo_provider op' \<longrightarrow> xo_operation_id x \<noteq> xo_operation_id op'"
    "st' = \<lparr>vp_revision = vp_revision st + 1, vp_effects = vp_effects st @ [op']\<rparr>"
    by (simp_all add: apply_conditional_retry_Inr_iff)
  note ev = reconciled_authority [OF assms(1) auth]
  show ?thesis using rest ev same_digest [OF ev(3)] by auto
qed

subsection \<open>Competing workers\<close>

definition retry_of :: "string \<Rightarrow> string \<Rightarrow> provider_op \<Rightarrow> provider_result \<Rightarrow> bool" where
  "retry_of p oid op x =
     (case (op, x) of (ConditionalApply xo d, Applied st) \<Rightarrow> xo_provider xo = p \<and> xo_operation_id xo = oid | _ \<Rightarrow> False)"

lemma one_retry_per_operation:
  assumes "provider_inv db"
  shows "successes (retry_of p oid) ops (outcomes provider_exec db ops) \<le> 1"
proof (rule provider.at_most_one_success [where D = "\<lambda>db. select_key (provider_effects db) (p, oid) \<noteq> None"])
  fix db op
  assume "provider_inv db" "select_key (provider_effects db) (p, oid) \<noteq> None"
  then show "select_key (provider_effects (snd (provider_exec db op))) (p, oid) \<noteq> None"
    by (cases rule: provider_exec_cases [of db op])
      (auto simp del: provider_exec.simps simp: select_insert)
next
  fix db op x
  assume "provider_inv db" "select_key (provider_effects db) (p, oid) \<noteq> None" "fst (provider_exec db op) = Inr x"
  then show "\<not> retry_of p oid op x"
    by (cases rule: provider_exec_cases [of db op])
      (auto simp del: provider_exec.simps simp: retry_of_def split: provider_op.splits provider_result.splits)
next
  fix db op x
  assume "provider_inv db" "fst (provider_exec db op) = Inr x" "retry_of p oid op x"
  then show "select_key (provider_effects (snd (provider_exec db op))) (p, oid) \<noteq> None"
    by (cases rule: provider_exec_cases [of db op])
      (auto simp del: provider_exec.simps simp: retry_of_def select_insert split: provider_op.splits provider_result.splits)
qed (rule assms)

text \<open>
  C28: Competing retries. In every schedule on a provider that satisfies its invariant, whatever
  operations any number of workers issue, at most one conditional write bound to a given revision
  succeeds, at most one conditional write of a given operation identity succeeds, and the
  revision ends as the number of stored effects.
\<close>

theorem competing_retries_one_wins:
  assumes "provider_inv db"
  shows "successes (\<lambda>op x. revision_guard op x = Some (p, r)) ops (outcomes provider_exec db ops) \<le> 1 \<and>
         successes (retry_of p oid) ops (outcomes provider_exec db ops) \<le> 1 \<and>
         revision_of (after provider_exec db ops) p = int (length (provider_rows (after provider_exec db ops) p))"
  using provider.one_success_per_version [OF assms] one_retry_per_operation [OF assms]
    provider.after_inv [OF assms] by (simp add: provider_inv_def)

subsection \<open>No race between the readback and the write\<close>

lemma read_operation_Inr:
  assumes "fst (read_operation op db) = Inr ev"
  shows "snd (read_operation op db) = with_revision_row (xo_provider op) db"
    "pe_provider ev = xo_provider op" "pe_operation_id ev = xo_operation_id op"
    "pe_readback_revision ev = Some (revision_of db (xo_provider op))"
    "returns (rows_as_operations db (xo_provider op))"
    "case select_key (provider_effects db) (xo_provider op, xo_operation_id op) of
       None \<Rightarrow> pe_readback ev = ABSENT \<and> pe_observed_tool ev = None \<and> pe_observed_payload ev = None \<and>
         pe_idempotency_key ev = Some (xo_operation_id op) \<and>
         pe_idempotency_effect_sha256 ev = Some (effect_sha256 op)
     | Some row \<Rightarrow> row = (xo_tool op, xo_payload op) \<and> pe_readback ev = PRESENT \<and>
         pe_observed_tool ev = Some (xo_tool op) \<and> pe_observed_payload ev = Some (xo_payload op)"
  using assms
  by (cases "rows_as_operations db (xo_provider op)";
      cases "select_key (provider_effects db) (xo_provider op, xo_operation_id op)";
      auto simp: read_operation_def transaction_def snapshot_in_transaction_eq mk_ProviderEvidence_def
        mk_VersionedProviderState_def split: if_splits)+

text \<open>
  C8: No race between readback and retry. A worker reads the provider, reconciles, and meanwhile
  any other operations run. If its conditional write then succeeds, no effect was added to that
  provider between its readback and its write, and the write adds exactly its own effect.
\<close>

theorem conditional_retry_has_no_race:
  assumes "provider_inv db"
    and "fst (read_operation op db) = Inr ev"
    and "reconcile_lost_ack op ev = Inr d"
    and "now = after provider_exec (snd (read_operation op db)) ops"
    and "fst (conditional_apply op d now) = Inr st"
  shows "provider_rows now (xo_provider op) = provider_rows db (xo_provider op) \<and>
         select_key (provider_effects now) (xo_provider op, xo_operation_id op) = None \<and>
         mset (provider_rows (snd (conditional_apply op d now)) (xo_provider op)) =
           add_mset (xo_operation_id op, xo_tool op, xo_payload op) (mset (provider_rows db (xo_provider op)))"
proof -
  let ?p = "xo_provider op" and ?db = "snd (read_operation op db)"
  note read = read_operation_Inr [OF assms(2)]
  obtain xs where upd: "authorizes d op (revision_of now ?p)"
      "select_key (provider_effects now) (?p, xo_operation_id op) = None"
      "snd (conditional_apply op d now) = applied_db op now"
    by (rule conditional_apply_Inr [OF assms(5)])
  have "revision_of now ?p = revision_of ?db ?p"
    using reconciled_authority(2) [OF assms(3) upd(1)] read(1,4) by simp
  moreover have "provider_inv ?db"
    using assms(1) read(1) with_revision_row_inv by simp
  ultimately have "provider_rows now ?p = provider_rows ?db ?p"
    using provider.view_unchanged assms(4) by blast
  then have same: "provider_rows now ?p = provider_rows db ?p" using read(1) by simp
  with upd show ?thesis by (simp add: mset_applied_rows)
qed

subsection \<open>Refinement of the pure conditional write\<close>

definition constructed :: "ExternalOperation \<Rightarrow> bool" where
  "constructed op \<longleftrightarrow>
     mk_ExternalOperation (PStr (xo_provider op)) (PStr (xo_operation_id op)) (PStr (xo_tool op))
       (PStr (xo_payload op)) = Inr op"

lemma constructed_iff:
  "constructed op \<longleftrightarrow> \<not> blank (xo_provider op) \<and> \<not> blank (xo_operation_id op) \<and> \<not> blank (xo_tool op)"
  by (cases op) (auto simp: constructed_def mk_ExternalOperation_def)

lemma rows_as_operations_returns:
  "returns (rows_as_operations db p) \<longleftrightarrow>
     (\<forall>(oid, tool, payload) \<in> set (provider_rows db p). \<not> blank p \<and> \<not> blank oid \<and> \<not> blank tool)"
proof -
  have "returns (map_result (\<lambda>(oid, tool, payload). mk_ExternalOperation (PStr p) (PStr oid) (PStr tool) (PStr payload)) rows) \<longleftrightarrow>
    (\<forall>(oid, tool, payload) \<in> set rows. \<not> blank p \<and> \<not> blank oid \<and> \<not> blank tool)" for rows
    by (induction rows)
      (auto simp: returns_iff bind_result_Inr_iff mk_ExternalOperation_def split: if_splits)
  then show ?thesis by (simp add: rows_as_operations_def)
qed

lemma snapshot_Inr:
  assumes "provider_inv db" "\<not> blank p" "rows_as_operations db p = Inr xs"
  shows "snapshot (PStr p) db =
    (Inr \<lparr>vp_revision = revision_of db p, vp_effects = xs\<rparr>, with_revision_row p db)"
  using assms revision_nonneg [OF assms(1), of p]
  by (simp add: snapshot_def transaction_def snapshot_in_transaction_eq mk_VersionedProviderState_def)

lemma snapshot_rows:
  assumes "provider_inv db" "fst (snapshot (PStr p) db) = Inr st"
  shows "rows_as_operations db p = Inr (vp_effects st)" "vp_revision st = revision_of db p" "\<not> blank p"
    "st = \<lparr>vp_revision = revision_of db p, vp_effects = vp_effects st\<rparr>"
  using assms
  by (auto simp: snapshot_def snapshot_in_transaction_eq bind_result_Inr_iff mk_VersionedProviderState_def
      split: if_splits)

lemma applied_snapshot:
  assumes "provider_inv db" "constructed op" "rows_as_operations db (xo_provider op) = Inr xs"
    "select_key (provider_effects db) (xo_provider op, xo_operation_id op) = None"
  obtains ys where "rows_as_operations (applied_db op db) (xo_provider op) = Inr ys" "mset ys = add_mset op (mset xs)"
proof -
  let ?p = "xo_provider op"
  let ?f = "\<lambda>(oid, tool, payload). \<lparr>xo_provider = ?p, xo_operation_id = oid, xo_tool = tool, xo_payload = payload\<rparr>"
  have m: "mset (provider_rows (applied_db op db) ?p) =
      add_mset (xo_operation_id op, xo_tool op, xo_payload op) (mset (provider_rows db ?p))"
    by (simp add: mset_applied_rows)
  then have "set (provider_rows (applied_db op db) ?p) =
      insert (xo_operation_id op, xo_tool op, xo_payload op) (set (provider_rows db ?p))"
    by (metis set_mset_add_mset_insert set_mset_mset)
  moreover have "returns (rows_as_operations db ?p)" by (simp add: assms(3))
  ultimately have "returns (rows_as_operations (applied_db op db) ?p)"
    using assms(2) by (simp add: rows_as_operations_returns constructed_iff)
  then obtain ys where ys: "rows_as_operations (applied_db op db) ?p = Inr ys"
    by (auto simp: returns_iff)
  from rows_as_operations_Inr [OF ys] rows_as_operations_Inr [OF assms(3)] m
  have "mset ys = add_mset op (mset xs)" by (simp add: mset_map)
  with ys show ?thesis by (rule that)
qed

lemma snapshot_identity_iff:
  assumes "rows_as_operations db p = Inr xs" "primary_key (provider_effects db)"
  shows "select_key (provider_effects db) (p, oid) = Some (tool, payload) \<longleftrightarrow>
    \<lparr>xo_provider = p, xo_operation_id = oid, xo_tool = tool, xo_payload = payload\<rparr> \<in> set xs"
proof -
  have "select_key (provider_effects db) (p, oid) = Some (tool, payload) \<longleftrightarrow>
      (oid, tool, payload) \<in> set (provider_rows db p)"
    using assms(2) by (simp add: select_Some_iff set_provider_rows)
  then show ?thesis using rows_as_operations_Inr [OF assms(1)] by force
qed

lemma conditional_apply_eq:
  assumes inv: "provider_inv db" and rows: "rows_as_operations db (xo_provider op) = Inr xs"
    and st: "st = \<lparr>vp_revision = revision_of db (xo_provider op), vp_effects = xs\<rparr>"
    and fits: "fits_int64 (vp_revision st + 1)"
  shows "conditional_apply op d db =
    (apply_conditional_retry op d st, if returns (apply_conditional_retry op d st) then applied_db op db else db)"
proof -
  let ?p = "xo_provider op"
  have snap: "snapshot_in_transaction ?p db = (Inr st, with_revision_row ?p db)"
    using rows revision_nonneg [OF inv, of ?p] st
    by (simp add: snapshot_in_transaction_eq mk_VersionedProviderState_def)
  show ?thesis
  proof (cases "apply_conditional_retry op d st")
    case (Inl e)
    then show ?thesis by (simp add: conditional_apply_def transaction_def snap)
  next
    case (Inr st')
    then have st': "st' = \<lparr>vp_revision = vp_revision st + 1, vp_effects = xs @ [op]\<rparr>"
        and none: "\<forall>x \<in> set xs. xo_provider x = ?p \<longrightarrow> xo_operation_id x \<noteq> xo_operation_id op"
      by (simp_all add: apply_conditional_retry_Inr_iff st)
    have "select_key (provider_effects db) (?p, xo_operation_id op) = None"
      using none snapshot_identity_iff [OF rows, of "xo_operation_id op"] inv
      by (cases "select_key (provider_effects db) (?p, xo_operation_id op)") (fastforce simp: provider_inv_def)+
    with Inr st' fits show ?thesis
      by (simp add: conditional_apply_def transaction_def snap applied_db_def Let_def st)
  qed
qed

text \<open>
  C16: The SQLite provider refines the pure conditional write. Where a snapshot of a provider returns
  a state, \<open>conditional_apply\<close> returns or raises exactly what \<open>apply_conditional_retry\<close> does
  on that state; on success the next snapshot holds the revision and the effects of the pure
  result (up to the order the \<open>SELECT\<close> imposes), and on failure the database is as before.
\<close>

theorem provider_refines_conditional_write:
  assumes "provider_inv db" and "constructed op"
    and "fst (snapshot (PStr (xo_provider op)) db) = Inr st" and "fits_int64 (vp_revision st + 1)"
  shows "fst (conditional_apply op d db) = apply_conditional_retry op d st \<and>
    (case apply_conditional_retry op d st of
       Inl e \<Rightarrow> snd (conditional_apply op d db) = db
     | Inr st' \<Rightarrow>
         \<exists>st''. fst (snapshot (PStr (xo_provider op)) (snd (conditional_apply op d db))) = Inr st'' \<and>
           vp_revision st'' = vp_revision st' \<and> mset (vp_effects st'') = mset (vp_effects st'))"
proof -
  let ?p = "xo_provider op"
  note st = snapshot_rows [OF assms(1,3)]
  note eq = conditional_apply_eq [OF assms(1) st(1,4) assms(4), of d]
  show ?thesis
  proof (cases "apply_conditional_retry op d st")
    case (Inl e)
    with eq show ?thesis by simp
  next
    case (Inr st')
    have final: "snd (conditional_apply op d db) = applied_db op db" using Inr eq by simp
    have "fst (conditional_apply op d db) = Inr st'" using Inr eq by simp
    then have none: "select_key (provider_effects db) (?p, xo_operation_id op) = None"
      by (rule conditional_apply_Inr)
    obtain ys where ys: "rows_as_operations (applied_db op db) ?p = Inr ys" "mset ys = add_mset op (mset (vp_effects st))"
      by (rule applied_snapshot [OF assms(1,2) st(1) none])
    have "fst (snapshot (PStr ?p) (applied_db op db)) = Inr \<lparr>vp_revision = revision_of db ?p + 1, vp_effects = ys\<rparr>"
      using snapshot_Inr [OF applied_db_inv [OF assms(1) none] st(3) ys(1)] by simp
    moreover have "vp_revision st' = revision_of db ?p + 1" "mset (vp_effects st') = add_mset op (mset (vp_effects st))"
      using Inr st(2) by (simp_all add: apply_conditional_retry_Inr_iff)
    ultimately show ?thesis using Inr eq ys(2) by simp
  qed
qed

subsection \<open>Recovering a lost acknowledgement\<close>

text \<open>
  The client protocol: read back, reconcile, and apply conditionally if a retry is authorized.
  The result says whether a remote commit was accepted (True) or the effect was retried (False).
\<close>

definition recover_lost_ack :: "ExternalOperation \<Rightarrow> (provider_db, bool) txn" where
  "recover_lost_ack op db =
     (case read_operation op db of
        (Inl e, db1) \<Rightarrow> (Inl e, db1)
      | (Inr ev, db1) \<Rightarrow>
          (case reconcile_lost_ack op ev of
             Inl e \<Rightarrow> (Inl e, db1)
           | Inr d \<Rightarrow>
               if rd_should_retry d then wrap (\<lambda>_. False) (conditional_apply op d db1) else (Inr True, db1)))"

lemma read_operation_eq:
  assumes inv: "provider_inv db" and rows: "rows_as_operations db (xo_provider op) = Inr xs"
  shows "select_key (provider_effects db) (xo_provider op, xo_operation_id op) = None \<Longrightarrow>
      read_operation op db = (Inr
        \<lparr>pe_provider = xo_provider op, pe_operation_id = xo_operation_id op, pe_readback = ABSENT,
         pe_observed_tool = None, pe_observed_payload = None,
         pe_readback_revision = Some (revision_of db (xo_provider op)),
         pe_idempotency_key = Some (xo_operation_id op),
         pe_idempotency_effect_sha256 = Some (effect_sha256 op)\<rparr>, with_revision_row (xo_provider op) db)"
    and "select_key (provider_effects db) (xo_provider op, xo_operation_id op) = Some (xo_tool op, xo_payload op) \<Longrightarrow>
      read_operation op db = (Inr
        \<lparr>pe_provider = xo_provider op, pe_operation_id = xo_operation_id op, pe_readback = PRESENT,
         pe_observed_tool = Some (xo_tool op), pe_observed_payload = Some (xo_payload op),
         pe_readback_revision = Some (revision_of db (xo_provider op)),
         pe_idempotency_key = None, pe_idempotency_effect_sha256 = None\<rparr>, with_revision_row (xo_provider op) db)"
  using revision_nonneg [OF inv, of "xo_provider op"] rows
  by (simp_all add: read_operation_def transaction_def snapshot_in_transaction_eq mk_ProviderEvidence_def
      mk_VersionedProviderState_def)

lemma recover_present:
  assumes "provider_inv db" "rows_as_operations db (xo_provider op) = Inr xs"
    "select_key (provider_effects db) (xo_provider op, xo_operation_id op) = Some (xo_tool op, xo_payload op)"
  shows "recover_lost_ack op db = (Inr True, db)"
  using read_operation_eq(2) [OF assms] revision_row_of_effect [OF assms(1,3)]
  by (simp add: recover_lost_ack_def reconcile_lost_ack_def accept_decision_def)

lemma recover_absent:
  assumes "provider_inv db" "rows_as_operations db (xo_provider op) = Inr xs"
    "select_key (provider_effects db) (xo_provider op, xo_operation_id op) = None"
    "fits_int64 (revision_of db (xo_provider op) + 1)"
  shows "recover_lost_ack op db = (Inr False, applied_db op db)"
proof -
  let ?p = "xo_provider op" and ?d = "retry_decision (revision_of db (xo_provider op)) op"
  let ?db = "with_revision_row ?p db" and ?st = "\<lparr>vp_revision = revision_of db ?p, vp_effects = xs\<rparr>"
  have rec: "reconcile_lost_ack op
        \<lparr>pe_provider = ?p, pe_operation_id = xo_operation_id op, pe_readback = ABSENT,
         pe_observed_tool = None, pe_observed_payload = None, pe_readback_revision = Some (revision_of db ?p),
         pe_idempotency_key = Some (xo_operation_id op), pe_idempotency_effect_sha256 = Some (effect_sha256 op)\<rparr> = Inr ?d"
    by (simp add: reconcile_lost_ack_def)
  have "\<forall>x \<in> set xs. xo_provider x = ?p \<longrightarrow> xo_operation_id x \<noteq> xo_operation_id op"
  proof (intro ballI impI notI)
    fix x assume "x \<in> set xs" "xo_provider x = ?p" "xo_operation_id x = xo_operation_id op"
    with snapshot_identity_iff [OF assms(2), of "xo_operation_id op" "xo_tool x" "xo_payload x"] assms(1,3)
    show False by (cases x) (simp add: provider_inv_def)
  qed
  with revision_nonneg [OF assms(1), of ?p]
  have "apply_conditional_retry op ?d ?st = Inr \<lparr>vp_revision = revision_of db ?p + 1, vp_effects = xs @ [op]\<rparr>"
    by (simp add: apply_conditional_retry_Inr_iff retry_decision_authorizes)
  moreover have "rows_as_operations ?db ?p = Inr xs" using assms(2) by (simp add: rows_as_operations_def)
  moreover have "applied_db op ?db = applied_db op db"
    by (simp add: applied_db_def with_revision_row_def select_insert revision_of_def)
  ultimately have "conditional_apply op ?d ?db =
      (Inr \<lparr>vp_revision = revision_of db ?p + 1, vp_effects = xs @ [op]\<rparr>, applied_db op db)"
    using conditional_apply_eq [where op = op and xs = xs and st = ?st and d = ?d,
        OF with_revision_row_inv [OF assms(1), of ?p]] assms(4) by simp
  with rec read_operation_eq(1) [OF assms(1-3)] show ?thesis
    by (simp add: recover_lost_ack_def retry_decision_def wrap_def)
qed

text \<open>
  C5: The protocol converges and applies the effect exactly once. From any provider that can be
  read and holds no conflicting effect of the same identity, one run returns, reports whether it
  found the effect, and leaves exactly the old effects plus the operation; running it again
  accepts the remote commit and changes nothing.
\<close>

theorem lost_ack_recovery_converges:
  assumes "provider_inv db" and "constructed op"
    and "fst (snapshot (PStr (xo_provider op)) db) = Inr st" and "fits_int64 (vp_revision st + 1)"
    and "\<forall>x \<in> set (vp_effects st). xo_operation_id x = xo_operation_id op \<longrightarrow> x = op"
  shows "let (r, db') = recover_lost_ack op db in
    r = Inr (op \<in> set (vp_effects st)) \<and> recover_lost_ack op db' = (Inr True, db') \<and>
    (\<exists>st'. fst (snapshot (PStr (xo_provider op)) db') = Inr st' \<and>
       mset (vp_effects st') = (if op \<in> set (vp_effects st) then mset (vp_effects st) else add_mset op (mset (vp_effects st))))"
proof -
  let ?p = "xo_provider op"
  note st = snapshot_rows [OF assms(1,3)]
  have eta: "\<lparr>xo_provider = ?p, xo_operation_id = xo_operation_id op, xo_tool = xo_tool op, xo_payload = xo_payload op\<rparr> = op"
    by (cases op) simp
  have pk: "primary_key (provider_effects db)" using assms(1) by (simp add: provider_inv_def)
  show ?thesis
  proof (cases "select_key (provider_effects db) (?p, xo_operation_id op)")
    case None
    then have "op \<notin> set (vp_effects st)"
      using snapshot_identity_iff [OF st(1) pk, of "xo_operation_id op" "xo_tool op" "xo_payload op"] eta by simp
    moreover obtain ys where ys: "rows_as_operations (applied_db op db) ?p = Inr ys"
        "mset ys = add_mset op (mset (vp_effects st))"
      by (rule applied_snapshot [OF assms(1,2) st(1) None])
    moreover note inv = applied_db_inv [OF assms(1) None]
    moreover have "recover_lost_ack op (applied_db op db) = (Inr True, applied_db op db)"
      using None by (intro recover_present [OF inv ys(1)]) (simp add: select_insert)
    moreover have "recover_lost_ack op db = (Inr False, applied_db op db)"
      using None assms(4) st(2) by (intro recover_absent [OF assms(1) st(1)]) simp_all
    ultimately show ?thesis using snapshot_Inr [OF inv st(3) ys(1)] by simp
  next
    case (Some row)
    then have row: "\<lparr>xo_provider = ?p, xo_operation_id = xo_operation_id op, xo_tool = fst row, xo_payload = snd row\<rparr>
        \<in> set (vp_effects st)"
      using snapshot_identity_iff [OF st(1) pk, of "xo_operation_id op" "fst row" "snd row"] by simp
    with assms(5) have op: "\<lparr>xo_provider = ?p, xo_operation_id = xo_operation_id op, xo_tool = fst row, xo_payload = snd row\<rparr> = op"
      by simp
    then have "row = (xo_tool op, xo_payload op)" by (metis ExternalOperation.select_convs(3,4) prod.collapse)
    with Some have "recover_lost_ack op db = (Inr True, db)"
      by (intro recover_present [OF assms(1) st(1)]) simp
    with row op assms(3) show ?thesis by simp
  qed
qed

subsection \<open>Concrete runs\<close>

definition charge :: ExternalOperation where
  "charge = \<lparr>xo_provider = ''payments'', xo_operation_id = ''op-7'', xo_tool = ''charge'', xo_payload = ''10 EUR''\<rparr>"

definition other_charge :: ExternalOperation where
  "other_charge = \<lparr>xo_provider = ''payments'', xo_operation_id = ''op-8'', xo_tool = ''charge'', xo_payload = ''5 EUR''\<rparr>"

definition absent_evidence :: ProviderEvidence where
  "absent_evidence =
     \<lparr>pe_provider = ''payments'', pe_operation_id = ''op-7'', pe_readback = ABSENT,
      pe_observed_tool = None, pe_observed_payload = None, pe_readback_revision = Some 0,
      pe_idempotency_key = Some ''op-7'', pe_idempotency_effect_sha256 = Some (effect_sha256 charge)\<rparr>"

lemma absent_evidence_reconciles: "reconcile_lost_ack charge absent_evidence = Inr (retry_decision 0 charge)"
  by (simp add: reconcile_lost_ack_def absent_evidence_def charge_def)

lemma charge_constructed: "constructed charge" "constructed other_charge"
  by (simp_all add: constructed_iff charge_def other_charge_def blank_iff py_isspace_def)

lemma new_provider_rows:
  "rows_as_operations new_provider_file p = Inr []" "revision_of new_provider_file p = 0"
  "select_key (provider_effects new_provider_file) k = None"
  by (simp_all add: rows_as_operations_def provider_rows_def new_provider_file_def revision_of_def)

lemma new_provider_snapshot:
  "fst (snapshot (PStr (xo_provider charge)) new_provider_file) = Inr \<lparr>vp_revision = 0, vp_effects = []\<rparr>"
  using snapshot_Inr [OF provider_inv_new _ new_provider_rows(1), of "xo_provider charge"] charge_constructed(1)
  by (simp add: constructed_iff new_provider_rows)

lemma new_provider_read:
  "read_operation charge new_provider_file = (Inr absent_evidence, with_revision_row ''payments'' new_provider_file)"
  using read_operation_eq(1) [OF provider_inv_new new_provider_rows(1), of charge]
  by (simp add: new_provider_rows) (simp add: absent_evidence_def charge_def)

lemma retry_is_justified_witness:
  "pe_readback absent_evidence = ABSENT \<and> pe_readback_revision absent_evidence = Some 0 \<and>
   pe_idempotency_key absent_evidence = Some (xo_operation_id charge)"
proof -
  have "apply_conditional_retry charge (retry_decision 0 charge) \<lparr>vp_revision = 0, vp_effects = []\<rparr> =
      Inr \<lparr>vp_revision = 1, vp_effects = [charge]\<rparr>"
    by (simp add: apply_conditional_retry_Inr_iff retry_decision_authorizes)
  from retry_is_justified [OF absent_evidence_reconciles this] show ?thesis by simp
qed

lemma competing_retries_one_wins_witness:
  "successes (retry_of ''payments'' ''op-7'')
     [ConditionalApply charge (retry_decision 0 charge), ConditionalApply charge (retry_decision 0 charge)]
     (outcomes provider_exec new_provider_file
       [ConditionalApply charge (retry_decision 0 charge), ConditionalApply charge (retry_decision 0 charge)]) \<le> 1"
  by (rule competing_retries_one_wins [OF provider_inv_new, THEN conjunct2, THEN conjunct1])

lemma conditional_retry_has_no_race_witness:
  "provider_rows (snd (conditional_apply charge (retry_decision 0 charge)
     (after provider_exec (with_revision_row ''payments'' new_provider_file) [Read other_charge]))) ''payments'' =
   [(''op-7'', ''charge'', ''10 EUR'')]"
proof -
  let ?db = "with_revision_row ''payments'' new_provider_file"
  have inv: "provider_inv ?db" using provider_inv_new by (rule with_revision_row_inv)
  have rows: "rows_as_operations ?db p = Inr []" for p
    by (simp add: rows_as_operations_def provider_rows_def new_provider_file_def)
  have "snd (read_operation other_charge ?db) = ?db"
    using read_operation_eq(1) [OF inv rows, of other_charge]
    by (simp add: new_provider_rows) (simp add: with_revision_row_def other_charge_def new_provider_file_def insert_row_def select_key_def)
  then have now: "?db = after provider_exec (snd (read_operation charge new_provider_file)) [Read other_charge]"
    by (simp add: new_provider_read)
  have read: "fst (read_operation charge new_provider_file) = Inr absent_evidence" by (simp add: new_provider_read)
  have "apply_conditional_retry charge (retry_decision 0 charge) \<lparr>vp_revision = 0, vp_effects = []\<rparr> =
      Inr \<lparr>vp_revision = 1, vp_effects = [charge]\<rparr>"
    by (simp add: apply_conditional_retry_Inr_iff retry_decision_authorizes)
  then have "fst (conditional_apply charge (retry_decision 0 charge) ?db) = Inr \<lparr>vp_revision = 1, vp_effects = [charge]\<rparr>"
    using conditional_apply_eq [OF inv rows, of "\<lparr>vp_revision = 0, vp_effects = []\<rparr>" charge "retry_decision 0 charge"]
    by (simp add: new_provider_rows fits_int64_def)
  from conditional_retry_has_no_race [OF provider_inv_new read absent_evidence_reconciles now this]
  have "mset (provider_rows (snd (conditional_apply charge (retry_decision 0 charge) ?db)) ''payments'') =
      {#(''op-7'', ''charge'', ''10 EUR'')#}"
    by (simp add: charge_def provider_rows_def new_provider_file_def)
  with now show ?thesis by (simp add: new_provider_read)
qed

lemma provider_refines_conditional_write_witness:
  "fst (conditional_apply charge (retry_decision 0 charge) new_provider_file) =
     apply_conditional_retry charge (retry_decision 0 charge) \<lparr>vp_revision = 0, vp_effects = []\<rparr>"
  using provider_refines_conditional_write
    [OF provider_inv_new charge_constructed(1) new_provider_snapshot, of "retry_decision 0 charge"]
  by (simp add: fits_int64_def)

lemma lost_ack_recovery_converges_witness:
  "fst (recover_lost_ack charge new_provider_file) = Inr False"
  using lost_ack_recovery_converges
    [OF provider_inv_new charge_constructed(1) new_provider_snapshot]
  by (simp add: fits_int64_def case_prod_beta)

end
