(* ===== verification/Lineage.thy ===== *)
theory Lineage
  imports Reconciliation
begin

section \<open>Durable evidence lineage (\<open>evidence_lineage.py\<close>)\<close>

text \<open>
  One monotonic head of provider evidence per external operation, in SQLite, and the record
  that its reconciliation is complete. The model has both tables with all their columns and every
  method with its checks in order. Proved: heads never go back and never change their effect,
  superseded authority is refused for ever, completion is terminal, where authority and
  completion come from, and that what was recorded is what is read.
\<close>

subsection \<open>Records and rows\<close>

record ReconciliationEvidenceRecord =
  rr_provider :: string
  rr_operation_id :: string
  rr_evidence_id :: string
  rr_revision :: int
  rr_effect_sha256 :: string
  rr_decision :: ReconciliationDecision

record ReconciliationCompletionRecord =
  rc_provider :: string
  rc_operation_id :: string
  rc_effect_sha256 :: string
  rc_evidence_id :: string
  rc_revision :: int

text \<open>The columns after the primary key \<open>(provider, operation_id)\<close>.\<close>

record head_row =
  h_effect_sha256 :: string
  h_evidence_id :: string
  h_revision :: int
  h_action :: string
  h_should_retry :: int
  h_reason :: string
  h_retry_precondition_revision :: "int option"
  h_retry_effect_sha256 :: "string option"

record completion_row =
  c_effect_sha256 :: string
  c_evidence_id :: string
  c_revision :: int

record lineage_db =
  heads :: "(string \<times> string, head_row) table"
  completions :: "(string \<times> string, completion_row) table"

definition new_lineage_file :: lineage_db where
  "new_lineage_file = \<lparr>heads = [], completions = []\<rparr>"

definition op_key :: "ExternalOperation \<Rightarrow> string \<times> string" where
  "op_key op = (xo_provider op, xo_operation_id op)"

definition decision_from_row :: "head_row \<Rightarrow> ReconciliationDecision" where
  "decision_from_row row =
     \<lparr>rd_action = h_action row, rd_should_retry = (h_should_retry row \<noteq> 0), rd_reason = h_reason row,
      rd_retry_precondition_revision = h_retry_precondition_revision row,
      rd_retry_effect_sha256 = h_retry_effect_sha256 row\<rparr>"

definition record_from_row :: "string \<times> string \<Rightarrow> head_row \<Rightarrow> ReconciliationEvidenceRecord" where
  "record_from_row k row =
     \<lparr>rr_provider = fst k, rr_operation_id = snd k, rr_evidence_id = h_evidence_id row,
      rr_revision = h_revision row, rr_effect_sha256 = h_effect_sha256 row,
      rr_decision = decision_from_row row\<rparr>"

definition completion_from_row :: "string \<times> string \<Rightarrow> completion_row \<Rightarrow> ReconciliationCompletionRecord" where
  "completion_from_row k row =
     \<lparr>rc_provider = fst k, rc_operation_id = snd k, rc_effect_sha256 = c_effect_sha256 row,
      rc_evidence_id = c_evidence_id row, rc_revision = c_revision row\<rparr>"

definition head_to_row :: "ReconciliationEvidenceRecord \<Rightarrow> head_row" where
  "head_to_row r =
     \<lparr>h_effect_sha256 = rr_effect_sha256 r, h_evidence_id = rr_evidence_id r, h_revision = rr_revision r,
      h_action = rd_action (rr_decision r), h_should_retry = of_bool (rd_should_retry (rr_decision r)),
      h_reason = rd_reason (rr_decision r),
      h_retry_precondition_revision = rd_retry_precondition_revision (rr_decision r),
      h_retry_effect_sha256 = rd_retry_effect_sha256 (rr_decision r)\<rparr>"

lemma decision_from_head [simp]: "decision_from_row (head_to_row r) = rr_decision r"
  by (cases "rr_decision r") (simp add: decision_from_row_def head_to_row_def)

lemma head_to_row_simps [simp]:
  "h_effect_sha256 (head_to_row r) = rr_effect_sha256 r" "h_evidence_id (head_to_row r) = rr_evidence_id r"
  "h_revision (head_to_row r) = rr_revision r"
  by (simp_all add: head_to_row_def)

lemma record_from_head: "k = (rr_provider r, rr_operation_id r) \<Longrightarrow> record_from_row k (head_to_row r) = r"
  by (cases r) (simp add: record_from_row_def)

subsection \<open>The methods\<close>

definition open_lineage :: "string \<Rightarrow> (lineage_db, unit) txn" where
  "open_lineage database db =
     (if database = '':memory:''
      then (raise ValueError ''a file-backed database is required for restart recovery'', db)
      else (Inr (), db))"

definition write_head ::
  "ExternalOperation \<Rightarrow> ReconciliationEvidenceRecord \<Rightarrow> (lineage_db, ReconciliationEvidenceRecord) txn" where
  "write_head op candidate db =
     (if \<not> fits_int64 (rr_revision candidate) \<or>
         (\<exists>r \<in> set_option (rd_retry_precondition_revision (rr_decision candidate)). \<not> fits_int64 r)
      then (overflow, db)
      else (Inr candidate, db\<lparr>heads := upsert_row (op_key op) (head_to_row candidate) (heads db)\<rparr>))"

definition check_head ::
  "ExternalOperation \<Rightarrow> ReconciliationEvidenceRecord \<Rightarrow> (lineage_db, ReconciliationEvidenceRecord) txn" where
  "check_head op candidate db =
     (case select_key (heads db) (op_key op) of
        None \<Rightarrow> write_head op candidate db
      | Some row \<Rightarrow>
          let current = record_from_row (op_key op) row in
          if rr_effect_sha256 current \<noteq> effect_sha256 op
          then (raise EvidenceLineageConflict ''operation identity is already bound to a different exact effect'', db)
          else if rr_revision candidate < rr_revision current
          then (raise SupersededReconciliationDecision
                  ''provider evidence is older than the persisted reconciliation head'', db)
          else if rr_revision candidate = rr_revision current
          then (if rr_effect_sha256 candidate = rr_effect_sha256 current \<and> rr_decision candidate = rr_decision current
                then (Inr current, db)
                else (raise EvidenceLineageConflict
                  ''the same provider revision cannot carry conflicting reconciliation evidence'', db))
          else write_head op candidate db)"

definition record_candidate ::
  "ExternalOperation \<Rightarrow> ReconciliationEvidenceRecord \<Rightarrow> (lineage_db, ReconciliationEvidenceRecord) txn" where
  "record_candidate op candidate db =
     (case select_key (completions db) (op_key op) of
        None \<Rightarrow> check_head op candidate db
      | Some row \<Rightarrow>
          let completion = completion_from_row (op_key op) row in
          if rc_effect_sha256 completion \<noteq> effect_sha256 op
          then (raise EvidenceLineageConflict
                  ''reconciled operation identity is bound to a different exact effect'', db)
          else if rd_should_retry (rr_decision candidate)
          then (raise SupersededReconciliationDecision
                  ''reconciled operation cannot regain retry authority from later absence evidence'', db)
          else check_head op candidate db)"

definition record_evidence ::
  "ExternalOperation \<Rightarrow> pyval \<Rightarrow> ProviderEvidence \<Rightarrow> (lineage_db, ReconciliationEvidenceRecord) txn" where
  "record_evidence op evidence_id ev db =
     (if not_nonempty_str evidence_id then (raise ValueError ''evidence_id must be a nonempty string'', db)
      else case pe_readback_revision ev of
        None \<Rightarrow> (raise EvidenceLineageConflict ''persistent evidence lineage requires a provider revision'', db)
      | Some revision \<Rightarrow>
          (case reconcile_lost_ack op ev of
             Inl e \<Rightarrow> (Inl e, db)
           | Inr decision \<Rightarrow>
               transaction (record_candidate op
                 \<lparr>rr_provider = xo_provider op, rr_operation_id = xo_operation_id op,
                  rr_evidence_id = str_of evidence_id, rr_revision = revision,
                  rr_effect_sha256 = effect_sha256 op, rr_decision = decision\<rparr>) db))"

definition current_head :: "ExternalOperation \<Rightarrow> (lineage_db, ReconciliationEvidenceRecord) txn" where
  "current_head op db =
     (case transaction (\<lambda>db. (Inr (select_key (heads db) (op_key op)), db)) db of
        (Inl e, db) \<Rightarrow> (Inl e, db)
      | (Inr None, db) \<Rightarrow>
          (raise EvidenceLineageConflict ''no reconciliation evidence is persisted for this operation'', db)
      | (Inr (Some row), db) \<Rightarrow>
          let r = record_from_row (op_key op) row in
          if rr_effect_sha256 r \<noteq> effect_sha256 op
          then (raise EvidenceLineageConflict ''persisted evidence is bound to a different exact effect'', db)
          else (Inr r, db))"

definition completion_of :: "ExternalOperation \<Rightarrow> (lineage_db, ReconciliationCompletionRecord option) txn" where
  "completion_of op db =
     (case transaction (\<lambda>db. (Inr (select_key (completions db) (op_key op)), db)) db of
        (Inl e, db) \<Rightarrow> (Inl e, db)
      | (Inr None, db) \<Rightarrow> (Inr None, db)
      | (Inr (Some row), db) \<Rightarrow>
          let c = completion_from_row (op_key op) row in
          if rc_effect_sha256 c \<noteq> effect_sha256 op
          then (raise EvidenceLineageConflict
                  ''persisted reconciliation completion is bound to a different exact effect'', db)
          else (Inr (Some c), db))"

definition mark_reconciled ::
  "ExternalOperation \<Rightarrow> string \<Rightarrow> ReconciliationDecision \<Rightarrow> (lineage_db, ReconciliationCompletionRecord) txn" where
  "mark_reconciled op evidence_id decision = transaction (\<lambda>db.
     case select_key (heads db) (op_key op) of
       None \<Rightarrow> (raise EvidenceLineageConflict ''no reconciliation evidence is persisted for this operation'', db)
     | Some row \<Rightarrow>
         let current = record_from_row (op_key op) row in
         if rr_effect_sha256 current \<noteq> effect_sha256 op
         then (raise EvidenceLineageConflict ''persisted evidence is bound to a different exact effect'', db)
         else if rr_evidence_id current \<noteq> evidence_id \<or> rr_decision current \<noteq> decision
         then (raise SupersededReconciliationDecision
                 ''reconciliation decision is superseded by newer persisted provider evidence'', db)
         else if rd_should_retry decision \<or> rd_action decision \<noteq> ''accept_remote_commit''
         then (raise EvidenceLineageConflict
                 ''only a current provider-PRESENT decision can complete reconciliation'', db)
         else case select_key (completions db) (op_key op) of
           Some crow \<Rightarrow>
             let c = completion_from_row (op_key op) crow in
             if rc_effect_sha256 c \<noteq> effect_sha256 op
             then (raise EvidenceLineageConflict
                     ''reconciled operation identity is bound to a different exact effect'', db)
             else (Inr c, db)
         | None \<Rightarrow>
             let crow = \<lparr>c_effect_sha256 = effect_sha256 op, c_evidence_id = evidence_id,
                         c_revision = rr_revision current\<rparr>
             in if \<not> fits_int64 (c_revision crow) then (overflow, db)
                else (Inr (completion_from_row (op_key op) crow),
                      db\<lparr>completions := insert_row (op_key op) crow (completions db)\<rparr>))"

definition assert_current ::
  "ExternalOperation \<Rightarrow> string \<Rightarrow> ReconciliationDecision \<Rightarrow> (lineage_db, unit) txn" where
  "assert_current op evidence_id decision db =
     (case current_head op db of
        (Inl e, db) \<Rightarrow> (Inl e, db)
      | (Inr current, db) \<Rightarrow>
          if rr_evidence_id current \<noteq> evidence_id \<or> rr_decision current \<noteq> decision
          then (raise SupersededReconciliationDecision
                  ''reconciliation decision is superseded by newer persisted provider evidence'', db)
          else (Inr (), db))"

definition apply_retry ::
  "ExternalOperation \<Rightarrow> string \<Rightarrow> ReconciliationDecision \<Rightarrow> VersionedProviderState \<Rightarrow>
     (lineage_db, VersionedProviderState) txn" where
  "apply_retry op evidence_id decision st db =
     (case assert_current op evidence_id decision db of
        (Inl e, db) \<Rightarrow> (Inl e, db)
      | (Inr u, db) \<Rightarrow> (apply_conditional_retry op decision st, db))"

subsection \<open>The lineage as a store\<close>

datatype lineage_op =
    OpenLineage string | Record ExternalOperation pyval ProviderEvidence | Current ExternalOperation
  | Completion ExternalOperation | MarkReconciled ExternalOperation string ReconciliationDecision
  | AssertCurrent ExternalOperation string ReconciliationDecision
  | ApplyRetry ExternalOperation string ReconciliationDecision VersionedProviderState

datatype lineage_result =
    LineageDone | HeadIs ReconciliationEvidenceRecord | CompletionIs "ReconciliationCompletionRecord option"
  | Retried VersionedProviderState

fun lineage_exec :: "lineage_db \<Rightarrow> lineage_op \<Rightarrow> lineage_result result \<times> lineage_db" where
  "lineage_exec db (OpenLineage path) = wrap (\<lambda>_. LineageDone) (open_lineage path db)"
| "lineage_exec db (Record op i ev) = wrap HeadIs (record_evidence op i ev db)"
| "lineage_exec db (Current op) = wrap HeadIs (current_head op db)"
| "lineage_exec db (Completion op) = wrap CompletionIs (completion_of op db)"
| "lineage_exec db (MarkReconciled op i d) = wrap (CompletionIs \<circ> Some) (mark_reconciled op i d db)"
| "lineage_exec db (AssertCurrent op i d) = wrap (\<lambda>_. LineageDone) (assert_current op i d db)"
| "lineage_exec db (ApplyRetry op i d st) = wrap Retried (apply_retry op i d st db)"

subsection \<open>What an operation can do to the database\<close>

definition candidate :: "ExternalOperation \<Rightarrow> string \<Rightarrow> int \<Rightarrow> ReconciliationDecision \<Rightarrow> ReconciliationEvidenceRecord" where
  "candidate op i revision decision =
     \<lparr>rr_provider = xo_provider op, rr_operation_id = xo_operation_id op, rr_evidence_id = i,
      rr_revision = revision, rr_effect_sha256 = effect_sha256 op, rr_decision = decision\<rparr>"

definition completion_allows :: "lineage_db \<Rightarrow> ExternalOperation \<Rightarrow> ReconciliationDecision \<Rightarrow> bool" where
  "completion_allows db op d \<longleftrightarrow>
     (\<forall>row. select_key (completions db) (op_key op) = Some row \<longrightarrow>
        c_effect_sha256 row = effect_sha256 op \<and> \<not> rd_should_retry d)"

definition head_below :: "lineage_db \<Rightarrow> ExternalOperation \<Rightarrow> int \<Rightarrow> bool" where
  "head_below db op revision \<longleftrightarrow>
     (\<forall>row. select_key (heads db) (op_key op) = Some row \<longrightarrow>
        h_effect_sha256 row = effect_sha256 op \<and> h_revision row < revision)"

lemma reconciled_revision:
  assumes "reconcile_lost_ack op ev = Inr d" "pe_readback_revision ev = Some revision"
  shows "d = accept_decision \<or> d = retry_decision revision op"
  using assms by (auto simp: reconcile_lost_ack_def split: if_splits)

lemma write_head_Inr:
  "fst (write_head op c db) = Inr r \<Longrightarrow> fits_int64 (rr_revision c) \<and> r = c \<and>
     snd (write_head op c db) = db\<lparr>heads := upsert_row (op_key op) (head_to_row c) (heads db)\<rparr>"
  by (simp add: write_head_def overflow_def split: if_splits)

lemma check_head_Inr:
  assumes "fst (check_head op (candidate op i revision d) db) = Inr r"
  shows "(fits_int64 revision \<and> head_below db op revision \<and> r = candidate op i revision d \<and>
        snd (check_head op (candidate op i revision d) db) =
          db\<lparr>heads := upsert_row (op_key op) (head_to_row (candidate op i revision d)) (heads db)\<rparr>) \<or>
     (\<exists>row. select_key (heads db) (op_key op) = Some row \<and> h_revision row = revision \<and>
        h_effect_sha256 row = effect_sha256 op \<and> decision_from_row row = d \<and>
        r = record_from_row (op_key op) row \<and> snd (check_head op (candidate op i revision d) db) = db)"
proof (cases "select_key (heads db) (op_key op)")
  case None
  then have "check_head op (candidate op i revision d) db = write_head op (candidate op i revision d) db"
    by (simp add: check_head_def)
  with assms None write_head_Inr [of op "candidate op i revision d" db r] show ?thesis
    by (simp add: head_below_def) (simp add: candidate_def)
next
  case (Some row)
  show ?thesis
  proof (cases "h_effect_sha256 row = effect_sha256 op \<and> h_revision row < revision")
    case True
    with Some have "check_head op (candidate op i revision d) db = write_head op (candidate op i revision d) db"
      by (simp add: check_head_def record_from_row_def candidate_def)
    with assms Some True write_head_Inr [of op "candidate op i revision d" db r] show ?thesis
      by (simp add: head_below_def) (simp add: candidate_def)
  next
    case False
    with assms Some show ?thesis
      by (simp add: check_head_def record_from_row_def Let_def split: if_splits)
        (auto simp: candidate_def)
  qed
qed

lemma record_candidate_Inr:
  assumes "fst (record_candidate op (candidate op i revision d) db) = Inr r"
  shows "completion_allows db op d \<and>
    record_candidate op (candidate op i revision d) db = check_head op (candidate op i revision d) db"
  using assms
  by (cases "select_key (completions db) (op_key op)")
    (simp_all add: record_candidate_def completion_allows_def completion_from_row_def candidate_def split: if_splits)

lemma record_evidence_Inr:
  assumes "fst (record_evidence op i ev db) = Inr r"
  obtains revision d where "\<not> not_nonempty_str i" "pe_readback_revision ev = Some revision"
    "reconcile_lost_ack op ev = Inr d" "completion_allows db op d"
    "(fits_int64 revision \<and> head_below db op revision \<and> r = candidate op (str_of i) revision d \<and>
        snd (record_evidence op i ev db) =
          db\<lparr>heads := upsert_row (op_key op) (head_to_row (candidate op (str_of i) revision d)) (heads db)\<rparr>) \<or>
     (\<exists>row. select_key (heads db) (op_key op) = Some row \<and> h_revision row = revision \<and>
        h_effect_sha256 row = effect_sha256 op \<and> decision_from_row row = d \<and>
        r = record_from_row (op_key op) row \<and> snd (record_evidence op i ev db) = db)"
proof -
  obtain revision d where g: "\<not> not_nonempty_str i" "pe_readback_revision ev = Some revision"
      "reconcile_lost_ack op ev = Inr d"
    using assms by (auto simp: record_evidence_def split: if_splits option.splits sum.splits)
  let ?c = "candidate op (str_of i) revision d"
  have body: "record_evidence op i ev db = transaction (record_candidate op ?c) db"
    using g by (simp add: record_evidence_def candidate_def)
  then have r: "fst (record_candidate op ?c db) = Inr r" using assms by simp
  then have s: "snd (record_evidence op i ev db) = snd (record_candidate op ?c db)"
    by (simp add: body snd_transaction)
  from record_candidate_Inr [OF r] r check_head_Inr [of op "str_of i" revision d db r] s show ?thesis
    by (intro that [OF g]) simp_all
qed

lemma mark_reconciled_Inr:
  assumes "fst (mark_reconciled op i d db) = Inr r"
  obtains row where "select_key (heads db) (op_key op) = Some row" "h_effect_sha256 row = effect_sha256 op"
    "h_evidence_id row = i" "decision_from_row row = d" "\<not> rd_should_retry d" "rd_action d = ''accept_remote_commit''"
    "(\<exists>crow. select_key (completions db) (op_key op) = Some crow \<and> c_effect_sha256 crow = effect_sha256 op \<and>
        r = completion_from_row (op_key op) crow \<and> snd (mark_reconciled op i d db) = db) \<or>
     (let crow = \<lparr>c_effect_sha256 = effect_sha256 op, c_evidence_id = i, c_revision = h_revision row\<rparr> in
      select_key (completions db) (op_key op) = None \<and> r = completion_from_row (op_key op) crow \<and>
      snd (mark_reconciled op i d db) = db\<lparr>completions := insert_row (op_key op) crow (completions db)\<rparr>)"
proof -
  obtain row where row: "select_key (heads db) (op_key op) = Some row"
    using assms by (auto simp: mark_reconciled_def split: option.splits)
  have g: "h_effect_sha256 row = effect_sha256 op" "h_evidence_id row = i" "decision_from_row row = d"
      "\<not> rd_should_retry d" "rd_action d = ''accept_remote_commit''"
    using assms by (auto simp: mark_reconciled_def row record_from_row_def Let_def split: if_splits)
  show ?thesis
    using assms
    by (intro that [OF row g])
      (auto simp: mark_reconciled_def row record_from_row_def completion_from_row_def snd_transaction Let_def g overflow_def
        split: option.splits if_splits)
qed

lemma lineage_reads [simp]:
  "snd (open_lineage path db) = db" "snd (current_head op db) = db" "snd (completion_of op db) = db"
  "snd (assert_current op i d db) = db" "snd (apply_retry op i d st db) = db"
proof -
  show "snd (open_lineage path db) = db" by (simp add: open_lineage_def)
  show head: "snd (current_head op db) = db" for op db
    by (auto simp: current_head_def transaction_def Let_def split: option.splits)
  show "snd (completion_of op db) = db"
    by (auto simp: completion_of_def transaction_def Let_def split: option.splits)
  show assertion: "snd (assert_current op i d db) = db" for op i d db
    using head [of op db] by (auto simp: assert_current_def split: prod.splits sum.splits)
  show "snd (apply_retry op i d st db) = db"
    using assertion [of op i d db] by (auto simp: apply_retry_def split: prod.splits sum.splits)
qed

lemma lineage_exec_cases:
  obtains
    (same) "snd (lineage_exec db op) = db"
  | (recorded) x i ev revision d where "op = Record x i ev" "pe_readback_revision ev = Some revision"
      "reconcile_lost_ack x ev = Inr d" "\<not> not_nonempty_str i" "fits_int64 revision"
      "completion_allows db x d" "head_below db x revision"
      "fst (lineage_exec db op) = Inr (HeadIs (candidate x (str_of i) revision d))"
      "snd (lineage_exec db op) =
         db\<lparr>heads := upsert_row (op_key x) (head_to_row (candidate x (str_of i) revision d)) (heads db)\<rparr>"
  | (completed) x i d row where "op = MarkReconciled x i d" "select_key (heads db) (op_key x) = Some row"
      "h_effect_sha256 row = effect_sha256 x" "h_evidence_id row = i" "decision_from_row row = d"
      "\<not> rd_should_retry d" "rd_action d = ''accept_remote_commit''" "select_key (completions db) (op_key x) = None"
      "returns (fst (lineage_exec db op))"
      "snd (lineage_exec db op) = db\<lparr>completions := insert_row (op_key x)
         \<lparr>c_effect_sha256 = effect_sha256 x, c_evidence_id = i, c_revision = h_revision row\<rparr> (completions db)\<rparr>"
proof (cases op)
  case (Record x i ev)
  show ?thesis
  proof (cases "fst (record_evidence x i ev db)")
    case (Inl e)
    then have "snd (record_evidence x i ev db) = db"
      by (auto simp: record_evidence_def snd_transaction split: if_splits option.splits sum.splits)
    with Record show ?thesis by (intro same) simp
  next
    case (Inr r)
    show ?thesis
      using Record Inr
      by (rule_tac record_evidence_Inr [OF Inr]) (auto intro: same recorded simp: fst_wrap)
  qed
next
  case (MarkReconciled x i d)
  show ?thesis
  proof (cases "fst (mark_reconciled x i d db)")
    case (Inl e)
    then have "snd (mark_reconciled x i d db) = db"
      unfolding mark_reconciled_def by (rule transaction_rollback)
    with MarkReconciled show ?thesis by (intro same) simp
  next
    case (Inr r)
    show ?thesis
      using MarkReconciled Inr
      by (rule_tac mark_reconciled_Inr [OF Inr]) (auto intro: same completed simp: Let_def)
  qed
qed (simp_all add: same)

subsection \<open>The invariant\<close>

text \<open>
  A head either accepts a remote commit or authorizes a retry at exactly its own revision for exactly
  its own effect; a completion sits under a head that accepts, for the same effect, at no lower revision.
\<close>

definition head_ok :: "head_row \<Rightarrow> bool" where
  "head_ok row \<longleftrightarrow> fits_int64 (h_revision row) \<and>
     (decision_from_row row = accept_decision \<or>
      rd_should_retry (decision_from_row row) \<and>
      rd_retry_precondition_revision (decision_from_row row) = Some (h_revision row) \<and>
      rd_retry_effect_sha256 (decision_from_row row) = Some (h_effect_sha256 row))"

definition lineage_inv :: "lineage_db \<Rightarrow> bool" where
  "lineage_inv db \<longleftrightarrow>
     primary_key (heads db) \<and> primary_key (completions db) \<and>
     (\<forall>k row. select_key (heads db) k = Some row \<longrightarrow> head_ok row) \<and>
     (\<forall>k c. select_key (completions db) k = Some c \<longrightarrow>
        (\<exists>row. select_key (heads db) k = Some row \<and> h_effect_sha256 row = c_effect_sha256 c \<and>
           c_revision c \<le> h_revision row \<and> decision_from_row row = accept_decision))"

lemma lineage_invD:
  assumes "lineage_inv db"
  shows "select_key (heads db) k = Some row \<Longrightarrow> head_ok row"
    and "select_key (completions db) k = Some c \<Longrightarrow>
      \<exists>row. select_key (heads db) k = Some row \<and> h_effect_sha256 row = c_effect_sha256 c \<and>
           c_revision c \<le> h_revision row \<and> decision_from_row row = accept_decision"
  using assms unfolding lineage_inv_def by blast+

lemma lineage_inv_new: "lineage_inv new_lineage_file"
  by (simp add: lineage_inv_def new_lineage_file_def)

lemma candidate_simps [simp]:
  "rr_revision (candidate op i r d) = r" "rr_effect_sha256 (candidate op i r d) = effect_sha256 op"
  "rr_decision (candidate op i r d) = d" "rr_evidence_id (candidate op i r d) = i"
  by (simp_all add: candidate_def)

lemma candidate_head_ok:
  assumes "reconcile_lost_ack op ev = Inr d" "pe_readback_revision ev = Some r" "fits_int64 r"
  shows "head_ok (head_to_row (candidate op i r d))"
  using reconciled_revision [OF assms(1,2)] assms(3)
  by (auto simp: head_ok_def retry_decision_def)

lemma lineage_exec_inv:
  assumes inv: "lineage_inv db"
  shows "lineage_inv (snd (lineage_exec db op))"
proof (cases rule: lineage_exec_cases [of db op])
  case same
  with inv show ?thesis by simp
next
  case (recorded x i ev revision d)
  let ?row = "head_to_row (candidate x (str_of i) revision d)"
  have ok: "head_ok ?row" using candidate_head_ok recorded(2,3,5) by blast
  have "\<exists>row. select_key (heads (snd (lineage_exec db op))) k = Some row \<and> h_effect_sha256 row = c_effect_sha256 c \<and>
      c_revision c \<le> h_revision row \<and> decision_from_row row = accept_decision"
    if c: "select_key (completions db) k = Some c" for k c
  proof (cases "k = op_key x")
    case False
    with lineage_invD(2) [OF inv c] recorded(9) show ?thesis by simp
  next
    case True
    with c recorded(6) have "c_effect_sha256 c = effect_sha256 x" "\<not> rd_should_retry d"
      by (auto simp: completion_allows_def)
    moreover from lineage_invD(2) [OF inv c] True recorded(7) have "c_revision c \<le> revision"
      by (auto simp: head_below_def)
    moreover from reconciled_revision [OF recorded(3,2)] \<open>\<not> rd_should_retry d\<close> have "d = accept_decision"
      by (auto simp: retry_decision_def)
    ultimately show ?thesis using True recorded(9) by simp
  qed
  with inv ok recorded(9) show ?thesis
    by (simp add: lineage_inv_def del: lineage_exec.simps)
next
  case (completed x i d row)
  have "d = accept_decision"
    using lineage_invD(1) [OF inv completed(2)] completed(5,6)
    by (auto simp: head_ok_def)
  with inv completed show ?thesis
    by (auto simp: lineage_inv_def primary_key_insert select_insert simp del: lineage_exec.simps)
qed

lemma lineage_exec_fail: "\<not> returns (fst (lineage_exec db op)) \<Longrightarrow> snd (lineage_exec db op) = db"
  by (cases rule: lineage_exec_cases [of db op]) (simp_all del: lineage_exec.simps)

text \<open>The revision of a head; below every SQLite integer while there is none.\<close>

definition head_revision :: "lineage_db \<Rightarrow> string \<times> string \<Rightarrow> int" where
  "head_revision db k = (case select_key (heads db) k of None \<Rightarrow> - (2 ^ 63) - 1 | Some row \<Rightarrow> h_revision row)"

definition head_of :: "lineage_db \<Rightarrow> string \<times> string \<Rightarrow> head_row option" where
  "head_of db k = select_key (heads db) k"

lemma lineage_version_step:
  assumes inv: "lineage_inv db"
  shows "head_revision db k \<le> head_revision (snd (lineage_exec db op)) k"
    and "head_revision (snd (lineage_exec db op)) k = head_revision db k \<Longrightarrow>
      head_of (snd (lineage_exec db op)) k = head_of db k"
proof -
  have "head_revision db k \<le> head_revision (snd (lineage_exec db op)) k \<and>
    (head_revision (snd (lineage_exec db op)) k = head_revision db k \<longrightarrow>
      head_of (snd (lineage_exec db op)) k = head_of db k)"
  proof (cases rule: lineage_exec_cases [of db op])
    case same
    then show ?thesis by simp
  next
    case (recorded x i ev revision d)
    have "head_revision db (op_key x) < revision"
      using recorded(5,7)
      by (auto simp: head_revision_def head_below_def fits_int64_def split: option.splits)
    with recorded(9) show ?thesis by (auto simp: head_revision_def head_of_def)
  next
    case completed
    then show ?thesis by (simp add: head_revision_def head_of_def)
  qed
  then show "head_revision db k \<le> head_revision (snd (lineage_exec db op)) k"
    and "head_revision (snd (lineage_exec db op)) k = head_revision db k \<Longrightarrow>
      head_of (snd (lineage_exec db op)) k = head_of db k"
    by blast+
qed

interpretation lineage: versioned_store lineage_exec lineage_inv head_revision head_of
  by unfold_locales (simp_all add: lineage_exec_inv lineage_exec_fail lineage_version_step del: lineage_exec.simps)

lemma lineage_head_binding:
  assumes "lineage_inv db" "head_of db k = Some row"
  shows "\<exists>row'. head_of (snd (lineage_exec db op)) k = Some row' \<and> h_effect_sha256 row' = h_effect_sha256 row"
proof (cases rule: lineage_exec_cases [of db op])
  case (recorded x i ev revision d)
  with assms(2) show ?thesis by (auto simp: head_of_def head_below_def simp del: lineage_exec.simps)
qed (use assms in \<open>auto simp: head_of_def simp del: lineage_exec.simps\<close>)

subsection \<open>Heads, superseded authority and terminal completion\<close>

text \<open>
  Heads are monotone and bound. Once an operation has a head of evidence, then in every later
  state it has one for the same effect digest, at no lower provider revision, and if the revision
  is the same then it is the same head: evidence of one revision is never replaced.
\<close>

theorem evidence_head_is_monotone:
  assumes "lineage_inv db" and "head_of db k = Some row"
  shows "\<exists>row'. head_of (after lineage_exec db ops) k = Some row' \<and>
           h_effect_sha256 row' = h_effect_sha256 row \<and> h_revision row \<le> h_revision row' \<and>
           (h_revision row' = h_revision row \<longrightarrow> row' = row)"
proof -
  let ?B = "\<lambda>db. \<exists>row'. head_of db k = Some row' \<and> h_effect_sha256 row' = h_effect_sha256 row"
  have "?B (snd (lineage_exec db op))" if "lineage_inv db" "?B db" for db op
    using that lineage_head_binding by metis
  then have "?B (after lineage_exec db ops)"
    using lineage.after_stable [of ?B db ops] assms by blast
  then obtain row' where row': "head_of (after lineage_exec db ops) k = Some row'"
      "h_effect_sha256 row' = h_effect_sha256 row" by blast
  then have "h_revision row \<le> h_revision row'"
    using lineage.after_version_mono [OF assms(1), of k ops] assms(2)
    by (simp add: head_revision_def head_of_def)
  moreover have "row' = row" if "h_revision row' = h_revision row"
    using lineage.view_unchanged [OF assms(1), of ops k] row'(1) assms(2) that
    by (simp add: head_revision_def head_of_def)
  ultimately show ?thesis using row' by blast
qed

lemma apply_retry_Inr:
  assumes "fst (apply_retry op i d st db) = Inr st'"
  obtains row where "head_of db (op_key op) = Some row" "h_effect_sha256 row = effect_sha256 op"
    "h_evidence_id row = i" "decision_from_row row = d" "apply_conditional_retry op d st = Inr st'"
proof -
  obtain row where "select_key (heads db) (op_key op) = Some row"
    using assms by (auto simp: apply_retry_def assert_current_def current_head_def transaction_def split: option.splits)
  with assms show ?thesis
    by (intro that [of row])
      (auto simp: apply_retry_def assert_current_def current_head_def transaction_def record_from_row_def Let_def
        head_of_def split: if_splits)
qed

text \<open>
  Superseded authority is refused for ever. Once the head of an operation has moved past a
  provider revision, a retry under any decision conditioned on that revision is refused in every later state.
\<close>

theorem superseded_retry_is_refused:
  assumes "lineage_inv db" and "head_of db (op_key op) = Some row"
    and "rd_retry_precondition_revision d = Some r" and "r < h_revision row"
  shows "\<not> returns (fst (apply_retry op i d st (after lineage_exec db ops)))"
proof
  let ?db = "after lineage_exec db ops"
  assume "returns (fst (apply_retry op i d st ?db))"
  then obtain st' where "fst (apply_retry op i d st ?db) = Inr st'" by (auto simp: returns_iff)
  then obtain row' where row': "head_of ?db (op_key op) = Some row'" "decision_from_row row' = d"
    by (rule apply_retry_Inr)
  have "head_ok row'"
    using lineage_invD(1) [OF lineage.after_inv [OF assms(1)]] row'(1) by (simp add: head_of_def)
  with row'(2) assms(3) have "h_revision row' = r"
    by (auto simp: head_ok_def accept_decision_def)
  moreover have "r < h_revision row'"
    using lineage.superseded_stays [OF assms(1), of r "op_key op" ops] assms(2,4) row'(1)
    by (simp add: head_revision_def head_of_def)
  ultimately show False by simp
qed

text \<open>
  C20: Completion is terminal. Once an operation is recorded as reconciled, then in every later state
  the completion is the same, the current head accepts the remote commit, no retry of the operation
  is let through, and no evidence of absence can be recorded for it any more.
\<close>

theorem completion_is_terminal:
  assumes "lineage_inv db" and "select_key (completions db) (op_key op) = Some c"
    and "now = after lineage_exec db ops"
  shows "select_key (completions now) (op_key op) = Some c \<and>
         (\<exists>row. head_of now (op_key op) = Some row \<and> decision_from_row row = accept_decision) \<and>
         \<not> returns (fst (apply_retry op i d st now)) \<and>
         (pe_readback ev = ABSENT \<longrightarrow> \<not> returns (fst (record_evidence op i' ev now)))"
proof -
  have "select_key (completions (snd (lineage_exec db op'))) (op_key op) = Some c"
    if "select_key (completions db) (op_key op) = Some c" for db op'
    using that by (cases rule: lineage_exec_cases [of db op']) (auto simp: select_insert simp del: lineage_exec.simps)
  then have c: "select_key (completions now) (op_key op) = Some c"
    unfolding assms(3)
    using lineage.after_stable [of "\<lambda>db. select_key (completions db) (op_key op) = Some c"] assms(1,2) by blast
  have inv: "lineage_inv now" unfolding assms(3) using assms(1) by (rule lineage.after_inv)
  from lineage_invD(2) [OF inv c] obtain row where
    row: "head_of now (op_key op) = Some row" "decision_from_row row = accept_decision"
    by (auto simp: head_of_def)
  have "\<not> returns (fst (apply_retry op i d st now))"
  proof
    assume "returns (fst (apply_retry op i d st now))"
    then obtain st' where "fst (apply_retry op i d st now) = Inr st'" by (auto simp: returns_iff)
    then show False
      using row by (elim apply_retry_Inr) (simp add: apply_conditional_retry_Inr_iff)
  qed
  moreover have "\<not> returns (fst (record_evidence op i' ev now))" if "pe_readback ev = ABSENT"
  proof
    assume "returns (fst (record_evidence op i' ev now))"
    then obtain r where "fst (record_evidence op i' ev now) = Inr r" by (auto simp: returns_iff)
    then obtain d' where d': "reconcile_lost_ack op ev = Inr d'" "completion_allows now op d'"
      by (rule record_evidence_Inr)
    from d'(1) that have "rd_should_retry d'"
      by (auto simp: reconcile_lost_ack_def retry_decision_def split: if_splits option.splits)
    with d'(2) c show False by (simp add: completion_allows_def)
  qed
  ultimately show ?thesis using c row by blast
qed

subsection \<open>Where authority and completion come from\<close>

text \<open>Evidence recorded in a history under an evidence id, for an operation of the key \<open>k\<close> with digest \<open>h\<close>.\<close>

definition recorded_in ::
  "lineage_op list \<Rightarrow> string \<times> string \<Rightarrow> string \<Rightarrow> string \<Rightarrow> int \<Rightarrow> ReconciliationDecision \<Rightarrow> bool" where
  "recorded_in hist k h i revision d \<longleftrightarrow>
     (\<exists>x ev. Record x (PStr i) ev \<in> set hist \<and> op_key x = k \<and> effect_sha256 x = h \<and>
        pe_readback_revision ev = Some revision \<and> reconcile_lost_ack x ev = Inr d)"

definition evidence_backed :: "lineage_op list \<Rightarrow> lineage_db \<Rightarrow> bool" where
  "evidence_backed hist db \<longleftrightarrow>
     (\<forall>k row. select_key (heads db) k = Some row \<longrightarrow>
        recorded_in hist k (h_effect_sha256 row) (h_evidence_id row) (h_revision row) (decision_from_row row)) \<and>
     (\<forall>k c. select_key (completions db) k = Some c \<longrightarrow>
        recorded_in hist k (c_effect_sha256 c) (c_evidence_id c) (c_revision c) accept_decision)"

lemma recorded_in_snoc: "recorded_in hist k h i r d \<Longrightarrow> recorded_in (hist @ [op]) k h i r d"
  unfolding recorded_in_def by fastforce

lemma evidence_backed_step:
  assumes inv: "lineage_inv db" and H: "evidence_backed hist db"
  shows "evidence_backed (hist @ [op]) (snd (lineage_exec db op))"
proof -
  have old: "evidence_backed (hist @ [op]) db"
    using H recorded_in_snoc unfolding evidence_backed_def by blast
  show ?thesis
  proof (cases rule: lineage_exec_cases [of db op])
    case same
    with old show ?thesis by simp
  next
    case (recorded x i ev revision d)
    have "i = PStr (str_of i)" using recorded(4) by (cases i) (auto simp: not_nonempty_str_def)
    with recorded(1-3) have "recorded_in (hist @ [op]) (op_key x) (effect_sha256 x) (str_of i) revision d"
      unfolding recorded_in_def by (metis in_set_conv_decomp)
    with old recorded(9) show ?thesis
      unfolding evidence_backed_def by (simp del: lineage_exec.simps)
  next
    case (completed x i d row)
    have "decision_from_row row = accept_decision"
      using lineage_invD(1) [OF inv completed(2)] completed(5,6) by (auto simp: head_ok_def)
    then have "recorded_in (hist @ [op]) (op_key x) (effect_sha256 x) i (h_revision row) accept_decision"
      using old completed(2-4) unfolding evidence_backed_def by metis
    with old completed(8,10) show ?thesis
      unfolding evidence_backed_def by (simp add: select_insert del: lineage_exec.simps)
  qed
qed

lemma evidence_backed_after: "evidence_backed ops (after lineage_exec new_lineage_file ops)"
  by (rule lineage.after_history [of evidence_backed, OF evidence_backed_step lineage_inv_new])
    (simp_all add: evidence_backed_def new_lineage_file_def)

text \<open>
  C13: Authority and completion rest on recorded evidence. On a fresh file, after any operations: a
  retry that is let through was authorized by evidence recorded under the quoted evidence id, a
  confirmed absence at exactly the provider revision written to, for this operation (or SHA-256 has
  a collision); and a completion that is read was recorded from a readback that found exactly the
  effect of the operation, at the completion's revision.
\<close>

theorem authority_rests_on_evidence:
  assumes "now = after lineage_exec new_lineage_file ops"
  shows "(fst (apply_retry op i d st now) = Inr st' \<longrightarrow>
      (\<exists>x ev. Record x (PStr i) ev \<in> set ops \<and> (x = op \<or> sha256_collision (canonical_effect x) (canonical_effect op)) \<and>
         op_key x = op_key op \<and> reconcile_lost_ack x ev = Inr d \<and> pe_readback ev = ABSENT \<and>
         pe_readback_revision ev = Some (vp_revision st))) \<and>
    (fst (completion_of op now) = Inr (Some c) \<longrightarrow>
      (\<exists>x ev. Record x (PStr (rc_evidence_id c)) ev \<in> set ops \<and>
         (x = op \<or> sha256_collision (canonical_effect x) (canonical_effect op)) \<and> op_key x = op_key op \<and>
         pe_readback ev = PRESENT \<and> pe_observed_tool ev = Some (xo_tool x) \<and>
         pe_observed_payload ev = Some (xo_payload x) \<and> pe_readback_revision ev = Some (rc_revision c)))"
proof (intro conjI impI)
  have backed: "evidence_backed ops now" unfolding assms by (rule evidence_backed_after)
  {
    assume "fst (apply_retry op i d st now) = Inr st'"
    then obtain row where row: "head_of now (op_key op) = Some row" "h_effect_sha256 row = effect_sha256 op"
      "h_evidence_id row = i" "decision_from_row row = d" and written: "apply_conditional_retry op d st = Inr st'"
      by (rule apply_retry_Inr)
    with backed have "recorded_in ops (op_key op) (effect_sha256 op) i (h_revision row) d"
      unfolding evidence_backed_def head_of_def by metis
    then obtain x ev where x: "Record x (PStr i) ev \<in> set ops" "op_key x = op_key op"
        "effect_sha256 x = effect_sha256 op" "reconcile_lost_ack x ev = Inr d"
      unfolding recorded_in_def by blast
    have "authorizes d op (vp_revision st)" using written by (simp add: apply_conditional_retry_Inr_iff)
    from reconciled_authority(1,2) [OF x(4) this] same_digest [OF x(3)] x
    show "\<exists>x ev. Record x (PStr i) ev \<in> set ops \<and> (x = op \<or> sha256_collision (canonical_effect x) (canonical_effect op)) \<and>
         op_key x = op_key op \<and> reconcile_lost_ack x ev = Inr d \<and> pe_readback ev = ABSENT \<and>
         pe_readback_revision ev = Some (vp_revision st)" by blast
  next
    assume c: "fst (completion_of op now) = Inr (Some c)"
    then obtain row where "select_key (completions now) (op_key op) = Some row" "c = completion_from_row (op_key op) row"
        "c_effect_sha256 row = effect_sha256 op"
      by (auto simp: completion_of_def transaction_def completion_from_row_def Let_def split: option.splits if_splits)
    moreover from this(1) backed have "recorded_in ops (op_key op) (c_effect_sha256 row) (c_evidence_id row) (c_revision row) accept_decision"
      unfolding evidence_backed_def by blast
    ultimately have "recorded_in ops (op_key op) (effect_sha256 op) (rc_evidence_id c) (rc_revision c) accept_decision"
      by (simp add: completion_from_row_def)
    then obtain x ev where x: "Record x (PStr (rc_evidence_id c)) ev \<in> set ops" "op_key x = op_key op"
        "effect_sha256 x = effect_sha256 op" "pe_readback_revision ev = Some (rc_revision c)"
        "reconcile_lost_ack x ev = Inr accept_decision"
      unfolding recorded_in_def by blast
    have "pe_readback ev = PRESENT \<and> pe_observed_tool ev = Some (xo_tool x) \<and> pe_observed_payload ev = Some (xo_payload x)"
      using x(5) by (auto simp: reconcile_lost_ack_def retry_decision_def accept_decision_def split: if_splits option.splits)
    with x same_digest [OF x(3)]
    show "\<exists>x ev. Record x (PStr (rc_evidence_id c)) ev \<in> set ops \<and>
         (x = op \<or> sha256_collision (canonical_effect x) (canonical_effect op)) \<and> op_key x = op_key op \<and>
         pe_readback ev = PRESENT \<and> pe_observed_tool ev = Some (xo_tool x) \<and>
         pe_observed_payload ev = Some (xo_payload x) \<and> pe_readback_revision ev = Some (rc_revision c)" by blast
  }
qed

subsection \<open>What was recorded is what is read\<close>

lemma current_head_eq:
  "select_key (heads db) (op_key op) = Some row \<Longrightarrow> h_effect_sha256 row = effect_sha256 op \<Longrightarrow>
     current_head op db = (Inr (record_from_row (op_key op) row), db)"
  by (simp add: current_head_def transaction_def record_from_row_def Let_def)

lemma record_same_revision:
  assumes "reconcile_lost_ack op ev = Inr d" "pe_readback_revision ev = Some (h_revision row)" "\<not> not_nonempty_str j"
    "select_key (heads db) (op_key op) = Some row" "h_effect_sha256 row = effect_sha256 op"
    "decision_from_row row = d" "completion_allows db op d"
  shows "record_evidence op j ev db = (Inr (record_from_row (op_key op) row), db)"
proof -
  have "check_head op (candidate op (str_of j) (h_revision row) d) db = (Inr (record_from_row (op_key op) row), db)"
    using assms(4-6) by (simp add: check_head_def record_from_row_def Let_def)
  moreover have "record_candidate op (candidate op (str_of j) (h_revision row) d) db =
      check_head op (candidate op (str_of j) (h_revision row) d) db"
    using assms(7) by (auto simp: record_candidate_def completion_allows_def completion_from_row_def split: option.splits)
  ultimately show ?thesis
    using assms(1-3) by (simp add: record_evidence_def candidate_def [symmetric] transaction_def)
qed

text \<open>
  C40: Round trip and idempotence. If \<open>record\<close> returns a record, then \<open>current\<close> reads exactly
  that record back from the database it leaves, and recording the same evidence again under any
  evidence id returns the record first persisted and changes nothing.
\<close>

theorem recorded_evidence_is_read_back:
  assumes "fst (record_evidence op i ev db) = Inr r" and "db' = snd (record_evidence op i ev db)"
    and "\<not> not_nonempty_str j"
  shows "current_head op db' = (Inr r, db') \<and> record_evidence op j ev db' = (Inr r, db')"
proof (rule record_evidence_Inr [OF assms(1)])
  fix revision d
  assume g: "pe_readback_revision ev = Some revision" "reconcile_lost_ack op ev = Inr d" "completion_allows db op d"
  let ?c = "candidate op (str_of i) revision d"
  assume "(fits_int64 revision \<and> head_below db op revision \<and> r = ?c \<and>
        snd (record_evidence op i ev db) = db\<lparr>heads := upsert_row (op_key op) (head_to_row ?c) (heads db)\<rparr>) \<or>
     (\<exists>row. select_key (heads db) (op_key op) = Some row \<and> h_revision row = revision \<and>
        h_effect_sha256 row = effect_sha256 op \<and> decision_from_row row = d \<and>
        r = record_from_row (op_key op) row \<and> snd (record_evidence op i ev db) = db)"
  then have "\<exists>row. select_key (heads db') (op_key op) = Some row \<and> h_revision row = revision \<and>
      h_effect_sha256 row = effect_sha256 op \<and> decision_from_row row = d \<and> r = record_from_row (op_key op) row \<and>
      completion_allows db' op d"
  proof (elim disjE conjE)
    assume "r = ?c" "snd (record_evidence op i ev db) = db\<lparr>heads := upsert_row (op_key op) (head_to_row ?c) (heads db)\<rparr>"
    moreover have "record_from_row (op_key op) (head_to_row ?c) = ?c"
      by (rule record_from_head) (simp add: op_key_def candidate_def)
    ultimately show ?thesis using assms(2) g(3) by (simp add: completion_allows_def)
  qed (use assms(2) g(3) in auto)
  then obtain row where row: "select_key (heads db') (op_key op) = Some row" "h_revision row = revision"
      "h_effect_sha256 row = effect_sha256 op" "decision_from_row row = d" "r = record_from_row (op_key op) row"
      "completion_allows db' op d" by blast
  with g record_same_revision [of op ev d row j db'] assms(3) current_head_eq [OF row(1,3)]
  show ?thesis by simp
qed

subsection \<open>Concrete runs\<close>

definition charge_evidence :: "ProviderReadbackState \<Rightarrow> int \<Rightarrow> ProviderEvidence" where
  "charge_evidence state revision =
     absent_evidence\<lparr>pe_readback := state, pe_readback_revision := Some revision,
       pe_observed_tool := (if state = PRESENT then Some ''charge'' else None),
       pe_observed_payload := (if state = PRESENT then Some ''10 EUR'' else None)\<rparr>"

lemma charge_evidence_reconciles:
  "reconcile_lost_ack charge (charge_evidence ABSENT r) = Inr (retry_decision r charge)"
  "reconcile_lost_ack charge (charge_evidence PRESENT r) = Inr accept_decision"
  by (simp_all add: reconcile_lost_ack_def charge_evidence_def absent_evidence_def charge_def)

definition charge_row :: "string \<Rightarrow> int \<Rightarrow> ReconciliationDecision \<Rightarrow> head_row" where
  "charge_row i r d = head_to_row (candidate charge i r d)"

definition lineage_run :: "lineage_op list" where
  "lineage_run =
     [Record charge (PStr ''e1'') (charge_evidence ABSENT 0), Record charge (PStr ''e2'') (charge_evidence PRESENT 1),
      MarkReconciled charge ''e2'' accept_decision]"

lemma charge_evidence_revision: "pe_readback_revision (charge_evidence s r) = Some r"
  by (simp add: charge_evidence_def)

lemma record_absent_0:
  "record_evidence charge (PStr ''e1'') (charge_evidence ABSENT 0) new_lineage_file =
     (Inr (candidate charge ''e1'' 0 (retry_decision 0 charge)),
      \<lparr>heads = [(op_key charge, charge_row ''e1'' 0 (retry_decision 0 charge))], completions = []\<rparr>)"
  by (simp add: record_evidence_def charge_evidence_revision charge_evidence_reconciles candidate_def [symmetric]
      transaction_def record_candidate_def check_head_def write_head_def new_lineage_file_def fits_int64_def
      blank_iff py_isspace_def retry_decision_def upsert_row_def charge_row_def)

lemma record_present_1:
  "record_evidence charge (PStr ''e2'') (charge_evidence PRESENT 1)
      \<lparr>heads = [(op_key charge, charge_row ''e1'' 0 (retry_decision 0 charge))], completions = []\<rparr> =
     (Inr (candidate charge ''e2'' 1 accept_decision),
      \<lparr>heads = [(op_key charge, charge_row ''e2'' 1 accept_decision)], completions = []\<rparr>)"
  by (simp add: record_evidence_def charge_evidence_revision charge_evidence_reconciles candidate_def [symmetric]
      transaction_def record_candidate_def check_head_def write_head_def fits_int64_def record_from_row_def
      blank_iff py_isspace_def accept_decision_def upsert_row_def charge_row_def select_key_def)

lemma mark_present_1:
  "mark_reconciled charge ''e2'' accept_decision
      \<lparr>heads = [(op_key charge, charge_row ''e2'' 1 accept_decision)], completions = []\<rparr> =
     (Inr \<lparr>rc_provider = ''payments'', rc_operation_id = ''op-7'', rc_effect_sha256 = effect_sha256 charge,
           rc_evidence_id = ''e2'', rc_revision = 1\<rparr>,
      \<lparr>heads = [(op_key charge, charge_row ''e2'' 1 accept_decision)],
       completions = [(op_key charge, \<lparr>c_effect_sha256 = effect_sha256 charge, c_evidence_id = ''e2'', c_revision = 1\<rparr>)]\<rparr>)"
  by (simp add: mark_reconciled_def transaction_def completion_from_row_def op_key_def charge_def
      record_from_row_def charge_row_def select_key_def Let_def fits_int64_def insert_row_def accept_decision_def)

lemma lineage_run_db:
  "after lineage_exec new_lineage_file lineage_run =
     \<lparr>heads = [(op_key charge, charge_row ''e2'' 1 accept_decision)],
      completions = [(op_key charge, \<lparr>c_effect_sha256 = effect_sha256 charge, c_evidence_id = ''e2'', c_revision = 1\<rparr>)]\<rparr>"
  by (simp add: lineage_run_def record_absent_0 record_present_1 mark_present_1)

definition charge_heads :: "string \<Rightarrow> int \<Rightarrow> ReconciliationDecision \<Rightarrow> lineage_db" where
  "charge_heads i r d = \<lparr>heads = [(op_key charge, charge_row i r d)], completions = []\<rparr>"

lemma charge_heads_absent_inv: "lineage_inv (charge_heads ''e1'' 0 (retry_decision 0 charge))"
  using lineage_exec_inv [OF lineage_inv_new, of "Record charge (PStr ''e1'') (charge_evidence ABSENT 0)"]
  by (simp add: record_absent_0 charge_heads_def)

lemma charge_heads_present_inv: "lineage_inv (charge_heads ''e2'' 1 accept_decision)"
  using lineage_exec_inv [OF charge_heads_absent_inv, of "Record charge (PStr ''e2'') (charge_evidence PRESENT 1)"]
  by (simp add: record_present_1 charge_heads_def)

lemma charge_heads_head: "head_of (charge_heads i r d) (op_key charge) = Some (charge_row i r d)"
  by (simp add: head_of_def charge_heads_def select_key_def)

lemma evidence_head_is_monotone_witness:
  "\<exists>row'. head_of (after lineage_exec (charge_heads ''e1'' 0 (retry_decision 0 charge))
       [Record charge (PStr ''e2'') (charge_evidence PRESENT 1)]) (op_key charge) = Some row' \<and>
     h_effect_sha256 row' = h_effect_sha256 (charge_row ''e1'' 0 (retry_decision 0 charge)) \<and>
     h_revision (charge_row ''e1'' 0 (retry_decision 0 charge)) \<le> h_revision row' \<and>
     (h_revision row' = h_revision (charge_row ''e1'' 0 (retry_decision 0 charge)) \<longrightarrow>
        row' = charge_row ''e1'' 0 (retry_decision 0 charge))"
  by (rule evidence_head_is_monotone [OF charge_heads_absent_inv charge_heads_head])

lemma superseded_retry_is_refused_witness:
  "\<not> returns (fst (apply_retry charge ''e1'' (retry_decision 0 charge) \<lparr>vp_revision = 0, vp_effects = []\<rparr>
      (after lineage_exec (charge_heads ''e2'' 1 accept_decision) [Record charge (PStr ''e1'') (charge_evidence ABSENT 0)])))"
  by (rule superseded_retry_is_refused [OF charge_heads_present_inv charge_heads_head, of _ 0])
    (simp_all add: retry_decision_def charge_row_def)

lemma completion_is_terminal_witness:
  "\<not> returns (fst (record_evidence charge (PStr ''e3'') (charge_evidence ABSENT 2)
      (after lineage_exec (after lineage_exec new_lineage_file lineage_run) [])))"
proof -
  have inv: "lineage_inv (after lineage_exec new_lineage_file lineage_run)"
    using lineage_inv_new by (rule lineage.after_inv)
  have "select_key (completions (after lineage_exec new_lineage_file lineage_run)) (op_key charge) =
      Some \<lparr>c_effect_sha256 = effect_sha256 charge, c_evidence_id = ''e2'', c_revision = 1\<rparr>"
    by (simp add: lineage_run_db select_key_def)
  moreover have "pe_readback (charge_evidence ABSENT 2) = ABSENT" by (simp add: charge_evidence_def)
  ultimately show ?thesis using completion_is_terminal [OF inv _ refl] by blast
qed

lemma authority_rests_on_evidence_witness:
  "\<exists>x ev. Record x (PStr ''e2'') ev \<in> set lineage_run \<and> op_key x = op_key charge \<and> pe_readback ev = PRESENT \<and>
     pe_readback_revision ev = Some 1"
proof -
  have "fst (completion_of charge (after lineage_exec new_lineage_file lineage_run)) =
      Inr (Some \<lparr>rc_provider = ''payments'', rc_operation_id = ''op-7'', rc_effect_sha256 = effect_sha256 charge,
           rc_evidence_id = ''e2'', rc_revision = 1\<rparr>)"
    by (simp add: lineage_run_db completion_of_def transaction_def completion_from_row_def select_key_def op_key_def Let_def)
      (simp add: charge_def)
  from authority_rests_on_evidence [OF refl, THEN conjunct2, rule_format, OF this] show ?thesis by auto
qed

lemma recorded_evidence_is_read_back_witness:
  "record_evidence charge (PStr ''e9'') (charge_evidence ABSENT 0) (charge_heads ''e1'' 0 (retry_decision 0 charge)) =
     (Inr (candidate charge ''e1'' 0 (retry_decision 0 charge)), charge_heads ''e1'' 0 (retry_decision 0 charge))"
proof -
  have run: "record_evidence charge (PStr ''e1'') (charge_evidence ABSENT 0) new_lineage_file =
      (Inr (candidate charge ''e1'' 0 (retry_decision 0 charge)), charge_heads ''e1'' 0 (retry_decision 0 charge))"
    by (simp add: record_absent_0 charge_heads_def)
  then have "fst (record_evidence charge (PStr ''e1'') (charge_evidence ABSENT 0) new_lineage_file) =
      Inr (candidate charge ''e1'' 0 (retry_decision 0 charge))" by simp
  moreover have "\<not> not_nonempty_str (PStr ''e9'')" by (simp add: blank_iff py_isspace_def)
  ultimately show ?thesis using recorded_evidence_is_read_back [OF _ refl] run by (metis snd_conv)
qed

end
