(* ===== verification/Fencing.thy ===== *)
theory Fencing
  imports Store Digest
begin

unbundle bit_operations_syntax

section \<open>Fencing tokens (\<open>fencing.py\<close>)\<close>

text \<open>
  Authority epochs that keep a superseded executor from writing: the pure state transition, and
  the SQLite store whose acquisitions and writes go through one row per resource, under a random
  generation that identifies the file. Proved: a write is accepted exactly when it carries the last
  token issued, stale tokens are refused for ever, the epoch counts the acquisitions, the store
  refines the pure model, and a replaced file honours no old token or handle.
\<close>

subsection \<open>The pure model\<close>

record FencingToken =
  ft_resource :: string
  ft_operation_id :: string
  ft_epoch :: int
  ft_store_generation :: "string option"

definition mk_FencingToken :: "string \<Rightarrow> string \<Rightarrow> int \<Rightarrow> string option \<Rightarrow> FencingToken result" where
  "mk_FencingToken resource operation_id epoch gen =
     (if blank resource \<or> blank operation_id then raise ValueError ''resource and operation_id must be nonempty''
      else if epoch \<le> 0 then raise ValueError ''epoch must be positive''
      else if (case gen of None \<Rightarrow> False | Some g \<Rightarrow> blank g)
      then raise ValueError ''store_generation must be nonempty when present''
      else Inr \<lparr>ft_resource = resource, ft_operation_id = operation_id, ft_epoch = epoch, ft_store_generation = gen\<rparr>)"

record FencedState =
  fs_resource :: string
  fs_epoch :: int
  fs_operation_id :: "string option"
  fs_value :: "string option"

definition mk_FencedState :: "string \<Rightarrow> int \<Rightarrow> string option \<Rightarrow> string option \<Rightarrow> FencedState result" where
  "mk_FencedState resource epoch operation_id v =
     (if blank resource then raise ValueError ''resource must be nonempty''
      else if epoch < 0 then raise ValueError ''epoch must be nonnegative''
      else Inr \<lparr>fs_resource = resource, fs_epoch = epoch, fs_operation_id = operation_id, fs_value = v\<rparr>)"

definition acquire_authority :: "FencedState \<Rightarrow> string \<Rightarrow> (FencedState \<times> FencingToken) result" where
  "acquire_authority st operation_id =
     (if blank operation_id then raise ValueError ''operation_id must be nonempty''
      else
        let epoch = fs_epoch st + 1 in
        bind_result (mk_FencingToken (fs_resource st) operation_id epoch None) (\<lambda>token.
        bind_result (mk_FencedState (fs_resource st) epoch (Some operation_id) (fs_value st)) (\<lambda>st'.
        Inr (st', token))))"

definition fenced_write :: "FencedState \<Rightarrow> FencingToken \<Rightarrow> string \<Rightarrow> FencedState result" where
  "fenced_write st token v =
     (if ft_resource token \<noteq> fs_resource st
      then raise FencingConflict ''fencing token belongs to a different resource''
      else if ft_epoch token \<noteq> fs_epoch st
      then raise StaleFencingToken ''fencing token was superseded; stale executor must re-acquire authority''
      else if Some (ft_operation_id token) \<noteq> fs_operation_id st
      then raise FencingConflict ''fencing token is not bound to the current operation''
      else mk_FencedState (fs_resource st) (fs_epoch st) (fs_operation_id st) (Some v))"

subsection \<open>The persistent store\<close>

text \<open>
  The metadata table holds at most one row, the generation. \<open>randomblob(16)\<close> is a 128-bit word
  that the environment supplies; \<open>lower(hex(...))\<close> prints it.
\<close>

record fencing_row =
  f_epoch :: int
  f_operation_id :: "string option"
  f_value :: "string option"

record fencing_db =
  generation :: "string option"
  fencing_state :: "(string, fencing_row) table"

definition new_fencing_file :: fencing_db where
  "new_fencing_file = \<lparr>generation = None, fencing_state = []\<rparr>"

definition generation_text :: "128 word \<Rightarrow> string" where
  "generation_text blob = map (\<lambda>i. hex_digit (unat (drop_bit (4 * (31 - i)) blob AND 15))) [0..<32]"

text \<open>Opening returns the handle's \<open>store_generation\<close>.\<close>

definition open_fencing :: "128 word \<Rightarrow> (fencing_db, string) txn" where
  "open_fencing blob db =
     (case generation db of
        None \<Rightarrow> (Inr (generation_text blob), db\<lparr>generation := Some (generation_text blob)\<rparr>)
      | Some g \<Rightarrow> (Inr g, db))"

definition acquire_txn :: "string \<Rightarrow> string \<Rightarrow> string \<Rightarrow> (fencing_db, int) txn" where
  "acquire_txn handle resource operation_id = transaction (\<lambda>db.
     if generation db \<noteq> Some handle
     then (raise FencingConflict ''authority store was replaced; reopen it before acquiring authority'', db)
     else
       let row = select_key (fencing_state db) resource;
           epoch = (case row of None \<Rightarrow> 0 | Some r \<Rightarrow> f_epoch r) + 1
       in if \<not> fits_int64 epoch then (overflow, db)
          else (Inr epoch, db\<lparr>fencing_state := upsert_row resource
                 \<lparr>f_epoch = epoch, f_operation_id = Some operation_id,
                  f_value = (case row of None \<Rightarrow> None | Some r \<Rightarrow> f_value r)\<rparr> (fencing_state db)\<rparr>))"

definition acquire :: "string \<Rightarrow> string \<Rightarrow> string \<Rightarrow> (fencing_db, FencingToken) txn" where
  "acquire handle resource operation_id db =
     (if blank resource \<or> blank operation_id
      then (raise ValueError ''resource and operation_id must be nonempty'', db)
      else case acquire_txn handle resource operation_id db of
        (Inl e, db') \<Rightarrow> (Inl e, db')
      | (Inr epoch, db') \<Rightarrow> (mk_FencingToken resource operation_id epoch (Some handle), db'))"

definition write_value :: "FencingToken \<Rightarrow> string \<Rightarrow> (fencing_db, unit) txn" where
  "write_value token v = transaction (\<lambda>db.
     if generation db = None \<or> ft_store_generation token \<noteq> generation db
     then (raise FencingConflict ''fencing token belongs to a different authority-store generation'', db)
     else case select_key (fencing_state db) (ft_resource token) of
       None \<Rightarrow> (raise FencingConflict ''fencing resource has no current authority'', db)
     | Some row \<Rightarrow>
         if ft_epoch token \<noteq> f_epoch row
         then (raise StaleFencingToken ''fencing token was superseded; stale executor must re-acquire authority'', db)
         else if Some (ft_operation_id token) \<noteq> f_operation_id row
         then (raise FencingConflict ''fencing token is not bound to the current operation'', db)
         else (Inr (), db\<lparr>fencing_state :=
                update_row (ft_resource token) (\<lambda>r. r\<lparr>f_value := Some v\<rparr>) (fencing_state db)\<rparr>))"

definition state_of :: "string \<Rightarrow> (fencing_db, FencedState) txn" where
  "state_of resource db =
     (case select_key (fencing_state db) resource of
        None \<Rightarrow> (mk_FencedState resource 0 None None, db)
      | Some row \<Rightarrow> (mk_FencedState resource (f_epoch row) (f_operation_id row) (f_value row), db))"

subsection \<open>The store contract\<close>

datatype fencing_op =
    OpenFencing "128 word" | Acquire string string string | Write FencingToken string | StateOf string

datatype fencing_result = HandleIs string | TokenIs FencingToken | Written | StateIs FencedState

fun fencing_exec :: "fencing_db \<Rightarrow> fencing_op \<Rightarrow> fencing_result result \<times> fencing_db" where
  "fencing_exec db (OpenFencing blob) = wrap HandleIs (open_fencing blob db)"
| "fencing_exec db (Acquire handle resource operation_id) = wrap TokenIs (acquire handle resource operation_id db)"
| "fencing_exec db (Write token v) = wrap (\<lambda>_. Written) (write_value token v db)"
| "fencing_exec db (StateOf resource) = wrap StateIs (state_of resource db)"

definition fencing_inv :: "fencing_db \<Rightarrow> bool" where
  "fencing_inv db \<longleftrightarrow>
     primary_key (fencing_state db) \<and> (\<forall>g \<in> set_option (generation db). \<not> blank g) \<and>
     (generation db = None \<longrightarrow> fencing_state db = []) \<and>
     (\<forall>r row. select_key (fencing_state db) r = Some row \<longrightarrow>
        \<not> blank r \<and> 0 < f_epoch row \<and> (\<exists>i. f_operation_id row = Some i \<and> \<not> blank i))"

lemma fencing_inv_new: "fencing_inv new_fencing_file"
  by (simp add: fencing_inv_def new_fencing_file_def)

lemma fencing_inv_row:
  assumes "fencing_inv db" "select_key (fencing_state db) r = Some row"
  shows "\<not> blank r" "0 < f_epoch row" "\<exists>i. f_operation_id row = Some i \<and> \<not> blank i"
  using assms unfolding fencing_inv_def by blast+

lemma hex_digit_not_space: "n < 16 \<Longrightarrow> \<not> py_isspace (hex_digit n)"
  by (auto simp: py_isspace_def hex_digit_def Let_def of_char_of)

lemma generation_text_not_blank: "\<not> blank (generation_text blob)"
proof -
  have "unat (x AND 15) < 16" for x :: "128 word"
  proof -
    have "unat (x AND 15) \<le> unat (15 :: 128 word)"
      by (rule word_and_le1 [THEN word_le_nat_alt [THEN iffD1]])
    then show ?thesis by simp
  qed
  then have "\<not> py_isspace (hd (generation_text blob))"
    by (simp add: generation_text_def upt_rec [of 0] hex_digit_not_space)
  moreover have "generation_text blob \<noteq> []" by (simp add: generation_text_def)
  ultimately show ?thesis by (metis blank_iff hd_in_set)
qed

definition epoch_of :: "fencing_db \<Rightarrow> string \<Rightarrow> int" where
  "epoch_of db r = (case select_key (fencing_state db) r of None \<Rightarrow> 0 | Some row \<Rightarrow> f_epoch row)"

lemma fencing_exec_cases:
  assumes "fencing_inv db"
  obtains
    (same) "snd (fencing_exec db op) = db" "\<And>t. fst (fencing_exec db op) \<noteq> Inr (TokenIs t)"
  | (opened) blob where "op = OpenFencing blob" "generation db = None"
      "snd (fencing_exec db op) = db\<lparr>generation := Some (generation_text blob)\<rparr>"
      "fst (fencing_exec db op) = Inr (HandleIs (generation_text blob))"
  | (acquired) handle r i v where "op = Acquire handle r i" "generation db = Some handle" "\<not> blank r" "\<not> blank i"
      "fits_int64 (epoch_of db r + 1)"
      "fst (fencing_exec db op) = Inr (TokenIs \<lparr>ft_resource = r, ft_operation_id = i, ft_epoch = epoch_of db r + 1,
         ft_store_generation = Some handle\<rparr>)"
      "snd (fencing_exec db op) = db\<lparr>fencing_state := upsert_row r
         \<lparr>f_epoch = epoch_of db r + 1, f_operation_id = Some i, f_value = v\<rparr> (fencing_state db)\<rparr>"
      "v = (case select_key (fencing_state db) r of None \<Rightarrow> None | Some row \<Rightarrow> f_value row)"
  | (written) token v row where "op = Write token v" "ft_store_generation token = generation db"
      "select_key (fencing_state db) (ft_resource token) = Some row"
      "ft_epoch token = f_epoch row" "f_operation_id row = Some (ft_operation_id token)"
      "fst (fencing_exec db op) = Inr Written"
      "snd (fencing_exec db op) = db\<lparr>fencing_state :=
         update_row (ft_resource token) (\<lambda>r. r\<lparr>f_value := Some v\<rparr>) (fencing_state db)\<rparr>"
proof (cases op)
  case (OpenFencing blob)
  then show ?thesis
    by (cases "generation db") (auto intro: same opened simp: open_fencing_def wrap_def)
next
  case (StateOf r)
  then show ?thesis
    by (intro same) (auto simp: state_of_def wrap_def split: option.splits prod.splits sum.splits)
next
  case (Write token v)
  show ?thesis
  proof (cases "returns (fst (write_value token v db))")
    case True
    then obtain row where row: "select_key (fencing_state db) (ft_resource token) = Some row"
      and g: "ft_store_generation token = generation db" "generation db \<noteq> None"
      by (auto simp: write_value_def split: option.splits if_splits)
    with True have "ft_epoch token = f_epoch row" "f_operation_id row = Some (ft_operation_id token)"
      by (auto simp: write_value_def split: if_splits)
    with row g Write show ?thesis
      by (intro written [of token v row]) (auto simp add: write_value_def transaction_def wrap_def)
  next
    case False
    then have "snd (write_value token v db) = db" by (simp add: write_value_def snd_transaction)
    with False Write show ?thesis by (intro same) (auto simp: fst_wrap_Inr)
  qed
next
  case (Acquire handle r i)
  show ?thesis
  proof (cases "\<not> blank r \<and> \<not> blank i \<and> generation db = Some handle \<and> fits_int64 (epoch_of db r + 1)")
    case True
    have "0 \<le> epoch_of db r"
      using fencing_inv_row(2) [OF assms, of r] by (auto simp: epoch_of_def split: option.splits intro: less_imp_le)
    moreover have "\<not> blank handle" using assms True by (simp add: fencing_inv_def)
    ultimately show ?thesis
      using True Acquire
      by (intro acquired [of handle r i])
        (simp_all add: acquire_def acquire_txn_def transaction_def wrap_def mk_FencingToken_def epoch_of_def Let_def)
  next
    case False
    then have "acquire handle r i db = (fst (acquire handle r i db), db) \<and> \<not> returns (fst (acquire handle r i db))"
      by (auto simp: acquire_def acquire_txn_def transaction_def epoch_of_def overflow_def Let_def)
    with Acquire show ?thesis by (intro same) (auto simp: fst_wrap_Inr dest: arg_cong [of _ _ snd])
  qed
qed

lemma fencing_exec_inv:
  assumes "fencing_inv db"
  shows "fencing_inv (snd (fencing_exec db op))"
  using assms
proof (cases rule: fencing_exec_cases [of db op])
  case same
  with assms show ?thesis by simp
next
  case opened
  with assms generation_text_not_blank show ?thesis by (simp add: fencing_inv_def del: fencing_exec.simps)
next
  case (acquired handle r i v)
  have "0 < epoch_of db r + 1"
    using fencing_inv_row(2) [OF assms, of r] by (auto simp: epoch_of_def split: option.splits intro: less_trans)
  with acquired assms show ?thesis by (simp add: fencing_inv_def del: fencing_exec.simps)
next
  case (written token v row)
  then have "generation db \<noteq> None" using assms by (auto simp: fencing_inv_def)
  moreover have "\<not> blank (ft_operation_id token)"
    using fencing_inv_row(3) [OF assms written(3)] written(5) by simp
  ultimately show ?thesis
    using written assms by (auto simp add: fencing_inv_def simp del: fencing_exec.simps)
qed

lemma fencing_exec_fail:
  "fencing_inv db \<Longrightarrow> \<not> returns (fst (fencing_exec db op)) \<Longrightarrow> snd (fencing_exec db op) = db"
  by (cases rule: fencing_exec_cases [of db op]) (simp_all del: fencing_exec.simps)

lemma fencing_version_step:
  assumes "fencing_inv db"
  shows "epoch_of db r \<le> epoch_of (snd (fencing_exec db op)) r"
    and "epoch_of (snd (fencing_exec db op)) r = epoch_of db r \<Longrightarrow>
      map_option (\<lambda>row. (f_epoch row, f_operation_id row)) (select_key (fencing_state (snd (fencing_exec db op))) r) =
      map_option (\<lambda>row. (f_epoch row, f_operation_id row)) (select_key (fencing_state db) r)"
  using assms
  by (cases rule: fencing_exec_cases [of db op];
      auto simp: epoch_of_def simp del: fencing_exec.simps split: if_splits option.splits)+

text \<open>The token a resource currently honours.\<close>

definition current_token :: "fencing_db \<Rightarrow> string \<Rightarrow> FencingToken option" where
  "current_token db r = map_option (\<lambda>row.
     \<lparr>ft_resource = r, ft_operation_id = the (f_operation_id row), ft_epoch = f_epoch row,
      ft_store_generation = generation db\<rparr>) (select_key (fencing_state db) r)"

lemma current_token_step:
  assumes inv: "fencing_inv db"
  shows "current_token (snd (fencing_exec db op)) r =
    (case fst (fencing_exec db op) of
       Inr (TokenIs t) \<Rightarrow> if ft_resource t = r then Some t else current_token db r
     | _ \<Rightarrow> current_token db r)"
  using inv
proof (cases rule: fencing_exec_cases [of db op])
  case same
  then show ?thesis by (simp split: sum.split fencing_result.split)
next
  case opened
  then have "fencing_state db = []" using inv by (simp add: fencing_inv_def)
  with opened show ?thesis by (simp add: current_token_def)
next
  case acquired
  then show ?thesis by (simp add: current_token_def del: fencing_exec.simps)
next
  case (written token v row)
  then show ?thesis by (simp add: current_token_def del: fencing_exec.simps)
qed

interpretation fencing: versioned_store fencing_exec fencing_inv epoch_of
  "\<lambda>db r. map_option (\<lambda>row. (f_epoch row, f_operation_id row)) (select_key (fencing_state db) r)"
  by unfold_locales (use fencing_exec_inv fencing_exec_fail fencing_version_step in blast)+

lemma write_accepted_iff:
  assumes "fencing_inv db"
  shows "returns (fst (write_value token v db)) \<longleftrightarrow>
    current_token db (ft_resource token) = Some token"
proof -
  have "generation db \<noteq> None" if "select_key (fencing_state db) (ft_resource token) \<noteq> None"
    using assms that by (auto simp: fencing_inv_def)
  then show ?thesis
    using fencing_inv_row(3) [OF assms, of "ft_resource token"]
    by (cases token; cases "select_key (fencing_state db) (ft_resource token)")
      (auto simp: write_value_def current_token_def)
qed

subsection \<open>Who may write\<close>

text \<open>The last token issued for a resource, read off the outcomes of a schedule.\<close>

fun last_issued :: "string \<Rightarrow> fencing_result result list \<Rightarrow> FencingToken option" where
  "last_issued r [] = None"
| "last_issued r (x # xs) =
     (case last_issued r xs of
        Some t \<Rightarrow> Some t
      | None \<Rightarrow> (case x of Inr (TokenIs t) \<Rightarrow> if ft_resource t = r then Some t else None | _ \<Rightarrow> None))"

lemma current_token_after:
  "fencing_inv db \<Longrightarrow> current_token (after fencing_exec db ops) r =
     (case last_issued r (outcomes fencing_exec db ops) of None \<Rightarrow> current_token db r | Some t \<Rightarrow> Some t)"
proof (induction ops arbitrary: db)
  case Nil
  then show ?case by simp
next
  case (Cons op ops)
  have "fencing_inv (snd (fencing_exec db op))" using Cons.prems by (rule fencing_exec_inv)
  from Cons.IH [OF this] current_token_step [OF Cons.prems, of op r] show ?case
    by (auto simp del: fencing_exec.simps split: option.splits sum.splits fencing_result.splits)
qed

text \<open>
  C10: A fenced write is accepted exactly when it carries the last token issued for its resource. On a
  fresh store, after any operations of any executors, a write with a token returns if and only if
  the most recent acquisition of that resource returned that very token.
\<close>

theorem write_needs_last_issued_token:
  "returns (fst (write_value token v (after fencing_exec new_fencing_file ops))) \<longleftrightarrow>
     last_issued (ft_resource token) (outcomes fencing_exec new_fencing_file ops) = Some token"
proof -
  have "fencing_inv (after fencing_exec new_fencing_file ops)"
    using fencing_inv_new by (rule fencing.after_inv)
  moreover have "current_token new_fencing_file (ft_resource token) = None"
    by (simp add: current_token_def new_fencing_file_def)
  ultimately show ?thesis
    using current_token_after [OF fencing_inv_new, of ops "ft_resource token"]
    by (simp add: write_accepted_iff split: option.splits)
qed

text \<open>
  A superseded token is refused for ever and changes nothing. Once the epoch of a resource has
  passed the token's, every later write with it raises and leaves the database as it was.
\<close>

theorem superseded_token_is_refused:
  assumes "fencing_inv db" and "ft_epoch token < epoch_of db (ft_resource token)"
    and "now = after fencing_exec db ops"
  shows "\<not> returns (fst (write_value token v now)) \<and> snd (write_value token v now) = now"
proof -
  have inv: "fencing_inv now" unfolding assms(3) using assms(1) by (rule fencing.after_inv)
  have "ft_epoch token < epoch_of now (ft_resource token)"
    unfolding assms(3) using assms(1,2) by (rule fencing.superseded_stays)
  then have "current_token now (ft_resource token) \<noteq> Some token"
    by (cases token) (auto simp: current_token_def epoch_of_def)
  with inv have "\<not> returns (fst (write_value token v now))" by (simp add: write_accepted_iff)
  moreover from this have "snd (write_value token v now) = now"
    by (simp add: write_value_def snd_transaction)
  ultimately show ?thesis ..
qed

definition issues_for :: "string \<Rightarrow> fencing_op \<Rightarrow> fencing_result \<Rightarrow> bool" where
  "issues_for r op x = (case x of TokenIs t \<Rightarrow> ft_resource t = r | _ \<Rightarrow> False)"

lemma epoch_step:
  assumes "fencing_inv db"
  shows "epoch_of (snd (fencing_exec db op)) r =
    epoch_of db r + int (successes (issues_for r) [op] [fst (fencing_exec db op)])"
  using assms
proof (cases rule: fencing_exec_cases [of db op])
  case same
  then show ?thesis
    by (auto simp: successes_def issues_for_def split: sum.splits fencing_result.splits)
next
  case opened
  then show ?thesis by (simp add: successes_def issues_for_def epoch_of_def)
next
  case acquired
  then show ?thesis by (simp add: successes_def issues_for_def epoch_of_def del: fencing_exec.simps)
next
  case (written token v row)
  then show ?thesis
    by (simp add: successes_def issues_for_def epoch_of_def del: fencing_exec.simps split: option.split)
qed

lemma successes_step:
  "successes Q (op # ops) (x # xs) = successes Q [op] [x] + successes Q ops xs"
  by (simp add: successes_def)

lemma epoch_after:
  "fencing_inv db \<Longrightarrow> epoch_of (after fencing_exec db ops) r =
     epoch_of db r + int (successes (issues_for r) ops (outcomes fencing_exec db ops))"
proof (induction ops arbitrary: db)
  case Nil
  then show ?case by (simp add: successes_def)
next
  case (Cons op ops)
  have "fencing_inv (snd (fencing_exec db op))" using Cons.prems by (rule fencing_exec_inv)
  from Cons.IH [OF this] epoch_step [OF Cons.prems, of op r] successes_step [of "issues_for r" op ops]
  show ?case by (simp del: fencing_exec.simps)
qed

text \<open>
  Epochs count acquisitions, so tokens are unique. On a fresh store the epoch of a resource
  after any operations is the number of acquisitions that succeeded for it, and a further successful
  acquisition issues exactly the next number, bound to its resource, operation and the store's generation.
\<close>

theorem epochs_count_acquisitions:
  "let now = after fencing_exec new_fencing_file ops;
       n = int (successes (issues_for r) ops (outcomes fencing_exec new_fencing_file ops))
   in epoch_of now r = n \<and>
      (fst (acquire handle r i now) = Inr t \<longrightarrow>
         generation now = Some handle \<and>
         t = \<lparr>ft_resource = r, ft_operation_id = i, ft_epoch = n + 1, ft_store_generation = Some handle\<rparr> \<and>
         epoch_of (snd (acquire handle r i now)) r = n + 1)"
proof -
  let ?now = "after fencing_exec new_fencing_file ops"
  have n: "epoch_of ?now r = int (successes (issues_for r) ops (outcomes fencing_exec new_fencing_file ops))"
    using epoch_after [OF fencing_inv_new, of ops r] by (simp add: epoch_of_def new_fencing_file_def)
  have inv: "fencing_inv ?now" using fencing_inv_new by (rule fencing.after_inv)
  have "generation ?now = Some handle \<and>
      t = \<lparr>ft_resource = r, ft_operation_id = i, ft_epoch = epoch_of ?now r + 1, ft_store_generation = Some handle\<rparr> \<and>
      epoch_of (snd (acquire handle r i ?now)) r = epoch_of ?now r + 1" if t: "fst (acquire handle r i ?now) = Inr t"
  proof -
    have out: "fst (fencing_exec ?now (Acquire handle r i)) = Inr (TokenIs t)" using t by (simp add: fst_wrap)
    show ?thesis
      using inv
    proof (cases rule: fencing_exec_cases [of ?now "Acquire handle r i"])
      case same
      with out show ?thesis by blast
    next
      case (acquired handle' r' i' v)
      then have "handle' = handle" "r' = r" "i' = i" by simp_all
      with acquired out show ?thesis by (simp add: epoch_of_def)
    qed (simp_all del: fencing_exec.simps)
  qed
  with n show ?thesis by (simp add: Let_def)
qed

subsection \<open>Refinement of the pure model\<close>

text \<open>
  C38: The store refines the pure model. Take a state that \<open>state\<close> reads from the store for an
  acquired resource. An acquisition through a current handle issues the pure model's token, stamped
  with the generation, and a write with a token of this generation returns or raises exactly as
  the pure write; either leaves the store in the pure model's next state.
\<close>

theorem fencing_refines_pure_model:
  assumes "fencing_inv db" and "generation db = Some g" and "fits_int64 (epoch_of db r + 1)"
    and "fst (state_of r db) = Inr st" and "fs_operation_id st \<noteq> None"
  shows "(\<not> blank i \<longrightarrow>
      (\<exists>st' t. acquire_authority st i = Inr (st', t) \<and>
         fst (acquire g r i db) = Inr (t\<lparr>ft_store_generation := Some g\<rparr>) \<and>
         fst (state_of r (snd (acquire g r i db))) = Inr st')) \<and>
    (ft_resource token = r \<and> ft_store_generation token = Some g \<longrightarrow>
      (case fenced_write st token v of
         Inl e \<Rightarrow> write_value token v db = (Inl e, db)
       | Inr st' \<Rightarrow> fst (write_value token v db) = Inr () \<and>
           fst (state_of r (snd (write_value token v db))) = Inr st'))"
proof -
  obtain row where row: "select_key (fencing_state db) r = Some row"
    using assms(4,5) by (auto simp: state_of_def mk_FencedState_def split: option.splits if_splits)
  note ok = fencing_inv_row [OF assms(1) row]
  have st: "st = \<lparr>fs_resource = r, fs_epoch = f_epoch row, fs_operation_id = f_operation_id row, fs_value = f_value row\<rparr>"
    using assms(4) row by (simp add: state_of_def mk_FencedState_def split: if_splits)
  have g: "\<not> blank g" using assms(1,2) by (simp add: fencing_inv_def)
  have e: "epoch_of db r = f_epoch row" by (simp add: epoch_of_def row)
  show ?thesis
  proof (intro conjI impI)
    assume i: "\<not> blank i"
    have "acquire_authority st i = Inr (st\<lparr>fs_epoch := f_epoch row + 1, fs_operation_id := Some i\<rparr>,
        \<lparr>ft_resource = r, ft_operation_id = i, ft_epoch = f_epoch row + 1, ft_store_generation = None\<rparr>)"
      using i ok by (simp add: acquire_authority_def mk_FencingToken_def mk_FencedState_def st Let_def)
    moreover have "acquire g r i db = (Inr \<lparr>ft_resource = r, ft_operation_id = i, ft_epoch = f_epoch row + 1,
          ft_store_generation = Some g\<rparr>, db\<lparr>fencing_state := upsert_row r
          \<lparr>f_epoch = f_epoch row + 1, f_operation_id = Some i, f_value = f_value row\<rparr> (fencing_state db)\<rparr>)"
      using i ok g row assms(2,3) e
      by (simp add: acquire_def acquire_txn_def transaction_def mk_FencingToken_def Let_def)
    ultimately show "\<exists>st' t. acquire_authority st i = Inr (st', t) \<and>
         fst (acquire g r i db) = Inr (t\<lparr>ft_store_generation := Some g\<rparr>) \<and>
         fst (state_of r (snd (acquire g r i db))) = Inr st'"
      using ok by (simp add: state_of_def mk_FencedState_def st)
  next
    assume "ft_resource token = r \<and> ft_store_generation token = Some g"
    then show "case fenced_write st token v of
         Inl e \<Rightarrow> write_value token v db = (Inl e, db)
       | Inr st' \<Rightarrow> fst (write_value token v db) = Inr () \<and>
           fst (state_of r (snd (write_value token v db))) = Inr st'"
      using ok row assms(2)
      by (auto simp: fenced_write_def write_value_def transaction_def state_of_def mk_FencedState_def st)
  qed
qed

lemma generation_stays:
  "generation db = Some g \<Longrightarrow> fencing_inv db \<Longrightarrow> generation (snd (fencing_exec db op)) = Some g"
  by (cases rule: fencing_exec_cases [of db op]) (simp_all del: fencing_exec.simps)

text \<open>
  A replaced store honours no old token and no old handle. If the file now in place has another
  generation than the one under which a token or a handle was obtained, then after any operations
  on it every write with the token and every acquisition through the handle raises \<open>FencingConflict\<close>,
  even where resource, operation and epoch coincide.
\<close>

theorem replaced_store_refuses_old_authority:
  assumes "fencing_inv db" and "generation db = Some g"
    and "ft_store_generation token = Some old" and "old \<noteq> g" and "\<not> blank r" and "\<not> blank i"
    and "now = after fencing_exec db ops"
  shows "raises FencingConflict (fst (write_value token v now)) \<and> snd (write_value token v now) = now \<and>
         raises FencingConflict (fst (acquire old r i now)) \<and> snd (acquire old r i now) = now"
proof -
  have "generation now = Some g"
    unfolding assms(7)
    using fencing.after_stable [of "\<lambda>db. generation db = Some g" db ops] generation_stays assms(1,2) by blast
  with assms(3-6) show ?thesis
    by (simp add: write_value_def acquire_def acquire_txn_def transaction_def)
qed

subsection \<open>Concrete runs\<close>

definition lease_run :: "fencing_op list" where
  "lease_run = [OpenFencing 0, Acquire (generation_text 0) ''repo'' ''op-a'', Acquire (generation_text 0) ''repo'' ''op-b'']"

definition lease_db :: fencing_db where
  "lease_db = \<lparr>generation = Some (generation_text 0),
     fencing_state = [(''repo'', \<lparr>f_epoch = 2, f_operation_id = Some ''op-b'', f_value = None\<rparr>)]\<rparr>"

definition lease_token :: "string \<Rightarrow> int \<Rightarrow> FencingToken" where
  "lease_token i n =
     \<lparr>ft_resource = ''repo'', ft_operation_id = i, ft_epoch = n, ft_store_generation = Some (generation_text 0)\<rparr>"

lemma lease_names:
  "\<not> blank ''repo''" "\<not> blank ''op-a''" "\<not> blank ''op-b''" "\<not> blank ''op-c''"
  by (simp_all add: blank_iff py_isspace_def)

lemma lease_run_db: "after fencing_exec new_fencing_file lease_run = lease_db"
  by (simp add: lease_run_def lease_db_def new_fencing_file_def open_fencing_def acquire_def acquire_txn_def
      transaction_def wrap_def mk_FencingToken_def Let_def fits_int64_def lease_names
      generation_text_not_blank upsert_row_def select_key_def)

lemma lease_db_inv: "fencing_inv lease_db"
  using fencing.after_inv [OF fencing_inv_new, of lease_run] by (simp add: lease_run_db)

lemma superseded_token_is_refused_witness:
  "\<not> returns (fst (write_value (lease_token ''op-a'' 1) ''v'' (after fencing_exec lease_db [OpenFencing 7]))) \<and>
   snd (write_value (lease_token ''op-a'' 1) ''v'' (after fencing_exec lease_db [OpenFencing 7])) =
     after fencing_exec lease_db [OpenFencing 7]"
  by (rule superseded_token_is_refused [OF lease_db_inv _ refl])
    (simp add: lease_token_def epoch_of_def lease_db_def select_key_def)

lemma epochs_count_acquisitions_witness:
  "fst (acquire (generation_text 0) ''repo'' ''op-c'' (after fencing_exec new_fencing_file lease_run)) =
     Inr (lease_token ''op-c'' 3) \<and>
   lease_token ''op-c'' 3 = \<lparr>ft_resource = ''repo'', ft_operation_id = ''op-c'',
     ft_epoch = int (successes (issues_for ''repo'') lease_run (outcomes fencing_exec new_fencing_file lease_run)) + 1,
     ft_store_generation = Some (generation_text 0)\<rparr>"
proof -
  have "fst (acquire (generation_text 0) ''repo'' ''op-c'' (after fencing_exec new_fencing_file lease_run)) =
      Inr (lease_token ''op-c'' 3)"
    by (simp add: lease_run_db lease_db_def lease_token_def acquire_def acquire_txn_def
        transaction_def mk_FencingToken_def Let_def fits_int64_def lease_names
        generation_text_not_blank select_key_def)
  then show ?thesis
    using epochs_count_acquisitions [of lease_run "''repo''" "generation_text 0" "''op-c''" "lease_token ''op-c'' 3"]
    by (simp add: Let_def)
qed

lemma fencing_refines_pure_model_witness:
  "fst (write_value (lease_token ''op-b'' 2) ''v'' lease_db) = Inr ()"
proof -
  let ?st = "\<lparr>fs_resource = ''repo'', fs_epoch = 2, fs_operation_id = Some ''op-b'', fs_value = None\<rparr>"
  have st: "fst (state_of ''repo'' lease_db) = Inr ?st"
    by (simp add: state_of_def lease_db_def select_key_def mk_FencedState_def blank_iff py_isspace_def)
  have g: "generation lease_db = Some (generation_text 0)" by (simp add: lease_db_def)
  have fits: "fits_int64 (epoch_of lease_db ''repo'' + 1)"
    by (simp add: fits_int64_def epoch_of_def lease_db_def select_key_def)
  have "fenced_write ?st (lease_token ''op-b'' 2) ''v'' = Inr (?st\<lparr>fs_value := Some ''v''\<rparr>)"
    by (simp add: fenced_write_def lease_token_def mk_FencedState_def blank_iff py_isspace_def)
  then show ?thesis
    using fencing_refines_pure_model [OF lease_db_inv g fits st, of "''op-c''" "lease_token ''op-b'' 2" "''v''"]
    by (simp add: lease_token_def)
qed

lemma replaced_store_refuses_old_authority_witness:
  "raises FencingConflict (fst (write_value (lease_token ''op-b'' 2\<lparr>ft_store_generation := Some ''old''\<rparr>) ''v''
     (after fencing_exec lease_db [])))"
proof -
  have g: "generation lease_db = Some (generation_text 0)" by (simp add: lease_db_def)
  have "length ''old'' \<noteq> length (generation_text 0)" by (simp add: generation_text_def)
  then have "''old'' \<noteq> generation_text 0" by metis
  moreover have "\<not> blank ''repo''" by (simp add: blank_iff py_isspace_def)
  ultimately show ?thesis
    using replaced_store_refuses_old_authority [OF lease_db_inv g _ _ _ _ refl,
        of "lease_token ''op-b'' 2\<lparr>ft_store_generation := Some ''old''\<rparr>" "''old''" "''repo''" "''repo''" "''v''" "[]"]
    by simp
qed

end
