(* ===== verification/Recovery.thy ===== *)
theory Recovery
  imports Store Digest
begin

section \<open>Checkpointed recovery of partial progress (\<open>recovery.py\<close>)\<close>

text \<open>
  A run is bound to an exact plan; its progress is a linear chain of checkpoints with one head.
  The model has both tables and every method with its checks in order. Proved: the checkpoints of
  a run are always one chain of strictly increasing progress, bindings and checkpoints never
  change, no run forks, resuming returns exactly the remaining operations of the bound plan,
  superseded checkpoints are refused for ever, and committing a checkpoint is idempotent.
\<close>

subsection \<open>Data\<close>

record RecoveryOperation =
  ro_operation_id :: string
  ro_tool :: string
  ro_payload :: string

definition mk_RecoveryOperation :: "pyval \<Rightarrow> pyval \<Rightarrow> pyval \<Rightarrow> RecoveryOperation result" where
  "mk_RecoveryOperation operation_id tool payload =
     (if not_nonempty_str operation_id then raise ValueError ''operation_id must be a nonempty string''
      else if not_nonempty_str tool then raise ValueError ''tool must be a nonempty string''
      else if \<not> is_str payload then raise TypeError ''payload must be a string; recovery matching is exact''
      else Inr \<lparr>ro_operation_id = str_of operation_id, ro_tool = str_of tool, ro_payload = str_of payload\<rparr>)"

record RecoveryCheckpoint =
  cp_run_id :: string
  cp_checkpoint_id :: string
  cp_sequence :: int
  cp_parent_checkpoint_id :: "string option"
  cp_plan_sha256 :: string
  cp_completed_count :: int

record run_row =
  run_plan_json :: string
  run_plan_sha256 :: string
  run_operation_count :: int
  run_head_checkpoint_id :: string

record checkpoint_row =
  ck_sequence :: int
  ck_parent :: "string option"
  ck_plan_sha256 :: string
  ck_completed_count :: int

record recovery_db =
  schema_version :: int
  runs :: "(string, run_row) table"
  checkpoints :: "(string \<times> string, checkpoint_row) table"

definition new_recovery_file :: recovery_db where
  "new_recovery_file = \<lparr>schema_version = 0, runs = [], checkpoints = []\<rparr>"

subsection \<open>Helpers of the store\<close>

definition plan_json :: "RecoveryOperation list \<Rightarrow> string" where
  "plan_json plan = json_array (map (\<lambda>op. json_strings [ro_operation_id op, ro_tool op, ro_payload op]) plan)"

definition materialize_plan ::
  "RecoveryOperation list \<Rightarrow> (RecoveryOperation list \<times> string \<times> string) result" where
  "materialize_plan plan =
     (if plan = [] then raise ValueError ''recovery plan must contain at least one operation''
      else
        let operation_ids = map ro_operation_id plan in
        if length operation_ids \<noteq> length (remdups operation_ids)
        then raise ValueError ''recovery plan operation_ids must be unique''
        else Inr (plan, plan_json plan, sha256_text (plan_json plan)))"

definition checkpoint_from_row :: "string \<times> string \<Rightarrow> checkpoint_row \<Rightarrow> RecoveryCheckpoint" where
  "checkpoint_from_row k row =
     \<lparr>cp_run_id = fst k, cp_checkpoint_id = snd k, cp_sequence = ck_sequence row,
      cp_parent_checkpoint_id = ck_parent row, cp_plan_sha256 = ck_plan_sha256 row,
      cp_completed_count = ck_completed_count row\<rparr>"

definition load_checkpoint :: "recovery_db \<Rightarrow> string \<Rightarrow> string \<Rightarrow> RecoveryCheckpoint option" where
  "load_checkpoint db run_id checkpoint_id =
     map_option (checkpoint_from_row (run_id, checkpoint_id)) (select_key (checkpoints db) (run_id, checkpoint_id))"

text \<open>\<open>INSERT INTO recovery_checkpoints\<close>: key, row, and the two uniqueness constraints of the table.\<close>

definition checkpoint_to_row :: "RecoveryCheckpoint \<Rightarrow> checkpoint_row" where
  "checkpoint_to_row cp =
     \<lparr>ck_sequence = cp_sequence cp, ck_parent = cp_parent_checkpoint_id cp,
      ck_plan_sha256 = cp_plan_sha256 cp, ck_completed_count = cp_completed_count cp\<rparr>"

definition insert_checkpoint :: "RecoveryCheckpoint \<Rightarrow> (recovery_db, unit) txn" where
  "insert_checkpoint cp db =
     (if \<not> fits_int64 (cp_sequence cp) \<or> \<not> fits_int64 (cp_completed_count cp) then (overflow, db)
      else if select_key (checkpoints db) (cp_run_id cp, cp_checkpoint_id cp) \<noteq> None \<or>
        list_ex (\<lambda>((r, c), row). r = cp_run_id cp \<and> ck_sequence row = cp_sequence cp) (checkpoints db)
      then (raise IntegrityError ''UNIQUE constraint failed: recovery_checkpoints'', db)
      else (Inr (), db\<lparr>checkpoints :=
             insert_row (cp_run_id cp, cp_checkpoint_id cp) (checkpoint_to_row cp) (checkpoints db)\<rparr>))"

text \<open>The slice \<open>xs[n:]\<close>; a negative index counts from the end.\<close>

definition slice_from :: "int \<Rightarrow> 'a list \<Rightarrow> 'a list" where
  "slice_from n xs = (if n < 0 then drop (nat (int (length xs) + n)) xs else drop (nat n) xs)"

subsection \<open>The methods\<close>

definition open_recovery :: "string \<Rightarrow> (recovery_db, unit) txn" where
  "open_recovery database db =
     (if database = '':memory:''
      then (raise ValueError ''a file-backed database is required for restart recovery'', db)
      else transaction (\<lambda>db.
        if schema_version db \<noteq> 0 \<and> schema_version db \<noteq> 1
        then (raise ValueError (''unsupported checkpoint database schema: '' @ show_int (schema_version db)), db)
        else (Inr (), db\<lparr>schema_version := 1\<rparr>)) db)"

definition start_txn ::
  "string \<Rightarrow> string \<Rightarrow> RecoveryOperation list \<Rightarrow> string \<Rightarrow> string \<Rightarrow> (recovery_db, RecoveryCheckpoint) txn" where
  "start_txn run_id checkpoint_id plan json sha db =
     (let initial = \<lparr>cp_run_id = run_id, cp_checkpoint_id = checkpoint_id, cp_sequence = 0,
                     cp_parent_checkpoint_id = None, cp_plan_sha256 = sha, cp_completed_count = 0\<rparr> in
      case select_key (runs db) run_id of
        None \<Rightarrow>
          if \<not> fits_int64 (int (length plan)) then (overflow, db)
          else
            let db1 = db\<lparr>runs := insert_row run_id
                  \<lparr>run_plan_json = json, run_plan_sha256 = sha, run_operation_count = int (length plan),
                   run_head_checkpoint_id = checkpoint_id\<rparr> (runs db)\<rparr> in
            (case insert_checkpoint initial db1 of
               (Inl e, db2) \<Rightarrow> (Inl e, db2)
             | (Inr u, db2) \<Rightarrow> (Inr initial, db2))
      | Some run \<Rightarrow>
          if (run_plan_json run, run_plan_sha256 run, run_operation_count run) \<noteq> (json, sha, int (length plan))
          then (raise CheckpointConflict ''run_id is already bound to a different exact plan'', db)
          else
            let existing = load_checkpoint db run_id checkpoint_id in
            if existing \<noteq> Some initial
            then (raise CheckpointConflict ''initial checkpoint identity conflicts with persisted lineage'', db)
            else (Inr initial, db))"

definition start ::
  "pyval \<Rightarrow> RecoveryOperation list \<Rightarrow> pyval \<Rightarrow> (recovery_db, RecoveryCheckpoint) txn" where
  "start run_id ops checkpoint_id db =
     (if not_nonempty_str run_id then (raise ValueError ''run_id must be a nonempty string'', db)
      else if not_nonempty_str checkpoint_id then (raise ValueError ''checkpoint_id must be a nonempty string'', db)
      else case materialize_plan ops of
        Inl e \<Rightarrow> (Inl e, db)
      | Inr (plan, json, sha) \<Rightarrow>
          transaction (start_txn (str_of run_id) (str_of checkpoint_id) plan json sha) db)"

definition current_checkpoint :: "string \<Rightarrow> (recovery_db, RecoveryCheckpoint) txn" where
  "current_checkpoint run_id = transaction (\<lambda>db.
     case select_key (runs db) run_id of
       None \<Rightarrow> (raise CheckpointConflict (''unknown recovery run: '' @ run_id), db)
     | Some run \<Rightarrow>
         (case load_checkpoint db run_id (run_head_checkpoint_id run) of
            None \<Rightarrow> (raise CheckpointConflict ''persisted recovery head is missing'', db)
          | Some cp \<Rightarrow> (Inr cp, db)))"

definition advance_txn :: "RecoveryCheckpoint \<Rightarrow> string \<Rightarrow> int \<Rightarrow> (recovery_db, RecoveryCheckpoint) txn" where
  "advance_txn parent checkpoint_id completed_count db =
     (case select_key (runs db) (cp_run_id parent) of
        None \<Rightarrow> (raise CheckpointConflict (''unknown recovery run: '' @ cp_run_id parent), db)
      | Some run \<Rightarrow>
          if load_checkpoint db (cp_run_id parent) (cp_checkpoint_id parent) \<noteq> Some parent
          then (raise CheckpointConflict ''parent checkpoint does not match persisted lineage'', db)
          else
            let candidate = \<lparr>cp_run_id = cp_run_id parent, cp_checkpoint_id = checkpoint_id,
                  cp_sequence = cp_sequence parent + 1, cp_parent_checkpoint_id = Some (cp_checkpoint_id parent),
                  cp_plan_sha256 = run_plan_sha256 run, cp_completed_count = completed_count\<rparr> in
            case load_checkpoint db (cp_run_id parent) checkpoint_id of
              Some existing \<Rightarrow>
                if existing = candidate \<and> run_head_checkpoint_id run = checkpoint_id then (Inr existing, db)
                else (raise CheckpointConflict ''checkpoint_id is already bound to different progress'', db)
            | None \<Rightarrow>
                if run_head_checkpoint_id run \<noteq> cp_checkpoint_id parent
                then (raise StaleCheckpoint (''checkpoint '' @ cp_checkpoint_id parent @ '' is stale; current head is '' @
                        run_head_checkpoint_id run), db)
                else if cp_plan_sha256 parent \<noteq> run_plan_sha256 run
                then (raise CheckpointConflict ''parent checkpoint plan binding does not match the run'', db)
                else if completed_count \<le> cp_completed_count parent
                then (raise CheckpointConflict ''checkpoint progress must advance beyond its parent'', db)
                else if run_operation_count run < completed_count
                then (raise CheckpointConflict ''checkpoint progress exceeds the bound recovery plan'', db)
                else (case insert_checkpoint candidate db of
                        (Inl e, db1) \<Rightarrow> (Inl e, db1)
                      | (Inr u, db1) \<Rightarrow> (Inr candidate, db1\<lparr>runs := update_row (cp_run_id parent)
                          (\<lambda>r. r\<lparr>run_head_checkpoint_id := checkpoint_id\<rparr>) (runs db1)\<rparr>)))"

definition advance ::
  "RecoveryCheckpoint \<Rightarrow> pyval \<Rightarrow> pyval \<Rightarrow> (recovery_db, RecoveryCheckpoint) txn" where
  "advance parent checkpoint_id completed_count db =
     (if not_nonempty_str checkpoint_id then (raise ValueError ''checkpoint_id must be a nonempty string'', db)
      else case completed_count of
        PInt n \<Rightarrow> transaction (advance_txn parent (str_of checkpoint_id) n) db
      | _ \<Rightarrow> (raise TypeError ''completed_count must be an integer'', db))"

definition resume ::
  "RecoveryCheckpoint \<Rightarrow> RecoveryOperation list \<Rightarrow> (recovery_db, RecoveryOperation list) txn" where
  "resume cp ops db =
     (case materialize_plan ops of
        Inl e \<Rightarrow> (Inl e, db)
      | Inr (plan, json, sha) \<Rightarrow>
          transaction (\<lambda>db.
            case select_key (runs db) (cp_run_id cp) of
              None \<Rightarrow> (raise CheckpointConflict (''unknown recovery run: '' @ cp_run_id cp), db)
            | Some run \<Rightarrow>
                if (run_plan_json run, run_plan_sha256 run, run_operation_count run) \<noteq> (json, sha, int (length plan))
                then (raise CheckpointConflict ''resume plan does not match the run's exact bound plan'', db)
                else if load_checkpoint db (cp_run_id cp) (cp_checkpoint_id cp) \<noteq> Some cp
                then (raise CheckpointConflict ''resume checkpoint does not match persisted lineage'', db)
                else if run_head_checkpoint_id run \<noteq> cp_checkpoint_id cp
                then (raise StaleCheckpoint (''checkpoint '' @ cp_checkpoint_id cp @ '' is stale; current head is '' @
                        run_head_checkpoint_id run), db)
                else (Inr (slice_from (cp_completed_count cp) plan), db)) db)"

subsection \<open>The store contract\<close>

datatype recovery_op =
    OpenRecovery string | Start pyval "RecoveryOperation list" pyval | CurrentCheckpoint string
  | Advance RecoveryCheckpoint pyval pyval | Resume RecoveryCheckpoint "RecoveryOperation list"

datatype recovery_result = RecoveryDone | CheckpointIs RecoveryCheckpoint | Remaining "RecoveryOperation list"

fun recovery_exec :: "recovery_db \<Rightarrow> recovery_op \<Rightarrow> recovery_result result \<times> recovery_db" where
  "recovery_exec db (OpenRecovery path) = wrap (\<lambda>_. RecoveryDone) (open_recovery path db)"
| "recovery_exec db (Start r ops c) = wrap CheckpointIs (start r ops c db)"
| "recovery_exec db (CurrentCheckpoint r) = wrap CheckpointIs (current_checkpoint r db)"
| "recovery_exec db (Advance parent c n) = wrap CheckpointIs (advance parent c n db)"
| "recovery_exec db (Resume cp ops) = wrap Remaining (resume cp ops db)"

lemma plan_json_inj: "plan_json xs = plan_json ys \<Longrightarrow> xs = ys"
proof -
  let ?f = "\<lambda>op :: RecoveryOperation. [ro_operation_id op, ro_tool op, ro_payload op]"
  assume "plan_json xs = plan_json ys"
  then have "json_array (map json_strings (map ?f xs)) = json_array (map json_strings (map ?f ys))"
    by (simp add: plan_json_def comp_def)
  then have "map ?f xs = map ?f ys" by (rule json_nested_inj)
  moreover have eq: "x = y" if "?f x = ?f y" for x y :: RecoveryOperation
    using that by (cases x; cases y) simp
  have "inj ?f" by (rule injI) (rule eq)
  then show "xs = ys" using calculation by (simp only: inj_map_eq_map)
qed

subsection \<open>The invariant: every run is one chain\<close>

text \<open>
  \<open>cs\<close> are the checkpoint ids of a run from the first to the head and \<open>ns\<close> their progress: the
  table holds for the run exactly the rows of this chain, each the parent of the next.
\<close>

definition chain_row :: "string list \<Rightarrow> int list \<Rightarrow> string \<Rightarrow> nat \<Rightarrow> checkpoint_row" where
  "chain_row cs ns sha i =
     \<lparr>ck_sequence = int i, ck_parent = (if i = 0 then None else Some (cs ! (i - 1))),
      ck_plan_sha256 = sha, ck_completed_count = ns ! i\<rparr>"

definition lineage_chain :: "recovery_db \<Rightarrow> string \<Rightarrow> run_row \<Rightarrow> string list \<Rightarrow> int list \<Rightarrow> bool" where
  "lineage_chain db run_id run cs ns \<longleftrightarrow>
     cs \<noteq> [] \<and> distinct cs \<and> length ns = length cs \<and> sorted_wrt (<) ns \<and> hd ns = 0 \<and>
     last ns \<le> run_operation_count run \<and> run_head_checkpoint_id run = last cs \<and>
     (\<forall>i < length cs. select_key (checkpoints db) (run_id, cs ! i) = Some (chain_row cs ns (run_plan_sha256 run) i)) \<and>
     (\<forall>c. c \<notin> set cs \<longrightarrow> select_key (checkpoints db) (run_id, c) = None)"

definition bound_to :: "run_row \<Rightarrow> RecoveryOperation list \<Rightarrow> bool" where
  "bound_to run plan \<longleftrightarrow>
     plan \<noteq> [] \<and> distinct (map ro_operation_id plan) \<and> run_plan_json run = plan_json plan \<and>
     run_plan_sha256 run = sha256_text (plan_json plan) \<and> run_operation_count run = int (length plan)"

definition recovery_inv :: "recovery_db \<Rightarrow> bool" where
  "recovery_inv db \<longleftrightarrow>
     primary_key (runs db) \<and> primary_key (checkpoints db) \<and>
     (\<forall>r run. select_key (runs db) r = Some run \<longrightarrow>
        fits_int64 (run_operation_count run) \<and> (\<exists>plan. bound_to run plan) \<and> (\<exists>cs ns. lineage_chain db r run cs ns)) \<and>
     (\<forall>r c. select_key (runs db) r = None \<longrightarrow> select_key (checkpoints db) (r, c) = None)"

lemma recovery_invD:
  assumes "recovery_inv db"
  shows "primary_key (runs db)" "primary_key (checkpoints db)"
    "select_key (runs db) r = Some run \<Longrightarrow> fits_int64 (run_operation_count run)"
    "select_key (runs db) r = Some run \<Longrightarrow> \<exists>plan. bound_to run plan"
    "select_key (runs db) r = Some run \<Longrightarrow> \<exists>cs ns. lineage_chain db r run cs ns"
    "select_key (runs db) r = None \<Longrightarrow> select_key (checkpoints db) (r, c) = None"
  using assms unfolding recovery_inv_def by blast+

lemma recovery_inv_new: "recovery_inv new_recovery_file"
  by (simp add: recovery_inv_def new_recovery_file_def)

lemma materialize_plan_Inr:
  "materialize_plan ops = Inr (plan, json, sha) \<longleftrightarrow>
     plan = ops \<and> ops \<noteq> [] \<and> distinct (map ro_operation_id ops) \<and> json = plan_json ops \<and> sha = sha256_text (plan_json ops)"
proof -
  have "length (map ro_operation_id ops) = length (remdups (map ro_operation_id ops)) \<longleftrightarrow> distinct (map ro_operation_id ops)"
    by (metis length_remdups_eq remdups_id_iff_distinct)
  then show ?thesis by (auto simp: materialize_plan_def Let_def)
qed

lemma sorted_wrt_less_nth_le: "sorted_wrt (<) (ns :: int list) \<Longrightarrow> i \<le> j \<Longrightarrow> j < length ns \<Longrightarrow> ns ! i \<le> ns ! j"
  by (cases "i = j") (auto simp: sorted_wrt_iff_nth_less less_imp_le)

lemma sorted_wrt_less_index: "sorted_wrt (<) (ns :: int list) \<Longrightarrow> 0 \<le> hd ns \<Longrightarrow> i < length ns \<Longrightarrow> int i \<le> ns ! i"
proof (induction i)
  case 0
  then show ?case by (simp add: hd_conv_nth)
next
  case (Suc i)
  then have "ns ! i < ns ! Suc i" by (simp add: sorted_wrt_iff_nth_less)
  with Suc show ?case by simp
qed

lemma chain_bounds:
  assumes "lineage_chain db r run cs ns" "i < length cs"
  shows "int i \<le> ns ! i" "ns ! i \<le> run_operation_count run"
proof -
  from assms have *: "sorted_wrt (<) ns" "i < length ns" "hd ns = 0" "last ns \<le> run_operation_count run" "ns \<noteq> []"
    by (auto simp: lineage_chain_def)
  then show "int i \<le> ns ! i" by (intro sorted_wrt_less_index) simp_all
  have "ns ! i \<le> ns ! (length ns - 1)" using * by (intro sorted_wrt_less_nth_le) simp_all
  then show "ns ! i \<le> run_operation_count run" using * by (simp add: last_conv_nth)
qed

text \<open>A loaded checkpoint is one of the chain.\<close>

lemma chain_load:
  assumes "lineage_chain db r run cs ns" "load_checkpoint db r c = Some cp"
  obtains i where "i < length cs" "c = cs ! i" "cp = checkpoint_from_row (r, c) (chain_row cs ns (run_plan_sha256 run) i)"
proof -
  have "c \<in> set cs" using assms by (auto simp: lineage_chain_def load_checkpoint_def)
  then obtain i where "i < length cs" "c = cs ! i" by (auto simp: in_set_conv_nth)
  with assms show ?thesis by (intro that [of i]) (auto simp: lineage_chain_def load_checkpoint_def)
qed

lemma chain_head:
  assumes "lineage_chain db r run cs ns"
  shows "load_checkpoint db r (run_head_checkpoint_id run) =
    Some (checkpoint_from_row (r, last cs) (chain_row cs ns (run_plan_sha256 run) (length cs - 1)))"
  using assms by (simp add: lineage_chain_def load_checkpoint_def last_conv_nth)

lemma no_such_sequence:
  assumes "lineage_chain db r run cs ns" "primary_key (checkpoints db)"
  shows "\<not> list_ex (\<lambda>((r', c), row). r' = r \<and> ck_sequence row = int (length cs)) (checkpoints db)"
proof
  assume "list_ex (\<lambda>((r', c), row). r' = r \<and> ck_sequence row = int (length cs)) (checkpoints db)"
  then obtain c row where "((r, c), row) \<in> set (checkpoints db)" "ck_sequence row = int (length cs)"
    by (auto simp: list_ex_iff)
  then have sel: "select_key (checkpoints db) (r, c) = Some row" by (simp add: select_Some_iff assms(2))
  with assms(1) have "c \<in> set cs" unfolding lineage_chain_def by fastforce
  then obtain i where "i < length cs" "c = cs ! i" by (auto simp: in_set_conv_nth)
  with assms(1) sel have "ck_sequence row = int i" by (auto simp: lineage_chain_def chain_row_def)
  with \<open>i < length cs\<close> \<open>ck_sequence row = int (length cs)\<close> show False by simp
qed

lemma start_txn_Inr:
  assumes "recovery_inv db" "select_key (runs db) r = None" "fits_int64 (int (length plan))"
  shows "start_txn r c plan json sha db =
    (Inr \<lparr>cp_run_id = r, cp_checkpoint_id = c, cp_sequence = 0, cp_parent_checkpoint_id = None,
          cp_plan_sha256 = sha, cp_completed_count = 0\<rparr>,
     db\<lparr>runs := insert_row r \<lparr>run_plan_json = json, run_plan_sha256 = sha, run_operation_count = int (length plan),
          run_head_checkpoint_id = c\<rparr> (runs db),
        checkpoints := insert_row (r, c) (chain_row [c] [0] sha 0) (checkpoints db)\<rparr>)"
proof -
  have none: "select_key (checkpoints db) (r, c') = None" for c'
    using recovery_invD(6) [OF assms(1,2)] .
  have "\<not> list_ex (\<lambda>((r', c), row). r' = r \<and> ck_sequence row = 0) (checkpoints db)"
  proof
    assume "list_ex (\<lambda>((r', c), row). r' = r \<and> ck_sequence row = 0) (checkpoints db)"
    then obtain c' row where "((r, c'), row) \<in> set (checkpoints db)" by (auto simp: list_ex_iff)
    with none [of c'] show False by (force simp: select_None_iff)
  qed
  with assms(2,3) none show ?thesis
    by (simp add: start_txn_def insert_checkpoint_def checkpoint_to_row_def chain_row_def fits_int64_def Let_def)
qed

subsection \<open>What an operation can do to the database\<close>

definition successor :: "RecoveryCheckpoint \<Rightarrow> string \<Rightarrow> string \<Rightarrow> int \<Rightarrow> RecoveryCheckpoint" where
  "successor parent c sha n =
     \<lparr>cp_run_id = cp_run_id parent, cp_checkpoint_id = c, cp_sequence = cp_sequence parent + 1,
      cp_parent_checkpoint_id = Some (cp_checkpoint_id parent), cp_plan_sha256 = sha, cp_completed_count = n\<rparr>"

definition chain_checkpoint :: "string \<Rightarrow> string list \<Rightarrow> int list \<Rightarrow> string \<Rightarrow> nat \<Rightarrow> RecoveryCheckpoint" where
  "chain_checkpoint r cs ns sha i = checkpoint_from_row (r, cs ! i) (chain_row cs ns sha i)"

lemma chain_checkpoint_simps [simp]:
  "cp_run_id (chain_checkpoint r cs ns sha i) = r" "cp_checkpoint_id (chain_checkpoint r cs ns sha i) = cs ! i"
  "cp_sequence (chain_checkpoint r cs ns sha i) = int i" "cp_completed_count (chain_checkpoint r cs ns sha i) = ns ! i"
  "cp_plan_sha256 (chain_checkpoint r cs ns sha i) = sha"
  by (simp_all add: chain_checkpoint_def checkpoint_from_row_def chain_row_def)

lemma chain_row_snoc:
  "cs \<noteq> [] \<Longrightarrow> length ns = length cs \<Longrightarrow> chain_row (cs @ [c]) (ns @ [n]) sha (length cs) =
     \<lparr>ck_sequence = int (length cs), ck_parent = Some (last cs), ck_plan_sha256 = sha, ck_completed_count = n\<rparr>"
  by (simp add: chain_row_def nth_append last_conv_nth)

lemma chain_row_old:
  "length ns = length cs \<Longrightarrow> i < length cs \<Longrightarrow> chain_row (cs @ [c]) (ns @ [n]) sha i = chain_row cs ns sha i"
  by (cases i) (simp_all add: chain_row_def nth_append)

definition advanced_db :: "string \<Rightarrow> string \<Rightarrow> checkpoint_row \<Rightarrow> recovery_db \<Rightarrow> recovery_db" where
  "advanced_db r c row db =
     db\<lparr>checkpoints := insert_row (r, c) row (checkpoints db),
        runs := update_row r (\<lambda>x. x\<lparr>run_head_checkpoint_id := c\<rparr>) (runs db)\<rparr>"

lemma advance_txn_Inr:
  assumes inv: "recovery_inv db" and "fst (advance_txn parent c n db) = Inr cp"
  obtains run cs ns where "select_key (runs db) (cp_run_id parent) = Some run" "lineage_chain db (cp_run_id parent) run cs ns"
    "cp = successor parent c (run_plan_sha256 run) n"
    "(c \<notin> set cs \<and> parent = chain_checkpoint (cp_run_id parent) cs ns (run_plan_sha256 run) (length cs - 1) \<and>
        last ns < n \<and> n \<le> run_operation_count run \<and>
        snd (advance_txn parent c n db) =
          advanced_db (cp_run_id parent) c (chain_row (cs @ [c]) (ns @ [n]) (run_plan_sha256 run) (length cs)) db) \<or>
     (run_head_checkpoint_id run = c \<and> load_checkpoint db (cp_run_id parent) c = Some cp \<and> snd (advance_txn parent c n db) = db)"
proof -
  let ?r = "cp_run_id parent"
  obtain run where run: "select_key (runs db) ?r = Some run"
    using assms(2) by (auto simp: advance_txn_def split: option.splits)
  obtain cs ns where chain: "lineage_chain db ?r run cs ns" using recovery_invD(5) [OF inv run] by blast
  let ?sha = "run_plan_sha256 run" and ?cand = "successor parent c (run_plan_sha256 run) n"
  have load: "load_checkpoint db ?r (cp_checkpoint_id parent) = Some parent"
    using assms(2) by (auto simp: advance_txn_def run split: if_splits)
  obtain i where i: "i < length cs" "cp_checkpoint_id parent = cs ! i" "parent = chain_checkpoint ?r cs ns ?sha i"
    by (rule chain_load [OF chain load]) (auto simp: chain_checkpoint_def)
  show ?thesis
  proof (cases "load_checkpoint db ?r c")
    case (Some existing)
    with assms(2) have "existing = ?cand" "run_head_checkpoint_id run = c" "cp = ?cand"
        "snd (advance_txn parent c n db) = db"
      by (auto simp: advance_txn_def run load successor_def Let_def split: if_splits)
    with Some show ?thesis by (intro that [OF run chain]) simp_all
  next
    case None
    have g: "run_head_checkpoint_id run = cp_checkpoint_id parent" "cp_completed_count parent < n" "n \<le> run_operation_count run"
      using assms(2) None by (auto simp: advance_txn_def run load Let_def split: if_splits)
    have c: "c \<notin> set cs" using None chain by (auto simp: lineage_chain_def load_checkpoint_def in_set_conv_nth)
    have len: "i = length cs - 1" "cs \<noteq> []" "length ns = length cs"
      using g(1) i(1,2) chain by (auto simp: lineage_chain_def last_conv_nth nth_eq_iff_index_eq)
    then have seq: "cp_sequence parent + 1 = int (length cs)" using i by (metis One_nat_def Suc_pred chain_checkpoint_simps(3) length_greater_0_conv of_nat_Suc add.commute)
    have last: "cp_completed_count parent = last ns" "cp_checkpoint_id parent = last cs"
      using i len by (metis chain_checkpoint_simps(4) last_conv_nth length_0_conv, metis last_conv_nth)
    have "int (length cs) \<le> n"
      using chain_bounds(1) [OF chain i(1)] g(2) seq i by (metis chain_checkpoint_simps(3,4) add1_zle_eq le_less_trans)
    then have fits: "fits_int64 (int (length cs))" "fits_int64 n"
      using g(3) recovery_invD(3) [OF inv run] by (auto simp: fits_int64_def)
    have row: "checkpoint_to_row ?cand = chain_row (cs @ [c]) (ns @ [n]) ?sha (length cs)"
      using len seq last by (simp add: checkpoint_to_row_def successor_def chain_row_snoc)
    have "select_key (checkpoints db) (?r, c) = None" using None by (simp add: load_checkpoint_def)
    then have ins: "insert_checkpoint ?cand db =
        (Inr (), db\<lparr>checkpoints := insert_row (?r, c) (chain_row (cs @ [c]) (ns @ [n]) ?sha (length cs)) (checkpoints db)\<rparr>)"
      using no_such_sequence [OF chain recovery_invD(2) [OF inv]] fits row seq
      by (simp add: insert_checkpoint_def) (simp add: successor_def)
    have "cp_plan_sha256 parent = ?sha" using i by (metis chain_checkpoint_simps(5))
    with ins g None have "advance_txn parent c n db =
        (Inr ?cand, advanced_db ?r c (chain_row (cs @ [c]) (ns @ [n]) ?sha (length cs)) db)"
      by (simp add: advance_txn_def run load Let_def successor_def [symmetric] advanced_db_def)
    with assms(2) c i(3) len(1) last g show ?thesis by (intro that [OF run chain]) simp_all
  qed
qed

lemma recovery_exec_cases:
  assumes inv: "recovery_inv db"
  obtains
    (same) "snd (recovery_exec db op) = db"
  | (opened) path where "op = OpenRecovery path" "snd (recovery_exec db op) = db\<lparr>schema_version := 1\<rparr>"
      "returns (fst (recovery_exec db op))"
  | (started) r plan c run where "op = Start (PStr r) plan (PStr c)" "select_key (runs db) r = None"
      "bound_to run plan" "fits_int64 (int (length plan))" "run_head_checkpoint_id run = c"
      "fst (recovery_exec db op) = Inr (CheckpointIs (chain_checkpoint r [c] [0] (run_plan_sha256 run) 0))"
      "snd (recovery_exec db op) = db\<lparr>runs := insert_row r run (runs db),
         checkpoints := insert_row (r, c) (chain_row [c] [0] (run_plan_sha256 run) 0) (checkpoints db)\<rparr>"
  | (advanced) parent c n r run cs ns where "op = Advance parent (PStr c) (PInt n)"
      "select_key (runs db) r = Some run" "lineage_chain db r run cs ns" "c \<notin> set cs"
      "parent = chain_checkpoint r cs ns (run_plan_sha256 run) (length cs - 1)"
      "last ns < n" "n \<le> run_operation_count run"
      "fst (recovery_exec db op) = Inr (CheckpointIs (successor parent c (run_plan_sha256 run) n))"
      "snd (recovery_exec db op) =
         advanced_db r c (chain_row (cs @ [c]) (ns @ [n]) (run_plan_sha256 run) (length cs)) db"
proof (cases op)
  case (OpenRecovery path)
  then show ?thesis
    by (cases "path = '':memory:''"; cases "schema_version db \<noteq> 0 \<and> schema_version db \<noteq> 1")
      (auto simp: open_recovery_def transaction_def wrap_def intro: same opened)
next
  case (CurrentCheckpoint r)
  then show ?thesis
    by (intro same) (auto simp: current_checkpoint_def snd_transaction split: option.splits)
next
  case (Resume cp ops)
  then show ?thesis
    by (intro same) (auto simp: resume_def snd_transaction split: option.splits sum.splits)
next
  case (Start rv plan cv)
  show ?thesis
  proof (cases "\<not> not_nonempty_str rv \<and> \<not> not_nonempty_str cv \<and> returns (materialize_plan plan)")
    case False
    with Start show ?thesis
      by (intro same) (auto simp: start_def split: sum.splits)
  next
    case True
    then obtain r c where rc: "rv = PStr r" "cv = PStr c"
      by (auto simp: not_nonempty_str_def is_str_conv)
    from True obtain json sha where plan: "materialize_plan plan = Inr (plan, json, sha)"
      by (auto simp: returns_iff materialize_plan_Inr)
    define run where "run = \<lparr>run_plan_json = json, run_plan_sha256 = sha, run_operation_count = int (length plan),
          run_head_checkpoint_id = c\<rparr>"
    have bound: "bound_to run plan" using plan by (simp add: run_def bound_to_def materialize_plan_Inr)
    have eq: "start rv plan cv db = transaction (start_txn r c plan json sha) db"
      using True plan by (simp add: start_def rc)
    show ?thesis
    proof (cases "select_key (runs db) r = None \<and> fits_int64 (int (length plan))")
      case True
      have cp: "chain_checkpoint r [c] [0] sha 0 = \<lparr>cp_run_id = r, cp_checkpoint_id = c, cp_sequence = 0,
          cp_parent_checkpoint_id = None, cp_plan_sha256 = sha, cp_completed_count = 0\<rparr>"
        by (simp add: chain_checkpoint_def checkpoint_from_row_def chain_row_def)
      show ?thesis
        using True bound start_txn_Inr [OF inv, of r plan c json sha] Start
        by (intro started [of r plan c run])
          (simp_all add: rc eq [unfolded rc] transaction_def wrap_def run_def cp)
    next
      case False
      then have "snd (transaction (start_txn r c plan json sha) db) = db"
        by (auto simp: start_txn_def snd_transaction overflow_def Let_def split: option.splits)
      with Start eq show ?thesis by (intro same) simp
    qed
  qed
next
  case (Advance parent cv nv)
  show ?thesis
  proof (cases "fst (advance parent cv nv db)")
    case (Inl e)
    then have "snd (advance parent cv nv db) = db"
      by (auto simp: advance_def snd_transaction split: pyval.splits if_splits)
    with Advance show ?thesis by (intro same) simp
  next
    case (Inr cp)
    then obtain c n where cn: "cv = PStr c" "nv = PInt n"
      by (cases nv) (auto simp: advance_def not_nonempty_str_def is_str_conv split: if_splits)
    with Inr have eq: "advance parent cv nv db = transaction (advance_txn parent c n) db"
      by (simp add: advance_def split: if_splits)
    with Inr have out: "fst (advance_txn parent c n db) = Inr cp" by simp
    then have snd: "snd (advance parent cv nv db) = snd (advance_txn parent c n db)"
      by (simp add: eq snd_transaction)
    show ?thesis
      using Advance Inr cn snd
      by (rule_tac advance_txn_Inr [OF inv out]) (auto intro: same advanced simp: fst_wrap)
  qed
qed

lemma advanced_chain:
  assumes chain: "lineage_chain db r run cs ns" and run: "select_key (runs db) r = Some run"
    and step: "c \<notin> set cs" "last ns < n" "n \<le> run_operation_count run"
  shows "lineage_chain (advanced_db r c (chain_row (cs @ [c]) (ns @ [n]) (run_plan_sha256 run) (length cs)) db) r
    (run\<lparr>run_head_checkpoint_id := c\<rparr>) (cs @ [c]) (ns @ [n])"
proof -
  from chain have *: "cs \<noteq> []" "distinct cs" "length ns = length cs" "sorted_wrt (<) ns" "hd ns = 0" "ns \<noteq> []"
    "\<forall>i < length cs. select_key (checkpoints db) (r, cs ! i) = Some (chain_row cs ns (run_plan_sha256 run) i)"
    "\<forall>c. c \<notin> set cs \<longrightarrow> select_key (checkpoints db) (r, c) = None"
    by (auto simp: lineage_chain_def)
  have "x < n" if "x \<in> set ns" for x
  proof -
    from that obtain i where "i < length ns" "x = ns ! i" by (auto simp: in_set_conv_nth)
    then have "x \<le> last ns"
      using sorted_wrt_less_nth_le [OF *(4), of i "length ns - 1"] *(6) by (simp add: last_conv_nth)
    with step(2) show ?thesis by simp
  qed
  with *(4) have "sorted_wrt (<) (ns @ [n])" by (simp add: sorted_wrt_append)
  moreover have "cs ! i \<noteq> c" if "i < length cs" for i using that step(1) by auto
  ultimately show ?thesis
    using * step
    by (simp add: lineage_chain_def advanced_db_def select_insert nth_append less_Suc_eq chain_row_old)
qed

lemma chain_cong:
  "(\<And>c. select_key (checkpoints db') (r, c) = select_key (checkpoints db) (r, c)) \<Longrightarrow>
     lineage_chain db' r run cs ns = lineage_chain db r run cs ns"
  by (simp add: lineage_chain_def)

lemma chain_version: "lineage_chain (db\<lparr>schema_version := v\<rparr>) = lineage_chain db"
  by (intro ext) (simp add: lineage_chain_def)

lemma recovery_exec_inv:
  assumes inv: "recovery_inv db"
  shows "recovery_inv (snd (recovery_exec db op))"
  using inv
proof (cases rule: recovery_exec_cases [of db op])
  case same
  with inv show ?thesis by simp
next
  case opened
  with inv show ?thesis
    unfolding recovery_inv_def by (simp add: chain_version del: recovery_exec.simps)
next
  case (started r plan c run)
  let ?db = "snd (recovery_exec db op)"
  have none: "select_key (checkpoints db) (r, c') = None" for c' using recovery_invD(6) [OF inv started(2)] .
  have "lineage_chain ?db r run [c] [0]"
    using started none by (auto simp: lineage_chain_def select_insert bound_to_def simp del: recovery_exec.simps)
  moreover have "lineage_chain ?db r' run' cs ns = lineage_chain db r' run' cs ns" if "r' \<noteq> r" for r' run' cs ns
    using that started(7) none by (intro chain_cong) (simp add: select_insert del: recovery_exec.simps)
  ultimately have chains: "\<exists>cs ns. lineage_chain ?db r' run' cs ns" if "select_key (runs ?db) r' = Some run'" for r' run'
    using that started(2,7) recovery_invD(5) [OF inv, of r' run']
    by (cases "r' = r") (auto simp: select_insert simp del: recovery_exec.simps)
  have "run_operation_count run = int (length plan)" using started(3) by (simp add: bound_to_def)
  then have "fits_int64 (run_operation_count run')" "\<exists>plan. bound_to run' plan"
    if "select_key (runs ?db) r' = Some run'" for r' run'
    using that started(2,3,4,7) recovery_invD(3,4) [OF inv, of r' run']
    by (auto simp: select_insert simp del: recovery_exec.simps split: if_splits)
  moreover have "primary_key (runs ?db)" "primary_key (checkpoints ?db)"
    "select_key (runs ?db) r' = None \<Longrightarrow> select_key (checkpoints ?db) (r', c') = None" for r' c'
    using started(2,7) recovery_invD(1,2,6) [OF inv] none
    by (auto simp: select_insert primary_key_insert simp del: recovery_exec.simps split: if_splits)
  ultimately show ?thesis using chains unfolding recovery_inv_def by blast
next
  case (advanced parent c n r run cs ns)
  let ?db = "snd (recovery_exec db op)"
  have none: "select_key (checkpoints db) (r, c) = None"
    using advanced(3,4) by (simp add: lineage_chain_def)
  have runs: "select_key (runs ?db) r' = (if r' = r then Some (run\<lparr>run_head_checkpoint_id := c\<rparr>) else select_key (runs db) r')" for r'
    using advanced(2,9) by (simp add: advanced_db_def del: recovery_exec.simps)
  have "lineage_chain ?db r (run\<lparr>run_head_checkpoint_id := c\<rparr>) (cs @ [c]) (ns @ [n])"
    unfolding advanced(9) by (rule advanced_chain [OF advanced(3,2,4,6,7)])
  moreover have "lineage_chain ?db r' run' cs ns = lineage_chain db r' run' cs ns" if "r' \<noteq> r" for r' run' cs ns
    using that advanced(9) none
    by (intro chain_cong) (simp add: advanced_db_def select_insert del: recovery_exec.simps)
  ultimately have chains: "\<exists>cs ns. lineage_chain ?db r' run' cs ns" if "select_key (runs ?db) r' = Some run'" for r' run'
    using that recovery_invD(5) [OF inv, of r' run'] by (cases "r' = r") (auto simp: runs simp del: recovery_exec.simps)
  have "fits_int64 (run_operation_count run')" "\<exists>plan. bound_to run' plan"
    if "select_key (runs ?db) r' = Some run'" for r' run'
    using that recovery_invD(3,4) [OF inv, of r' run'] recovery_invD(3,4) [OF inv advanced(2)]
    by (auto simp: runs bound_to_def simp del: recovery_exec.simps split: if_splits)
  moreover have "primary_key (runs ?db)" "primary_key (checkpoints ?db)"
    "select_key (runs ?db) r' = None \<Longrightarrow> select_key (checkpoints ?db) (r', c') = None" for r' c'
    using advanced(9) recovery_invD(1,2,6) [OF inv] none runs [of r']
    by (auto simp: advanced_db_def select_insert primary_key_insert simp del: recovery_exec.simps split: if_splits)
  ultimately show ?thesis using chains unfolding recovery_inv_def by blast
qed

lemma recovery_exec_fail:
  "recovery_inv db \<Longrightarrow> \<not> returns (fst (recovery_exec db op)) \<Longrightarrow> snd (recovery_exec db op) = db"
  by (cases rule: recovery_exec_cases [of db op]) (simp_all del: recovery_exec.simps)

definition same_binding :: "run_row \<Rightarrow> run_row \<Rightarrow> bool" where
  "same_binding run run' \<longleftrightarrow>
     run_plan_json run' = run_plan_json run \<and> run_plan_sha256 run' = run_plan_sha256 run \<and>
     run_operation_count run' = run_operation_count run"

text \<open>Lineage is append-only: a chain is a prefix of every later chain of the run.\<close>

definition extends_chain :: "recovery_db \<Rightarrow> string \<Rightarrow> run_row \<Rightarrow> string list \<Rightarrow> int list \<Rightarrow> bool" where
  "extends_chain db r run cs ns \<longleftrightarrow>
     (\<exists>run' cs' ns'. select_key (runs db) r = Some run' \<and> same_binding run run' \<and> lineage_chain db r run' (cs @ cs') (ns @ ns'))"

lemma lineage_chain_unique:
  assumes "lineage_chain db r run cs ns" "lineage_chain db r run cs' ns'"
  shows "cs' = cs \<and> ns' = ns"
proof -
  have set: "set cs' = set cs"
    using assms unfolding lineage_chain_def by (metis in_set_conv_nth option.distinct(1) subset_antisym subsetI)
  then have len: "length cs' = length cs"
    using assms unfolding lineage_chain_def by (metis distinct_card)
  moreover have "cs' ! i = cs ! i \<and> ns' ! i = ns ! i" if i: "i < length cs" for i
  proof -
    have "cs ! i \<in> set cs'" using i set by simp
    then obtain j where j: "j < length cs'" "cs' ! j = cs ! i" by (auto simp: in_set_conv_nth)
    with assms i have "chain_row cs ns (run_plan_sha256 run) i = chain_row cs' ns' (run_plan_sha256 run) j"
      unfolding lineage_chain_def by (metis option.inject)
    then have "j = i" "ns' ! j = ns ! i" by (auto simp: chain_row_def)
    with j show ?thesis by simp
  qed
  moreover have "length ns = length cs" "length ns' = length cs'"
    using assms unfolding lineage_chain_def by blast+
  ultimately show ?thesis using len by (auto intro!: nth_equalityI)
qed

lemma extends_chain_step:
  assumes inv: "recovery_inv db" and ext: "extends_chain db r run cs ns"
  shows "extends_chain (snd (recovery_exec db op)) r run cs ns"
proof -
  obtain run1 cs1 ns1 where run1: "select_key (runs db) r = Some run1" and same_b: "same_binding run run1"
    and chain: "lineage_chain db r run1 (cs @ cs1) (ns @ ns1)"
    using ext unfolding extends_chain_def by blast
  have keep: "extends_chain db' r run cs ns"
    if "select_key (runs db') r = select_key (runs db) r"
      "\<And>c. select_key (checkpoints db') (r, c) = select_key (checkpoints db) (r, c)" for db'
    using chain_cong [OF that(2)] that(1) run1 same_b chain unfolding extends_chain_def by metis
  show ?thesis
    using inv
  proof (cases rule: recovery_exec_cases [of db op])
    case same
    with ext show ?thesis by simp
  next
    case opened
    then show ?thesis by (intro keep) (simp_all del: recovery_exec.simps)
  next
    case (started r' plan c run')
    then have "r' \<noteq> r" "select_key (checkpoints db) (r', c) = None"
      using run1 recovery_invD(6) [OF inv] by auto
    with started(2,7) show ?thesis by (intro keep) (simp_all add: select_insert del: recovery_exec.simps)
  next
    case (advanced parent c n r' run' cs' ns')
    have none: "select_key (checkpoints db) (r', c) = None"
      using advanced(3,4) by (simp add: lineage_chain_def)
    show ?thesis
    proof (cases "r' = r")
      case False
      with advanced(9) none show ?thesis
        by (intro keep) (simp_all add: advanced_db_def select_insert del: recovery_exec.simps)
    next
      case True
      with advanced(2) run1 have "run' = run1" by simp
      with True lineage_chain_unique [OF chain] advanced(3) have eq: "cs' = cs @ cs1" "ns' = ns @ ns1" by auto
      have "lineage_chain (snd (recovery_exec db op)) r (run1\<lparr>run_head_checkpoint_id := c\<rparr>) (cs' @ [c]) (ns' @ [n])"
        using advanced_chain [OF advanced(3,2,4,6,7)] advanced(9) True \<open>run' = run1\<close> by simp
      moreover have "select_key (runs (snd (recovery_exec db op))) r = Some (run1\<lparr>run_head_checkpoint_id := c\<rparr>)"
        using advanced(9) True run1 by (simp add: advanced_db_def del: recovery_exec.simps)
      moreover have "same_binding run (run1\<lparr>run_head_checkpoint_id := c\<rparr>)"
        using same_b by (simp add: same_binding_def)
      ultimately show ?thesis unfolding extends_chain_def eq by (metis append_assoc)
    qed
  qed
qed

definition head_of_run :: "recovery_db \<Rightarrow> string \<Rightarrow> RecoveryCheckpoint option" where
  "head_of_run db r =
     (case select_key (runs db) r of None \<Rightarrow> None | Some run \<Rightarrow> load_checkpoint db r (run_head_checkpoint_id run))"

definition head_sequence :: "recovery_db \<Rightarrow> string \<Rightarrow> int" where
  "head_sequence db r = (case head_of_run db r of None \<Rightarrow> - 1 | Some cp \<Rightarrow> cp_sequence cp)"

lemma head_of_chain:
  assumes "select_key (runs db) r = Some run" "lineage_chain db r run cs ns"
  shows "head_of_run db r = Some (chain_checkpoint r cs ns (run_plan_sha256 run) (length cs - 1))"
    and "head_sequence db r = int (length cs) - 1"
proof -
  have "cs \<noteq> []" using assms(2) by (simp add: lineage_chain_def)
  then have "last cs = cs ! (length cs - 1)" by (rule last_conv_nth)
  then show head: "head_of_run db r = Some (chain_checkpoint r cs ns (run_plan_sha256 run) (length cs - 1))"
    using chain_head [OF assms(2)] assms(1) by (simp add: head_of_run_def chain_checkpoint_def)
  have "0 < length cs" using \<open>cs \<noteq> []\<close> by simp
  then have "int (length cs - 1) = int (length cs) - 1" by linarith
  then show "head_sequence db r = int (length cs) - 1"
    by (simp add: head_sequence_def head)
qed

lemma extends_chain_refl:
  "select_key (runs db) r = Some run \<Longrightarrow> lineage_chain db r run cs ns \<Longrightarrow> extends_chain db r run cs ns"
  unfolding extends_chain_def same_binding_def by (metis append_Nil2)

lemma extends_head:
  assumes "extends_chain db' r run cs ns" "select_key (runs db) r = Some run" "lineage_chain db r run cs ns"
  shows "head_sequence db r \<le> head_sequence db' r"
    and "head_sequence db' r = head_sequence db r \<Longrightarrow> head_of_run db' r = head_of_run db r"
proof -
  obtain run' cs' ns' where x: "select_key (runs db') r = Some run'" "same_binding run run'"
      "lineage_chain db' r run' (cs @ cs') (ns @ ns')"
    using assms(1) unfolding extends_chain_def by blast
  show "head_sequence db r \<le> head_sequence db' r"
    using head_of_chain(2) [OF x(1,3)] head_of_chain(2) [OF assms(2,3)] by simp
  have "length ns = length cs" "length (ns @ ns') = length (cs @ cs')"
    using assms(3) x(3) unfolding lineage_chain_def by blast+
  then have "ns' = []" if "cs' = []" using that by simp
  then show "head_sequence db' r = head_sequence db r \<Longrightarrow> head_of_run db' r = head_of_run db r"
    using head_of_chain [OF x(1,3)] head_of_chain [OF assms(2,3)] x(2) by (simp add: same_binding_def)
qed

lemma recovery_version_step:
  assumes inv: "recovery_inv db"
  shows "head_sequence db r \<le> head_sequence (snd (recovery_exec db op)) r"
    and "head_sequence (snd (recovery_exec db op)) r = head_sequence db r \<Longrightarrow>
      head_of_run (snd (recovery_exec db op)) r = head_of_run db r"
proof -
  have inv': "recovery_inv (snd (recovery_exec db op))" using inv by (rule recovery_exec_inv)
  have low: "- 1 \<le> head_sequence db r \<and> (head_sequence db r = - 1 \<longrightarrow> head_of_run db r = None)" if inv: "recovery_inv db" for db
  proof (cases "select_key (runs db) r")
    case None
    then show ?thesis by (simp add: head_sequence_def head_of_run_def)
  next
    case (Some run)
    then obtain cs ns where chain: "lineage_chain db r run cs ns" using recovery_invD(5) [OF inv] by blast
    then have "0 < length cs" by (simp add: lineage_chain_def)
    then show ?thesis using head_of_chain(2) [OF Some chain] by simp
  qed
  have "head_sequence db r \<le> head_sequence (snd (recovery_exec db op)) r \<and>
    (head_sequence (snd (recovery_exec db op)) r = head_sequence db r \<longrightarrow>
      head_of_run (snd (recovery_exec db op)) r = head_of_run db r)"
  proof (cases "select_key (runs db) r")
    case None
    then have "head_sequence db r = - 1" "head_of_run db r = None" by (simp_all add: head_sequence_def head_of_run_def)
    then show ?thesis using low [OF inv'] by simp
  next
    case (Some run)
    then obtain cs ns where chain: "lineage_chain db r run cs ns" using recovery_invD(5) [OF inv] by blast
    from extends_chain_step [OF inv extends_chain_refl [OF Some chain]] Some chain extends_head
    show ?thesis by blast
  qed
  then show "head_sequence db r \<le> head_sequence (snd (recovery_exec db op)) r"
    and "head_sequence (snd (recovery_exec db op)) r = head_sequence db r \<Longrightarrow>
      head_of_run (snd (recovery_exec db op)) r = head_of_run db r"
    by blast+
qed

interpretation recovery: versioned_store recovery_exec recovery_inv head_sequence head_of_run
  by unfold_locales (use recovery_exec_inv recovery_exec_fail recovery_version_step in blast)+

lemma lineage_extends:
  assumes "recovery_inv db" and "select_key (runs db) r = Some run" and "lineage_chain db r run cs ns"
  shows "\<exists>run' cs' ns'. select_key (runs (after recovery_exec db ops)) r = Some run' \<and> same_binding run run' \<and>
    lineage_chain (after recovery_exec db ops) r run' (cs @ cs') (ns @ ns')"
  using recovery.after_stable [of "\<lambda>db. extends_chain db r run cs ns" db ops] extends_chain_step
    assms extends_chain_refl [OF assms(2,3)] unfolding extends_chain_def by blast

text \<open>
  The lineage of a run is one append-only chain. Whatever operations any workers issue, a run
  keeps its exact plan, its checkpoints are always those of one chain from the initial checkpoint
  to the head with sequence numbers 0, 1, 2, ... and strictly increasing progress within the plan,
  and the chain it had before is a prefix of the chain it has after.
\<close>

theorem run_lineage_is_append_only_chain:
  assumes "recovery_inv db" and "select_key (runs db) r = Some run" and "lineage_chain db r run cs ns"
  shows "\<exists>run' cs' ns'. select_key (runs (after recovery_exec db ops)) r = Some run' \<and> same_binding run run' \<and>
    lineage_chain (after recovery_exec db ops) r run' (cs @ cs') (ns @ ns')"
  using assms by (rule lineage_extends)

lemma increasing_length: "sorted_wrt (<) (n # ns :: int list) \<Longrightarrow> int (length ns) \<le> last (n # ns) - n"
proof (induction ns arbitrary: n)
  case (Cons m ns)
  then have "int (length ns) \<le> last (m # ns) - m" "n < m" by auto
  then show ?case by simp
qed simp

text \<open>
  C19: A run terminates: whatever operations any workers issue, at most as many further checkpoints
  are committed as operations of the plan remain, so a run whose head has completed its plan never
  changes again.
\<close>

theorem run_progress_terminates:
  assumes "recovery_inv db" and "select_key (runs db) r = Some run" and chain: "lineage_chain db r run cs ns"
  shows "\<exists>run' cs' ns'. select_key (runs (after recovery_exec db ops)) r = Some run' \<and>
    lineage_chain (after recovery_exec db ops) r run' (cs @ cs') (ns @ ns') \<and>
    int (length cs') \<le> run_operation_count run - last ns"
proof -
  obtain run' cs' ns' where run': "select_key (runs (after recovery_exec db ops)) r = Some run'" "same_binding run run'"
    "lineage_chain (after recovery_exec db ops) r run' (cs @ cs') (ns @ ns')"
    using lineage_extends [OF assms] by blast
  have ns: "ns \<noteq> []" "length ns = length cs" using chain by (auto simp: lineage_chain_def)
  have all: "sorted_wrt (<) (ns @ ns')" "last (ns @ ns') \<le> run_operation_count run" "length ns' = length cs'"
    using run'(2,3) ns(2) by (auto simp: lineage_chain_def same_binding_def)
  have "sorted_wrt (<) (last ns # ns')"
    using all(1) ns(1) by (auto simp: sorted_wrt_append)
  then have "int (length ns') \<le> last (last ns # ns') - last ns" by (rule increasing_length)
  moreover have "last (last ns # ns') = last (ns @ ns')" by simp
  ultimately have "int (length cs') \<le> run_operation_count run - last ns" using all(2,3) by linarith
  with run' show ?thesis by blast
qed

subsection \<open>Resuming\<close>

lemma resume_Inr:
  assumes inv: "recovery_inv db" and "fst (resume cp plan db) = Inr rest"
  obtains run cs ns where "select_key (runs db) (cp_run_id cp) = Some run" "bound_to run plan"
    "lineage_chain db (cp_run_id cp) run cs ns"
    "cp = chain_checkpoint (cp_run_id cp) cs ns (run_plan_sha256 run) (length cs - 1)"
    "rest = drop (nat (cp_completed_count cp)) plan" "0 \<le> cp_completed_count cp" "cp_completed_count cp \<le> int (length plan)"
    "snd (resume cp plan db) = db"
proof -
  let ?r = "cp_run_id cp"
  have plan: "materialize_plan plan = Inr (plan, plan_json plan, sha256_text (plan_json plan))"
      "plan \<noteq> []" "distinct (map ro_operation_id plan)"
    using assms(2) by (auto simp: resume_def materialize_plan_Inr split: sum.splits)
  obtain run where run: "select_key (runs db) ?r = Some run"
    using assms(2) by (auto simp: resume_def plan split: option.splits)
  obtain cs ns where chain: "lineage_chain db ?r run cs ns" using recovery_invD(5) [OF inv run] by blast
  have g: "run_plan_json run = plan_json plan" "run_plan_sha256 run = sha256_text (plan_json plan)"
      "run_operation_count run = int (length plan)" "load_checkpoint db ?r (cp_checkpoint_id cp) = Some cp"
      "run_head_checkpoint_id run = cp_checkpoint_id cp" "rest = slice_from (cp_completed_count cp) plan"
    using assms(2) by (auto simp: resume_def plan(1) run split: if_splits)
  have bound: "bound_to run plan" using plan g by (simp add: bound_to_def)
  have cp: "cp = chain_checkpoint ?r cs ns (run_plan_sha256 run) (length cs - 1)"
    using head_of_chain(1) [OF run chain] g(4,5) by (simp add: head_of_run_def run)
  have "length cs - 1 < length cs" using chain by (simp add: lineage_chain_def)
  from chain_bounds [OF chain this] g(3)
  have b: "0 \<le> cp_completed_count cp" "cp_completed_count cp \<le> int (length plan)"
    by (subst cp, simp)+
  have "snd (resume cp plan db) = db"
    by (auto simp: resume_def snd_transaction split: option.splits sum.splits)
  with run bound chain cp g(6) b show ?thesis by (intro that) (simp_all add: slice_from_def)
qed

lemma start_Inr:
  assumes inv: "recovery_inv db" and "fst (start (PStr r) plan c db) = Inr cp"
  obtains run where "select_key (runs (snd (start (PStr r) plan c db))) r = Some run" "bound_to run plan"
proof -
  have ret: "fst (recovery_exec db (Start (PStr r) plan c)) = Inr (CheckpointIs cp)"
    using assms(2) by (simp add: fst_wrap)
  show ?thesis
  proof (cases "select_key (runs db) r")
    case (Some run)
    have plan: "materialize_plan plan = Inr (plan, plan_json plan, sha256_text (plan_json plan))"
        "plan \<noteq> []" "distinct (map ro_operation_id plan)"
      using assms(2) by (auto simp: start_def materialize_plan_Inr split: sum.splits if_splits)
    with assms(2) Some have "bound_to run plan"
      by (auto simp: start_def start_txn_def bound_to_def Let_def split: if_splits)
    moreover have "snd (start (PStr r) plan c db) = db"
      using Some by (auto simp: start_def start_txn_def snd_transaction Let_def split: sum.splits)
    ultimately show ?thesis using Some that by simp
  next
    case None
    show ?thesis
      using inv
    proof (cases rule: recovery_exec_cases [of db "Start (PStr r) plan c"])
      case same
      have plan: "materialize_plan plan = Inr (plan, plan_json plan, sha256_text (plan_json plan))"
        using assms(2) by (auto simp: start_def materialize_plan_Inr split: sum.splits if_splits)
      have "fits_int64 (int (length plan))"
        using assms(2) None by (auto simp: start_def plan start_txn_def overflow_def Let_def split: if_splits)
      then have "select_key (runs (snd (start (PStr r) plan c db))) r \<noteq> None"
        using assms(2) None start_txn_Inr [OF inv None]
        by (auto simp: start_def plan transaction_def select_insert split: if_splits)
      with same None show ?thesis by simp
    next
      case (started r' plan' c' run)
      then have "r' = r" "plan' = plan" by simp_all
      with started(2,3,7) that show ?thesis by (simp add: select_insert)
    qed simp_all
  qed
qed

text \<open>
  C9: Recovery resumes exactly where the run stands. After a run was started with a plan, and any
  further operations, a \<open>resume\<close> that returns was given that very plan and the current head
  checkpoint, and it returns exactly the operations of the plan after the completed ones.
\<close>

theorem resume_returns_remaining_plan:
  assumes "recovery_inv db" and "fst (start (PStr r) plan c db) = Inr initial"
    and "now = after recovery_exec (snd (start (PStr r) plan c db)) ops"
    and "fst (resume cp plan' now) = Inr rest" and "cp_run_id cp = r"
  shows "plan' = plan \<and> head_of_run now r = Some cp \<and>
    (\<exists>finished. plan = finished @ rest \<and> int (length finished) = cp_completed_count cp)"
proof -
  let ?db = "snd (start (PStr r) plan c db)"
  have inv: "recovery_inv ?db" using recovery_exec_inv [OF assms(1), of "Start (PStr r) plan c"] by simp
  obtain run where run: "select_key (runs ?db) r = Some run" "bound_to run plan"
    by (rule start_Inr [OF assms(1,2)])
  obtain cs ns where chain: "lineage_chain ?db r run cs ns" using recovery_invD(5) [OF inv run(1)] by blast
  have "extends_chain now r run cs ns"
    unfolding assms(3)
    using recovery.after_stable [of "\<lambda>db. extends_chain db r run cs ns" ?db ops] extends_chain_step inv
      extends_chain_refl [OF run(1) chain] by blast
  then obtain run' where run': "select_key (runs now) r = Some run'" "same_binding run run'"
    unfolding extends_chain_def by blast
  have invn: "recovery_inv now" unfolding assms(3) using inv by (rule recovery.after_inv)
  obtain run2 cs2 ns2 where res: "select_key (runs now) (cp_run_id cp) = Some run2" "bound_to run2 plan'"
    "lineage_chain now (cp_run_id cp) run2 cs2 ns2"
    "cp = chain_checkpoint (cp_run_id cp) cs2 ns2 (run_plan_sha256 run2) (length cs2 - 1)"
    "rest = drop (nat (cp_completed_count cp)) plan'" "0 \<le> cp_completed_count cp" "cp_completed_count cp \<le> int (length plan')"
    by (rule resume_Inr [OF invn assms(4)])
  have "run2 = run'" using res(1) run'(1) assms(5) by simp
  with run'(2) run(2) res(2) have "plan_json plan' = plan_json plan" by (simp add: bound_to_def same_binding_def)
  then have "plan' = plan" by (rule plan_json_inj)
  moreover have "head_of_run now r = Some cp"
    using head_of_chain(1) [OF res(1,3)] res(4) assms(5) by simp
  moreover have "plan = take (nat (cp_completed_count cp)) plan @ rest" using res(5) \<open>plan' = plan\<close> by simp
  moreover have "int (length (take (nat (cp_completed_count cp)) plan)) = cp_completed_count cp"
    using res(6,7) \<open>plan' = plan\<close> by simp
  ultimately show ?thesis by blast
qed

subsection \<open>Superseded checkpoints, forks and replays\<close>

lemma advance_Inr:
  assumes "fst (advance parent c n db) = Inr cp"
  obtains c' n' where "c = PStr c'" "n = PInt n'" "\<not> blank c'" "fst (advance_txn parent c' n' db) = Inr cp"
    "snd (advance parent c n db) = snd (advance_txn parent c' n' db)"
    "advance parent (PStr c') (PInt n') = transaction (advance_txn parent c' n')"
proof -
  obtain c' n' where cn: "c = PStr c'" "n = PInt n'" "\<not> blank c'"
    using assms by (cases n) (auto simp: advance_def not_nonempty_str_def is_str_conv split: if_splits)
  moreover have eq: "advance parent (PStr c') (PInt n') = transaction (advance_txn parent c' n')"
    using cn(3) by (intro ext) (simp add: advance_def)
  moreover have "fst (advance_txn parent c' n' db) = Inr cp" using assms cn eq by simp
  ultimately show ?thesis using cn eq by (intro that [of c' n']) (simp_all add: snd_transaction)
qed

text \<open>What a successful \<open>advance\<close> leaves: its checkpoint as the head, one step after the parent.\<close>

lemma advance_result:
  assumes inv: "recovery_inv db" and "fst (advance parent c n db) = Inr cp"
  shows "head_of_run (snd (advance parent c n db)) (cp_run_id parent) = Some cp"
    "cp_run_id cp = cp_run_id parent" "cp_sequence cp = cp_sequence parent + 1"
    "cp_parent_checkpoint_id cp = Some (cp_checkpoint_id parent)" "n = PInt (cp_completed_count cp)"
    "c = PStr (cp_checkpoint_id cp)"
    "load_checkpoint db (cp_run_id parent) (cp_checkpoint_id parent) = Some parent"
    "head_of_run db (cp_run_id parent) = Some parent \<or>
     (head_of_run db (cp_run_id parent) = Some cp \<and> snd (advance parent c n db) = db)"
proof -
  let ?r = "cp_run_id parent"
  obtain c' n' where a: "c = PStr c'" "n = PInt n'" "fst (advance_txn parent c' n' db) = Inr cp"
    "snd (advance parent c n db) = snd (advance_txn parent c' n' db)"
    by (rule advance_Inr [OF assms(2)])
  show load: "load_checkpoint db ?r (cp_checkpoint_id parent) = Some parent"
    using a(3) by (auto simp: advance_txn_def split: option.splits if_splits)
  obtain run cs ns where x: "select_key (runs db) ?r = Some run" "lineage_chain db ?r run cs ns"
    and cp: "cp = successor parent c' (run_plan_sha256 run) n'"
    and alt: "(c' \<notin> set cs \<and> parent = chain_checkpoint ?r cs ns (run_plan_sha256 run) (length cs - 1) \<and>
        last ns < n' \<and> n' \<le> run_operation_count run \<and>
        snd (advance_txn parent c' n' db) =
          advanced_db ?r c' (chain_row (cs @ [c']) (ns @ [n']) (run_plan_sha256 run) (length cs)) db) \<or>
     (run_head_checkpoint_id run = c' \<and> load_checkpoint db ?r c' = Some cp \<and> snd (advance_txn parent c' n' db) = db)"
    by (rule advance_txn_Inr [OF inv a(3)])
  show "cp_run_id cp = cp_run_id parent" "cp_sequence cp = cp_sequence parent + 1"
    "cp_parent_checkpoint_id cp = Some (cp_checkpoint_id parent)" "n = PInt (cp_completed_count cp)"
    "c = PStr (cp_checkpoint_id cp)"
    using a(1,2) by (simp_all add: cp successor_def)
  from alt show "head_of_run db ?r = Some parent \<or> (head_of_run db ?r = Some cp \<and> snd (advance parent c n db) = db)"
  proof
    assume "run_head_checkpoint_id run = c' \<and> load_checkpoint db ?r c' = Some cp \<and> snd (advance_txn parent c' n' db) = db"
    then show ?thesis using x(1) a(4) by (simp add: head_of_run_def)
  next
    assume "c' \<notin> set cs \<and> parent = chain_checkpoint ?r cs ns (run_plan_sha256 run) (length cs - 1) \<and>
        last ns < n' \<and> n' \<le> run_operation_count run \<and>
        snd (advance_txn parent c' n' db) =
          advanced_db ?r c' (chain_row (cs @ [c']) (ns @ [n']) (run_plan_sha256 run) (length cs)) db"
    then show ?thesis using head_of_chain(1) [OF x] by metis
  qed
  from alt show "head_of_run (snd (advance parent c n db)) ?r = Some cp"
  proof
    assume "run_head_checkpoint_id run = c' \<and> load_checkpoint db ?r c' = Some cp \<and> snd (advance_txn parent c' n' db) = db"
    then show ?thesis using x(1) a(4) by (simp add: head_of_run_def)
  next
    assume new: "c' \<notin> set cs \<and> parent = chain_checkpoint ?r cs ns (run_plan_sha256 run) (length cs - 1) \<and>
        last ns < n' \<and> n' \<le> run_operation_count run \<and>
        snd (advance_txn parent c' n' db) =
          advanced_db ?r c' (chain_row (cs @ [c']) (ns @ [n']) (run_plan_sha256 run) (length cs)) db"
    let ?db = "advanced_db ?r c' (chain_row (cs @ [c']) (ns @ [n']) (run_plan_sha256 run) (length cs)) db"
    have chain: "lineage_chain ?db ?r (run\<lparr>run_head_checkpoint_id := c'\<rparr>) (cs @ [c']) (ns @ [n'])"
      using new by (intro advanced_chain [OF x(2,1)]) simp_all
    have "select_key (runs ?db) ?r = Some (run\<lparr>run_head_checkpoint_id := c'\<rparr>)"
      by (simp add: advanced_db_def x(1))
    from head_of_chain(1) [OF this chain]
    have head: "head_of_run ?db ?r = Some (chain_checkpoint ?r (cs @ [c']) (ns @ [n']) (run_plan_sha256 run) (length cs))"
      by simp
    have ln: "cs \<noteq> []" "length ns = length cs" using x(2) unfolding lineage_chain_def by blast+
    then have "0 < length cs" by simp
    have p: "cp_sequence parent = int (length cs - 1)" "cp_checkpoint_id parent = cs ! (length cs - 1)"
      using new by (metis chain_checkpoint_simps(3), metis chain_checkpoint_simps(2))
    have "chain_checkpoint ?r (cs @ [c']) (ns @ [n']) (run_plan_sha256 run) (length cs) = cp"
      using ln p \<open>0 < length cs\<close>
      by (simp add: chain_checkpoint_def checkpoint_from_row_def chain_row_snoc cp successor_def last_conv_nth of_nat_diff)
    with head new a(4) show ?thesis by simp
  qed
qed

text \<open>
  A superseded checkpoint is refused for ever. Once the head of a run has moved past a
  checkpoint, no later state resumes from it, and an \<open>advance\<close> from it can only be the replay of
  the head's own commit, which returns the head and changes nothing: no second successor is created.
\<close>

theorem superseded_checkpoint_is_refused:
  assumes "recovery_inv db" and "cp_sequence cp < head_sequence db (cp_run_id cp)"
    and "now = after recovery_exec db ops"
  shows "\<not> returns (fst (resume cp plan now)) \<and>
    (fst (advance cp c n now) = Inr cp' \<longrightarrow>
       head_of_run now (cp_run_id cp) = Some cp' \<and> snd (advance cp c n now) = now)"
proof -
  have inv: "recovery_inv now" unfolding assms(3) using assms(1) by (rule recovery.after_inv)
  have below: "cp_sequence cp < head_sequence now (cp_run_id cp)"
    unfolding assms(3) using assms(1,2) by (rule recovery.superseded_stays)
  then have not_head: "head_of_run now (cp_run_id cp) \<noteq> Some cp" by (auto simp: head_sequence_def)
  have "\<not> returns (fst (resume cp plan now))"
  proof
    assume "returns (fst (resume cp plan now))"
    then obtain rest where "fst (resume cp plan now) = Inr rest" by (auto simp: returns_iff)
    then obtain run cs ns where "select_key (runs now) (cp_run_id cp) = Some run" "lineage_chain now (cp_run_id cp) run cs ns"
        "cp = chain_checkpoint (cp_run_id cp) cs ns (run_plan_sha256 run) (length cs - 1)"
      by (rule resume_Inr [OF inv])
    with head_of_chain(1) not_head show False by metis
  qed
  moreover have "head_of_run now (cp_run_id cp) = Some cp' \<and> snd (advance cp c n now) = now"
    if "fst (advance cp c n now) = Inr cp'"
    using advance_result(8) [OF inv that] not_head by simp
  ultimately show ?thesis by blast
qed

lemma load_checkpoint_stays:
  assumes "recovery_inv db" "load_checkpoint db r c = Some cp"
  shows "load_checkpoint (snd (recovery_exec db op)) r c = Some cp"
  using assms(1)
proof (cases rule: recovery_exec_cases [of db op])
  case (started r' plan c' run)
  have "select_key (checkpoints db) (r', c') = None" using recovery_invD(6) [OF assms(1) started(2)] .
  with started(7) assms(2) show ?thesis
    by (auto simp: load_checkpoint_def select_insert simp del: recovery_exec.simps)
next
  case (advanced parent c' n r' run cs ns)
  have "select_key (checkpoints db) (r', c') = None" using advanced(3,4) by (simp add: lineage_chain_def)
  with advanced(9) assms(2) show ?thesis
    by (auto simp: load_checkpoint_def advanced_db_def select_insert simp del: recovery_exec.simps)
qed (use assms(2) in \<open>simp_all add: load_checkpoint_def del: recovery_exec.simps\<close>)

text \<open>
  C14: Runs do not fork. If an \<open>advance\<close> from a checkpoint returned a successor, then every
  \<open>advance\<close> from the same checkpoint that returns, by whatever worker, at whatever later time and
  with whatever identity and progress, returns that same successor.
\<close>

theorem runs_do_not_fork:
  assumes "recovery_inv db" and "fst (advance parent c n db) = Inr cp"
    and "now = after recovery_exec (snd (advance parent c n db)) ops"
    and "fst (advance parent c' n' now) = Inr cp'"
  shows "cp' = cp"
proof -
  let ?r = "cp_run_id parent" and ?db = "snd (advance parent c n db)"
  note res = advance_result [OF assms(1,2)]
  have inv: "recovery_inv ?db" using recovery_exec_inv [OF assms(1), of "Advance parent c n"] by simp
  have invn: "recovery_inv now" unfolding assms(3) using inv by (rule recovery.after_inv)
  note res' = advance_result [OF invn assms(4)]
  have "head_sequence ?db ?r = cp_sequence parent + 1" using res(1,3) by (simp add: head_sequence_def)
  then have "cp_sequence parent < head_sequence now ?r"
    unfolding assms(3) using recovery.superseded_stays [OF inv, of "cp_sequence parent" ?r ops] by simp
  then have "head_of_run now ?r \<noteq> Some parent" by (auto simp: head_sequence_def)
  then have head': "head_of_run now ?r = Some cp'" using res'(8) by blast
  then have "head_sequence now ?r = head_sequence ?db ?r"
    using res'(3) \<open>head_sequence ?db ?r = cp_sequence parent + 1\<close> by (simp add: head_sequence_def)
  then have "head_of_run now ?r = head_of_run ?db ?r"
    unfolding assms(3) by (intro recovery.view_unchanged inv)
  with head' res(1) show ?thesis by simp
qed

lemma advance_replay:
  assumes inv: "recovery_inv db" and head: "head_of_run db r = Some cp" and r: "cp_run_id parent = r" "cp_run_id cp = r"
    and load: "load_checkpoint db r (cp_checkpoint_id parent) = Some parent"
    and cp: "cp_sequence cp = cp_sequence parent + 1" "cp_parent_checkpoint_id cp = Some (cp_checkpoint_id parent)"
    and c: "\<not> blank (cp_checkpoint_id cp)"
  shows "advance parent (PStr (cp_checkpoint_id cp)) (PInt (cp_completed_count cp)) db = (Inr cp, db)"
proof -
  obtain run where run: "select_key (runs db) r = Some run" and h: "load_checkpoint db r (run_head_checkpoint_id run) = Some cp"
    using head by (auto simp: head_of_run_def split: option.splits)
  obtain cs ns where chain: "lineage_chain db r run cs ns" using recovery_invD(5) [OF inv run] by blast
  have "cp_checkpoint_id cp = run_head_checkpoint_id run"
    using h by (auto simp: load_checkpoint_def checkpoint_from_row_def)
  moreover have "cp_plan_sha256 cp = run_plan_sha256 run"
    using head_of_chain(1) [OF run chain] head by (metis chain_checkpoint_simps(5) option.inject)
  then have "\<lparr>cp_run_id = r, cp_checkpoint_id = cp_checkpoint_id cp, cp_sequence = cp_sequence parent + 1,
      cp_parent_checkpoint_id = Some (cp_checkpoint_id parent), cp_plan_sha256 = run_plan_sha256 run,
      cp_completed_count = cp_completed_count cp\<rparr> = cp"
    using r cp by (cases cp) simp
  ultimately have "advance_txn parent (cp_checkpoint_id cp) (cp_completed_count cp) db = (Inr cp, db)"
    using run h load r(1) by (simp add: advance_txn_def Let_def)
  with c show ?thesis by (simp add: advance_def transaction_def)
qed

text \<open>
  C39: Committing a checkpoint is durable and idempotent. When \<open>advance\<close> returns a checkpoint, that
  checkpoint is what \<open>current\<close> reads next, repeating the same call returns the same checkpoint
  and changes nothing, and resuming from it with the plan of the run returns the operations
  after its completed count.
\<close>

theorem committed_checkpoint_is_current:
  assumes "recovery_inv db" and "fst (advance parent c n db) = Inr cp" and "db' = snd (advance parent c n db)"
  shows "current_checkpoint (cp_run_id parent) db' = (Inr cp, db') \<and> advance parent c n db' = (Inr cp, db') \<and>
    (\<forall>run plan. select_key (runs db') (cp_run_id parent) = Some run \<and> bound_to run plan \<longrightarrow>
       resume cp plan db' = (Inr (drop (nat (cp_completed_count cp)) plan), db'))"
proof (intro conjI allI impI)
  let ?r = "cp_run_id parent"
  note res = advance_result [OF assms(1,2), folded assms(3)]
  have inv: "recovery_inv db'"
    unfolding assms(3) using recovery_exec_inv [OF assms(1), of "Advance parent c n"] by simp
  obtain run where run: "select_key (runs db') ?r = Some run" and h: "load_checkpoint db' ?r (run_head_checkpoint_id run) = Some cp"
    using res(1) by (auto simp: head_of_run_def split: option.splits)
  show "current_checkpoint ?r db' = (Inr cp, db')"
    by (simp add: current_checkpoint_def transaction_def run h)
  have "\<not> blank (cp_checkpoint_id cp)"
    using advance_Inr [OF assms(2)] res(6) by (metis pyval.inject(4))
  moreover have "load_checkpoint db' ?r (cp_checkpoint_id parent) = Some parent"
    unfolding assms(3) using load_checkpoint_stays [OF assms(1) res(7), of "Advance parent c n"] by simp
  ultimately have "advance parent (PStr (cp_checkpoint_id cp)) (PInt (cp_completed_count cp)) db' = (Inr cp, db')"
    using inv res(1-4) by (intro advance_replay [of db' ?r]) simp_all
  then show "advance parent c n db' = (Inr cp, db')" using res(5,6) by simp
  fix run' plan
  assume "select_key (runs db') ?r = Some run' \<and> bound_to run' plan"
  then have b: "bound_to run plan" using run by simp
  have id: "cp_checkpoint_id cp = run_head_checkpoint_id run"
    using h by (auto simp: load_checkpoint_def checkpoint_from_row_def)
  obtain cs ns where chain: "lineage_chain db' ?r run cs ns" using recovery_invD(5) [OF inv run] by blast
  have "length cs - 1 < length cs" using chain by (simp add: lineage_chain_def)
  from chain_bounds(1) [OF chain this] head_of_chain(1) [OF run chain] res(1)
  have "0 \<le> cp_completed_count cp" by (metis chain_checkpoint_simps(4) of_nat_0_le_iff option.inject order_trans)
  with b id h run res(2) show "resume cp plan db' = (Inr (drop (nat (cp_completed_count cp)) plan), db')"
    by (simp add: resume_def materialize_plan_Inr [THEN iffD2] bound_to_def transaction_def slice_from_def)
qed

subsection \<open>Concrete runs\<close>

definition demo_plan :: "RecoveryOperation list" where
  "demo_plan = [\<lparr>ro_operation_id = ''op-1'', ro_tool = ''edit'', ro_payload = ''a''\<rparr>,
                \<lparr>ro_operation_id = ''op-2'', ro_tool = ''test'', ro_payload = ''b''\<rparr>]"

definition demo_sha :: string where
  "demo_sha = sha256_text (plan_json demo_plan)"

definition demo_first :: RecoveryCheckpoint where
  "demo_first = \<lparr>cp_run_id = ''run-1'', cp_checkpoint_id = ''start'', cp_sequence = 0,
     cp_parent_checkpoint_id = None, cp_plan_sha256 = demo_sha, cp_completed_count = 0\<rparr>"

definition demo_next :: RecoveryCheckpoint where
  "demo_next = \<lparr>cp_run_id = ''run-1'', cp_checkpoint_id = ''cp-1'', cp_sequence = 1,
     cp_parent_checkpoint_id = Some ''start'', cp_plan_sha256 = demo_sha, cp_completed_count = 1\<rparr>"

lemmas demo_checkpoints = demo_first_def demo_next_def

definition demo_run :: "string \<Rightarrow> run_row" where
  "demo_run head = \<lparr>run_plan_json = plan_json demo_plan, run_plan_sha256 = demo_sha, run_operation_count = 2,
     run_head_checkpoint_id = head\<rparr>"

definition demo_db0 :: recovery_db where
  "demo_db0 = \<lparr>schema_version = 0, runs = [(''run-1'', demo_run ''start'')],
     checkpoints = [((''run-1'', ''start''), chain_row [''start''] [0] demo_sha 0)]\<rparr>"

definition demo_db1 :: recovery_db where
  "demo_db1 = \<lparr>schema_version = 0, runs = [(''run-1'', demo_run ''cp-1'')],
     checkpoints = [((''run-1'', ''start''), chain_row [''start''] [0] demo_sha 0),
       ((''run-1'', ''cp-1''), chain_row [''start'', ''cp-1''] [0, 1] demo_sha 1)]\<rparr>"

lemma demo_names: "\<not> blank ''run-1''" "\<not> blank ''start''" "\<not> blank ''cp-1''"
  by (simp_all add: blank_iff py_isspace_def)

lemma demo_materialize: "materialize_plan demo_plan = Inr (demo_plan, plan_json demo_plan, demo_sha)"
  by (simp add: materialize_plan_Inr demo_sha_def) (simp add: demo_plan_def)

lemma demo_start: "start (PStr ''run-1'') demo_plan (PStr ''start'') new_recovery_file = (Inr demo_first, demo_db0)"
proof -
  have "length demo_plan = 2" by (simp add: demo_plan_def)
  then show ?thesis
    using start_txn_Inr [OF recovery_inv_new, of "''run-1''" demo_plan "''start''" "plan_json demo_plan" demo_sha]
    by (simp add: start_def demo_names demo_materialize transaction_def demo_checkpoints demo_db0_def demo_run_def
        new_recovery_file_def insert_row_def fits_int64_def)
qed

lemma demo_advance: "advance demo_first (PStr ''cp-1'') (PInt 1) demo_db0 = (Inr demo_next, demo_db1)"
  by (simp add: advance_def demo_names transaction_def advance_txn_def demo_checkpoints demo_db0_def demo_db1_def
      demo_run_def select_key_def load_checkpoint_def checkpoint_from_row_def chain_row_def insert_checkpoint_def
      fits_int64_def checkpoint_to_row_def insert_row_def update_row_def Let_def)

lemma demo_db0_inv: "recovery_inv demo_db0"
  using recovery_exec_inv [OF recovery_inv_new, of "Start (PStr ''run-1'') demo_plan (PStr ''start'')"]
  by (simp add: demo_start)

lemma demo_db1_inv: "recovery_inv demo_db1"
  using recovery_exec_inv [OF demo_db0_inv, of "Advance demo_first (PStr ''cp-1'') (PInt 1)"]
  by (simp add: demo_advance)

lemma demo_resume: "resume demo_next demo_plan demo_db1 = (Inr (tl demo_plan), demo_db1)"
  by (simp add: resume_def demo_materialize transaction_def demo_db1_def demo_run_def select_key_def load_checkpoint_def
      checkpoint_from_row_def chain_row_def demo_checkpoints slice_from_def)
    (simp add: demo_plan_def)

lemma run_lineage_is_append_only_chain_witness:
  "\<exists>run' cs' ns'. select_key (runs (after recovery_exec demo_db0 [Advance demo_first (PStr ''cp-1'') (PInt 1)])) ''run-1'' =
     Some run' \<and> same_binding (demo_run ''start'') run' \<and>
     lineage_chain (after recovery_exec demo_db0 [Advance demo_first (PStr ''cp-1'') (PInt 1)]) ''run-1'' run'
       ([''start''] @ cs') ([0] @ ns')"
proof (rule run_lineage_is_append_only_chain [OF demo_db0_inv])
  show "select_key (runs demo_db0) ''run-1'' = Some (demo_run ''start'')" by (simp add: demo_db0_def select_key_def)
  show "lineage_chain demo_db0 ''run-1'' (demo_run ''start'') [''start''] [0]"
    by (simp add: lineage_chain_def demo_db0_def demo_run_def select_key_def)
qed

lemma run_progress_terminates_witness:
  "\<exists>run' cs' ns'. lineage_chain (after recovery_exec demo_db0 [Advance demo_first (PStr ''cp-1'') (PInt 1)]) ''run-1'' run'
     ([''start''] @ cs') ([0] @ ns') \<and> int (length cs') \<le> run_operation_count (demo_run ''start'')"
proof -
  have "select_key (runs demo_db0) ''run-1'' = Some (demo_run ''start'')" by (simp add: demo_db0_def select_key_def)
  moreover have "lineage_chain demo_db0 ''run-1'' (demo_run ''start'') [''start''] [0]"
    by (simp add: lineage_chain_def demo_db0_def demo_run_def select_key_def)
  ultimately show ?thesis
    using run_progress_terminates [OF demo_db0_inv, of "''run-1''" "demo_run ''start''" "[''start'']" "[0]"] by fastforce
qed

lemma resume_returns_remaining_plan_witness:
  "head_of_run (after recovery_exec demo_db0 [Advance demo_first (PStr ''cp-1'') (PInt 1)]) ''run-1'' = Some demo_next \<and>
   (\<exists>finished. demo_plan = finished @ tl demo_plan \<and> int (length finished) = cp_completed_count demo_next)"
proof -
  have start: "fst (start (PStr ''run-1'') demo_plan (PStr ''start'') new_recovery_file) = Inr demo_first"
    by (simp add: demo_start)
  have now: "demo_db1 = after recovery_exec (snd (start (PStr ''run-1'') demo_plan (PStr ''start'') new_recovery_file))
      [Advance demo_first (PStr ''cp-1'') (PInt 1)]"
    by (simp add: demo_start demo_advance)
  have "fst (resume demo_next demo_plan demo_db1) = Inr (tl demo_plan)" by (simp add: demo_resume)
  moreover have "cp_run_id demo_next = ''run-1''" by (simp add: demo_checkpoints)
  ultimately show ?thesis
    using resume_returns_remaining_plan [OF recovery_inv_new start now] by (simp add: demo_advance)
qed

lemma superseded_checkpoint_is_refused_witness:
  "\<not> returns (fst (resume demo_first demo_plan
      (after recovery_exec demo_db1 [Advance demo_first (PStr ''fork'') (PInt 2)])))"
proof -
  have "cp_sequence demo_first < head_sequence demo_db1 (cp_run_id demo_first)"
    by (simp add: head_sequence_def head_of_run_def demo_db1_def demo_run_def demo_checkpoints select_key_def
        load_checkpoint_def checkpoint_from_row_def chain_row_def)
  then show ?thesis using superseded_checkpoint_is_refused [OF demo_db1_inv _ refl] by blast
qed

lemma runs_do_not_fork_witness:
  "demo_next = demo_next \<and>
   fst (advance demo_first (PStr ''cp-1'') (PInt 1) demo_db1) = Inr demo_next"
proof -
  have step: "fst (advance demo_first (PStr ''cp-1'') (PInt 1) demo_db0) = Inr demo_next"
    by (simp add: demo_advance)
  have now: "demo_db1 = after recovery_exec (snd (advance demo_first (PStr ''cp-1'') (PInt 1) demo_db0)) []"
    by (simp add: demo_advance)
  have again: "fst (advance demo_first (PStr ''cp-1'') (PInt 1) demo_db1) = Inr demo_next"
    by (simp add: advance_def demo_names transaction_def advance_txn_def demo_checkpoints demo_db1_def
        demo_run_def select_key_def load_checkpoint_def checkpoint_from_row_def chain_row_def Let_def)
  from runs_do_not_fork [OF demo_db0_inv step now again] again show ?thesis by (rule conjI)
qed

lemma committed_checkpoint_is_current_witness:
  "current_checkpoint ''run-1'' demo_db1 = (Inr demo_next, demo_db1) \<and>
   advance demo_first (PStr ''cp-1'') (PInt 1) demo_db1 = (Inr demo_next, demo_db1)"
proof -
  have step: "fst (advance demo_first (PStr ''cp-1'') (PInt 1) demo_db0) = Inr demo_next"
    by (simp add: demo_advance)
  have db: "demo_db1 = snd (advance demo_first (PStr ''cp-1'') (PInt 1) demo_db0)" by (simp add: demo_advance)
  from committed_checkpoint_is_current [OF demo_db0_inv step db] show ?thesis by (simp add: demo_checkpoints(1))
qed

end
