(* ===== verification/Documents.thy ===== *)
theory Documents
  imports Prelude
begin

section \<open>JSON documents as Python sees them\<close>

text \<open>
  The operations of Python that the trace validator and the evaluation scripts apply to parsed
  JSON: equality across types, \<open>dict.get\<close>, set membership with its hash, \<open>int()\<close> on
  strings, and the list and dict updates at the end of a JSON pointer.
\<close>

type_synonym items = "(string \<times> pyval) list"

subsection \<open>Types and equality\<close>

fun as_items :: "pyval \<Rightarrow> items option" where
  "as_items (PDict d) = Some d"
| "as_items _ = None"

fun as_list :: "pyval \<Rightarrow> pyval list option" where
  "as_list (PList xs) = Some xs"
| "as_list _ = None"

text \<open>\<open>isinstance(v, int)\<close> holds of booleans too; \<open>True\<close> counts as 1.\<close>

fun as_int :: "pyval \<Rightarrow> int option" where
  "as_int (PInt n) = Some n"
| "as_int (PBool b) = Some (of_bool b)"
| "as_int _ = None"

fun is_bool :: "pyval \<Rightarrow> bool" where
  "is_bool (PBool b) = True"
| "is_bool _ = False"

fun as_number :: "pyval \<Rightarrow> rat option" where
  "as_number (PInt n) = Some (of_int n)"
| "as_number (PBool b) = Some (of_bool b)"
| "as_number (PFloat q) = Some q"
| "as_number _ = None"

text \<open>
  \<open>==\<close>: numbers by value across \<open>bool\<close>, \<open>int\<close> and \<open>float\<close>, lists element by
  element, dicts by their keys whatever the order of insertion.
\<close>

fun py_eq :: "pyval \<Rightarrow> pyval \<Rightarrow> bool"
  and py_eq_list :: "pyval list \<Rightarrow> pyval list \<Rightarrow> bool"
  and py_eq_items :: "(string \<times> pyval) list \<Rightarrow> (string \<times> pyval) list \<Rightarrow> bool" where
  "py_eq (PStr s) w = (w = PStr s)"
| "py_eq PNone w = (w = PNone)"
| "py_eq (PList xs) w = (case w of PList ys \<Rightarrow> length xs = length ys \<and> py_eq_list xs ys | _ \<Rightarrow> False)"
| "py_eq (PDict d) w = (case w of PDict e \<Rightarrow> length d = length e \<and> py_eq_items d e | _ \<Rightarrow> False)"
| "py_eq (PBool b) w = (as_number w = Some (of_bool b))"
| "py_eq (PInt n) w = (as_number w = Some (of_int n))"
| "py_eq (PFloat q) w = (as_number w = Some q)"
| "py_eq_list [] ys = (ys = [])"
| "py_eq_list (x # xs) ys = (case ys of [] \<Rightarrow> False | y # ys' \<Rightarrow> py_eq x y \<and> py_eq_list xs ys')"
| "py_eq_items [] e = True"
| "py_eq_items ((k, v) # d) e = (case map_of e k of None \<Rightarrow> False | Some w \<Rightarrow> py_eq v w \<and> py_eq_items d e)"

text \<open>A parsed document has distinct keys in every dict.\<close>

fun wf_doc :: "pyval \<Rightarrow> bool"
  and wf_items :: "(string \<times> pyval) list \<Rightarrow> bool"
  and wf_list :: "pyval list \<Rightarrow> bool" where
  "wf_doc (PDict d) = (distinct (map fst d) \<and> wf_items d)"
| "wf_doc (PList xs) = wf_list xs"
| "wf_doc v = True"
| "wf_items [] = True"
| "wf_items ((k, v) # d) = (wf_doc v \<and> wf_items d)"
| "wf_list [] = True"
| "wf_list (x # xs) = (wf_doc x \<and> wf_list xs)"

lemma wf_items_iff: "wf_items d \<longleftrightarrow> (\<forall>(k, v) \<in> set d. wf_doc v)"
  by (induction d) auto

lemma wf_list_iff: "wf_list xs \<longleftrightarrow> (\<forall>x \<in> set xs. wf_doc x)"
  by (induction xs) auto

lemma wf_child: "wf_items d \<Longrightarrow> map_of d k = Some v \<Longrightarrow> wf_doc v"
  by (auto simp: wf_items_iff dest: map_of_SomeD)

lemma py_eq_str [simp]: "py_eq v (PStr s) \<longleftrightarrow> v = PStr s"
  by (cases v) auto

lemma py_eq_none [simp]: "py_eq v PNone \<longleftrightarrow> v = PNone"
  by (cases v) auto

lemma as_number_int: "as_int v = Some n \<Longrightarrow> as_number v = Some (of_int n)"
  by (cases v) auto

lemma py_eq_int: "py_eq v (PInt n) \<longleftrightarrow> as_number v = Some (of_int n)"
  by (cases v) auto

lemma py_eq_number:
  "as_number v = Some a \<Longrightarrow> as_number w = Some b \<Longrightarrow> py_eq v w \<longleftrightarrow> a = b"
  by (cases v; cases w) auto

definition py_get :: "items \<Rightarrow> string \<Rightarrow> pyval" where
  "py_get d k = (case map_of d k of None \<Rightarrow> PNone | Some v \<Rightarrow> v)"

lemma py_get_Cons: "py_get ((k, v) # d) name = (if name = k then v else py_get d name)"
  by (simp add: py_get_def)

lemma py_get_Nil [simp]: "py_get [] name = PNone"
  by (simp add: py_get_def)

text \<open>Two dicts that are \<open>==\<close> have the same keys, with values that are \<open>==\<close>, in whatever order.\<close>

lemma py_eq_items_get: "py_eq_items d e \<Longrightarrow> (k, v) \<in> set d \<Longrightarrow> \<exists>w. map_of e k = Some w \<and> py_eq v w"
  by (induction d) (auto split: option.splits)

lemma py_eq_dict_keys:
  assumes "py_eq (PDict d) (PDict e)" "distinct (map fst d)" "distinct (map fst e)"
  shows "set (map fst d) = set (map fst e)"
proof (rule card_subset_eq)
  show "set (map fst d) \<subseteq> set (map fst e)"
  proof
    fix k assume "k \<in> set (map fst d)"
    then obtain v where "(k, v) \<in> set d" by auto
    moreover have "py_eq_items d e" using assms(1) by simp
    ultimately obtain w where "map_of e k = Some w" using py_eq_items_get by blast
    from map_of_SomeD [OF this] show "k \<in> set (map fst e)" by force
  qed
  show "card (set (map fst d)) = card (set (map fst e))"
    using assms by (simp add: distinct_card del: set_map)
qed simp

lemma py_eq_dict_get:
  assumes "py_eq (PDict d) (PDict e)" "distinct (map fst d)" "distinct (map fst e)" "map_of e k = Some w"
  shows "\<exists>v. map_of d k = Some v \<and> py_eq v w"
proof -
  have "k \<in> set (map fst e)" using map_of_SomeD [OF assms(4)] by force
  then have "k \<in> set (map fst d)" by (simp only: py_eq_dict_keys [OF assms(1-3)])
  then obtain v where v: "(k, v) \<in> set d" by auto
  moreover have "py_eq_items d e" using assms(1) by simp
  ultimately have "py_eq v w" using py_eq_items_get assms(4) by fastforce
  with v assms(2) show ?thesis by auto
qed

lemma py_eq_as_number: "py_eq v w \<Longrightarrow> as_number w = Some q \<Longrightarrow> as_number v = Some q"
  by (cases v) (auto split: pyval.splits)

text \<open>\<open>isinstance(v, str) and v\<close>, negated.\<close>

definition not_text :: "pyval \<Rightarrow> bool" where
  "not_text v \<longleftrightarrow> (case v of PStr s \<Rightarrow> s = [] | _ \<Rightarrow> True)"

text \<open>\<open>v[name]\<close> with a string index: only a dict takes one.\<close>

definition subscript :: "pyval \<Rightarrow> string \<Rightarrow> pyval result" where
  "subscript v name =
     (case v of
        PDict d \<Rightarrow> (case map_of d name of None \<Rightarrow> raise KeyError name | Some w \<Rightarrow> Inr w)
      | _ \<Rightarrow> raise TypeError ''value takes no string index'')"

definition member_item :: "items \<Rightarrow> string \<Rightarrow> pyval result" where
  "member_item d name = (case map_of d name of None \<Rightarrow> raise KeyError name | Some v \<Rightarrow> Inr v)"

definition dict_of :: "pyval \<Rightarrow> items" where
  "dict_of v = (case as_items v of None \<Rightarrow> [] | Some d \<Rightarrow> d)"

text \<open>\<open>if b: names.append(name)\<close>\<close>

definition flag :: "bool \<Rightarrow> string \<Rightarrow> string list \<Rightarrow> string list" where
  "flag b name names = (if b then names @ [name] else names)"

text \<open>
  \<open>str(v)\<close>: exact for strings, \<open>None\<close>, booleans and integers. The text of a float, a list or a dict
  is the argument \<open>repr\<close>; it only shows in comparisons with a runner's name and in messages.
\<close>

definition py_str :: "(pyval \<Rightarrow> string) \<Rightarrow> pyval \<Rightarrow> string" where
  "py_str repr v =
     (case v of PStr s \<Rightarrow> s | PNone \<Rightarrow> ''None'' | PInt n \<Rightarrow> show_int n
      | PBool b \<Rightarrow> (if b then ''True'' else ''False'') | _ \<Rightarrow> repr v)"

definition get_or :: "items \<Rightarrow> string \<Rightarrow> pyval \<Rightarrow> pyval" where
  "get_or d name fallback = (case map_of d name of None \<Rightarrow> fallback | Some v \<Rightarrow> v)"

lemma not_text_iff: "\<not> not_text v \<longleftrightarrow> (\<exists>s. v = PStr s \<and> s \<noteq> [])"
  by (cases v) (auto simp: not_text_def)

text \<open>Membership in a set of strings hashes the value first; a list or a dict has no hash.\<close>

fun hashable :: "pyval \<Rightarrow> bool" where
  "hashable (PList xs) = False"
| "hashable (PDict d) = False"
| "hashable _ = True"

definition member_of :: "pyval \<Rightarrow> string list \<Rightarrow> bool result" where
  "member_of v names =
     (if hashable v then Inr (is_str v \<and> str_of v \<in> set names)
      else raise TypeError ''unhashable type'')"

lemma member_of_Inr: "member_of v names = Inr b \<longleftrightarrow> hashable v \<and> b = (is_str v \<and> str_of v \<in> set names)"
  by (auto simp: member_of_def)

subsection \<open>Integers in text\<close>

text \<open>
  \<open>int(text, base)\<close> for base 10 and 16: surrounding whitespace, one sign, for base 16 an optional
  prefix \<open>0x\<close> that one underscore may follow, then digits with single underscores between
  them. Base 10 takes at most 4300 digits, the interpreter's default limit.
\<close>

definition int_space :: "char \<Rightarrow> bool" where
  "int_space c = (let n = (of_char c :: nat) in (9 \<le> n \<and> n \<le> 13) \<or> n = 32 \<or> n = 133 \<or> n = 160)"

definition digit_value :: "char \<Rightarrow> nat" where
  "digit_value c =
     (let n = (of_char c :: nat) in
      if 48 \<le> n \<and> n \<le> 57 then n - 48
      else if 97 \<le> n \<and> n \<le> 122 then n - 87
      else if 65 \<le> n \<and> n \<le> 90 then n - 55
      else 99)"

definition is_digit :: "nat \<Rightarrow> char \<Rightarrow> bool" where
  "is_digit base c \<longleftrightarrow> digit_value c < base"

fun double_underscore :: "string \<Rightarrow> bool" where
  "double_underscore (a # b # s) = ((a = CHR ''_'' \<and> b = CHR ''_'') \<or> double_underscore (b # s))"
| "double_underscore _ = False"

definition parse_digits :: "nat \<Rightarrow> string \<Rightarrow> nat option" where
  "parse_digits base s =
     (let run = takeWhile (\<lambda>c. is_digit base c \<or> c = CHR ''_'') s;
          rest = dropWhile (\<lambda>c. is_digit base c \<or> c = CHR ''_'') s;
          digits = filter (is_digit base) run in
      if run = [] \<or> hd run = CHR ''_'' \<or> last run = CHR ''_'' \<or> double_underscore run \<or>
         \<not> list_all int_space rest \<or> (base = 10 \<and> 4300 < length digits)
      then None else Some (foldl (\<lambda>a c. base * a + digit_value c) 0 digits))"

definition drop_prefix :: "nat \<Rightarrow> string \<Rightarrow> string" where
  "drop_prefix base s =
     (if base = 16 \<and> (take 2 s = ''0x'' \<or> take 2 s = ''0X'') then
        (let rest = drop 2 s in if rest \<noteq> [] \<and> hd rest = CHR ''_'' then tl rest else rest)
      else s)"

definition parse_int :: "nat \<Rightarrow> string \<Rightarrow> int option" where
  "parse_int base s =
     (let r = dropWhile int_space s in
      if r \<noteq> [] \<and> hd r = CHR ''-''
      then map_option (\<lambda>n. - int n) (parse_digits base (drop_prefix base (tl r)))
      else if r \<noteq> [] \<and> hd r = CHR ''+'' then map_option int (parse_digits base (drop_prefix base (tl r)))
      else map_option int (parse_digits base (drop_prefix base r)))"

lemma double_underscore_mem: "double_underscore s \<Longrightarrow> CHR ''_'' \<in> set s"
  by (induction s rule: double_underscore.induct) auto

text \<open>Text that holds only digits of the base, no sign and no prefix.\<close>

lemma parse_digits_plain:
  assumes s: "s \<noteq> []" "\<And>c. c \<in> set s \<Longrightarrow> is_digit base c \<and> c \<noteq> CHR ''_''"
    and short: "base = 10 \<longrightarrow> length s \<le> 4300"
  shows "parse_digits base s = Some (foldl (\<lambda>a c. base * a + digit_value c) 0 s)"
proof -
  have run: "takeWhile (\<lambda>c. is_digit base c \<or> c = CHR ''_'') s = s"
    "dropWhile (\<lambda>c. is_digit base c \<or> c = CHR ''_'') s = []" "filter (is_digit base) s = s"
    using s(2) by (simp_all add: takeWhile_eq_all_conv dropWhile_eq_Nil_conv filter_id_conv)
  have "hd s \<noteq> CHR ''_''" "last s \<noteq> CHR ''_''" "\<not> double_underscore s"
    using s double_underscore_mem by (auto dest: hd_in_set last_in_set)
  then show ?thesis
    using s(1) short by (simp add: parse_digits_def run Let_def not_less)
qed

lemma parse_plain:
  assumes s: "s \<noteq> []" "\<And>c. c \<in> set s \<Longrightarrow> is_digit base c \<and> c \<noteq> CHR ''_''"
    and first: "\<not> int_space (hd s)" "hd s \<noteq> CHR ''-''" "hd s \<noteq> CHR ''+''"
    and prefix: "drop_prefix base s = s" and short: "base = 10 \<longrightarrow> length s \<le> 4300"
  shows "parse_int base s = Some (int (foldl (\<lambda>a c. base * a + digit_value c) 0 s))"
proof -
  have lead: "dropWhile int_space s = s"
    using s(1) first(1) by (cases s) simp_all
  have "parse_digits base s = Some (foldl (\<lambda>a c. base * a + digit_value c) 0 s)"
    using s short by (rule parse_digits_plain)
  then show ?thesis
    using first(2,3) by (simp add: parse_int_def lead prefix Let_def)
qed

definition py_int :: "string \<Rightarrow> int result" where
  "py_int s =
     (case parse_int 10 s of
        None \<Rightarrow> raise ValueError (''invalid literal for int() with base 10: '' @ quoted s)
      | Some n \<Rightarrow> Inr n)"

text \<open>\<open>str.lower\<close> on code points below 256.\<close>

definition lower_char :: "char \<Rightarrow> char" where
  "lower_char c =
     (let n = (of_char c :: nat) in
      if (65 \<le> n \<and> n \<le> 90) \<or> (192 \<le> n \<and> n \<le> 222 \<and> n \<noteq> 215) then char_of (n + 32) else c)"

definition py_lower :: "string \<Rightarrow> string" where
  "py_lower s = map lower_char s"

subsection \<open>Pieces of text\<close>

text \<open>\<open>s.split(sep)\<close> for a one-character separator, and \<open>s.replace(ab, c)\<close> for a two-character one.\<close>

fun split_on :: "char \<Rightarrow> string \<Rightarrow> string list" where
  "split_on sep [] = [[]]"
| "split_on sep (c # s) =
     (if c = sep then [] # split_on sep s
      else case split_on sep s of [] \<Rightarrow> [[c]] | t # ts \<Rightarrow> (c # t) # ts)"

fun replace_pair :: "char \<Rightarrow> char \<Rightarrow> char \<Rightarrow> string \<Rightarrow> string" where
  "replace_pair a b c (x # y # s) =
     (if x = a \<and> y = b then c # replace_pair a b c s else x # replace_pair a b c (y # s))"
| "replace_pair a b c s = s"

subsection \<open>Reading and writing one child\<close>

text \<open>A negative list index counts from the end.\<close>

definition list_index :: "pyval list \<Rightarrow> int \<Rightarrow> nat option" where
  "list_index xs i =
     (let n = int (length xs); j = (if i < 0 then i + n else i) in
      if 0 \<le> j \<and> j < n then Some (nat j) else None)"

lemma list_index_Some: "list_index xs i = Some j \<Longrightarrow> j < length xs"
  by (auto simp: list_index_def Let_def split: if_splits)

lemma list_index_cong: "length xs = length ys \<Longrightarrow> list_index xs i = list_index ys i"
  by (simp add: list_index_def)

definition set_item :: "string \<Rightarrow> pyval \<Rightarrow> items \<Rightarrow> items" where
  "set_item k v d = map (\<lambda>(k', w). (k', if k' = k then v else w)) d"

definition del_item :: "string \<Rightarrow> items \<Rightarrow> items" where
  "del_item k d = filter (\<lambda>(k', w). k' \<noteq> k) d"

lemma map_of_set_item: "map_of (set_item k v d) k' = (if k' = k then map_option (\<lambda>_. v) (map_of d k) else map_of d k')"
  by (induction d) (auto simp: set_item_def)

lemma keys_set_item [simp]: "map fst (set_item k v d) = map fst d"
  by (auto simp: set_item_def)

lemma map_of_del_item: "map_of (del_item k d) k' = (if k' = k then None else map_of d k')"
  by (induction d) (auto simp: del_item_def)

lemma set_item_same: "distinct (map fst d) \<Longrightarrow> map_of d k = Some v \<Longrightarrow> set_item k v d = d"
  unfolding set_item_def by (rule map_idI) (auto dest: eq_key_imp_eq_value)

lemma set_item_set_item [simp]: "set_item k v (set_item k w d) = set_item k v d"
  by (auto simp: set_item_def)

end
