(* ===== verification/TraceIntegrity.thy ===== *)
theory TraceIntegrity
  imports Documents Digest
begin

section \<open>Trace integrity (\<open>trace_integrity.py\<close>)\<close>

text \<open>
  The validator of recorded traces, the mutations that corrupt a trace at a JSON pointer, and the
  evaluation of a corpus of both. A trace is a parsed JSON object, so every field is a dynamically
  typed value; \<open>record.get(name)\<close> is \<open>py_get\<close>. The set \<open>violations\<close> is the list of the names added,
  and the result is that list without repetitions, sorted. Rates are exact quotients.
\<close>

definition record_kinds :: "string list" where
  "record_kinds =
     [''runtime_event'', ''approval'', ''effect'', ''checkpoint'', ''provider_evidence'',
      ''reconciliation_completion'']"

definition event_kinds :: "string list" where
  "event_kinds = [''output'', ''completed'', ''failed'']"

definition readback_states :: "string list" where
  "readback_states = [''present'', ''absent'', ''ambiguous'']"

definition decisions :: "string list" where
  "decisions = [''approved'', ''denied'']"

fun is_sha256 :: "pyval \<Rightarrow> bool" where
  "is_sha256 (PStr s) =
     (if length s \<noteq> 64 then False
      else case parse_int 16 s of None \<Rightarrow> False | Some n \<Rightarrow> s = py_lower s)"
| "is_sha256 _ = False"

definition effect_fingerprint :: "string \<Rightarrow> string \<Rightarrow> string \<Rightarrow> string \<Rightarrow> string" where
  "effect_fingerprint provider operation_id tool payload_sha256 =
     sha256_text (json_strings [provider, operation_id, tool, payload_sha256])"

subsection \<open>Mutations\<close>

text \<open>
  A mutation works on a deep copy, so it is a function to the changed document. A parsed document
  shares no parts, so a change at one place shows at no other. \<open>at_parent\<close> follows the tokens to the
  parent, as \<open>_pointer_parent\<close> does, and changes it there.
\<close>

definition pointer_tokens :: "string \<Rightarrow> string list result" where
  "pointer_tokens pointer =
     (if pointer = [] \<or> hd pointer \<noteq> CHR ''/''
      then raise ValueError ''mutation path must be an absolute JSON pointer''
      else
        let tokens = map (\<lambda>token. replace_pair (CHR ''~'') (CHR ''0'') (CHR ''~'')
                                    (replace_pair (CHR ''~'') (CHR ''1'') (CHR ''/'') token))
                       (split_on (CHR ''/'') (tl pointer)) in
        if tokens = [] \<or> tokens = [[]]
        then raise ValueError ''mutation path must target a child value''
        else Inr tokens)"

fun at_parent :: "string list \<Rightarrow> (pyval \<Rightarrow> pyval result) \<Rightarrow> pyval \<Rightarrow> pyval result" where
  "at_parent [] change doc = change doc"
| "at_parent (token # tokens) change doc =
     (case doc of
        PList xs \<Rightarrow>
          bind_result (py_int token) (\<lambda>i.
            case list_index xs i of
              None \<Rightarrow> raise IndexError ''list index out of range''
            | Some j \<Rightarrow>
                bind_result (at_parent tokens change (xs ! j)) (\<lambda>v. Inr (PList (xs[j := v]))))
      | PDict d \<Rightarrow>
          (case map_of d token of
             None \<Rightarrow> raise KeyError token
           | Some child \<Rightarrow>
               bind_result (at_parent tokens change child) (\<lambda>v. Inr (PDict (set_item token v d))))
      | _ \<Rightarrow> raise TypeError (''mutation path crosses a scalar at '' @ quoted token))"

definition replace_child :: "string \<Rightarrow> pyval \<Rightarrow> pyval \<Rightarrow> pyval result" where
  "replace_child token v parent =
     (case parent of
        PList xs \<Rightarrow>
          bind_result (py_int token) (\<lambda>i.
            case list_index xs i of
              None \<Rightarrow> raise IndexError ''list assignment index out of range''
            | Some j \<Rightarrow> Inr (PList (xs[j := v])))
      | PDict d \<Rightarrow>
          (if map_of d token = None then raise KeyError token
           else Inr (PDict (set_item token v d)))
      | _ \<Rightarrow> raise ValueError ''replace target parent must be a list or object'')"

definition remove_child :: "string \<Rightarrow> pyval \<Rightarrow> pyval result" where
  "remove_child token parent =
     (case parent of
        PList xs \<Rightarrow>
          bind_result (py_int token) (\<lambda>i.
            case list_index xs i of
              None \<Rightarrow> raise IndexError ''list assignment index out of range''
            | Some j \<Rightarrow> Inr (PList (take j xs @ drop (Suc j) xs)))
      | PDict d \<Rightarrow>
          (if map_of d token = None then raise KeyError token
           else Inr (PDict (del_item token d)))
      | _ \<Rightarrow> raise ValueError ''remove target parent must be a list or object'')"

text \<open>The message of the last error continues with the \<open>repr\<close> of the operator.\<close>

definition change_of :: "items \<Rightarrow> string \<Rightarrow> pyval \<Rightarrow> pyval result" where
  "change_of mutation token parent =
     (if py_get mutation ''operator'' = PStr ''replace'' then
        (case map_of mutation ''value'' of
           None \<Rightarrow> raise ValueError ''replace mutation requires value''
         | Some v \<Rightarrow> replace_child token v parent)
      else if py_get mutation ''operator'' = PStr ''remove'' then remove_child token parent
      else raise ValueError ''unsupported mutation operator: '')"

definition apply_mutation :: "items \<Rightarrow> items \<Rightarrow> pyval result" where
  "apply_mutation trace mutation =
     (if \<not> is_str (py_get mutation ''path'') then raise TypeError ''mutation path must be a string''
      else bind_result (pointer_tokens (str_of (py_get mutation ''path''))) (\<lambda>tokens.
        at_parent (butlast tokens) (change_of mutation (last tokens)) (PDict trace)))"

subsection \<open>Validation: state and single checks\<close>

record scope =
  sc_run_id :: pyval
  sc_turn_id :: pyval
  sc_provider :: pyval
  sc_operation_id :: pyval

definition scope_of :: "items \<Rightarrow> scope" where
  "scope_of d =
     \<lparr>sc_run_id = py_get d ''run_id'', sc_turn_id = py_get d ''turn_id'',
      sc_provider = py_get d ''provider'', sc_operation_id = py_get d ''operation_id''\<rparr>"

record validator =
  v_violations :: "string list"
  v_sequences :: "int list"
  v_record_ids :: "string list"
  v_event_ids :: "string list"
  v_binding :: "(string \<times> string) option"
  v_approved_sequence :: "int option"
  v_denied_sequence :: "int option"
  v_expected_effect :: "string option"
  v_checkpoints :: "items list"
  v_evidence_by_id :: "(string \<times> items) list"
  v_evidence_history :: "items list"
  v_completion_count :: nat

definition report :: "bool \<Rightarrow> string \<Rightarrow> validator \<Rightarrow> validator" where
  "report b name st = st\<lparr>v_violations := flag b name (v_violations st)\<rparr>"

definition check_scope :: "scope \<Rightarrow> validator" where
  "check_scope sc =
     \<lparr>v_violations =
        flag (not_text (sc_operation_id sc)) ''scope_operation_id_invalid''
          (flag (not_text (sc_provider sc)) ''scope_provider_invalid''
            (flag (not_text (sc_turn_id sc)) ''scope_turn_id_invalid''
              (flag (not_text (sc_run_id sc)) ''scope_run_id_invalid'' []))),
      v_sequences = [], v_record_ids = [], v_event_ids = [], v_binding = None,
      v_approved_sequence = None, v_denied_sequence = None, v_expected_effect = None,
      v_checkpoints = [], v_evidence_by_id = [], v_evidence_history = [], v_completion_count = 0\<rparr>"

text \<open>\<open>not isinstance(v, int) or isinstance(v, bool) or v < bound\<close>\<close>

definition not_int_from :: "int \<Rightarrow> pyval \<Rightarrow> bool" where
  "not_int_from bound v \<longleftrightarrow> (case as_int v of None \<Rightarrow> True | Some n \<Rightarrow> is_bool v \<or> n < bound)"

definition check_identity :: "items \<Rightarrow> validator \<Rightarrow> validator" where
  "check_identity r st =
     (let record_id = py_get r ''record_id''; sequence = py_get r ''sequence'';
          st = (if not_text record_id then report True ''record_id_invalid'' st
                else st\<lparr>v_record_ids := v_record_ids st @ [str_of record_id]\<rparr>) in
      case as_int sequence of
        None \<Rightarrow> report True ''record_sequence_invalid'' st
      | Some n \<Rightarrow>
          if is_bool sequence \<or> n \<le> 0 then report True ''record_sequence_invalid'' st
          else st\<lparr>v_sequences := v_sequences st @ [n]\<rparr>)"

definition note_event_id :: "items \<Rightarrow> validator \<Rightarrow> validator" where
  "note_event_id r st =
     (let event_id = py_get r ''event_id'' in
      if not_text event_id then report True ''event_id_invalid'' st
      else if str_of event_id \<in> set (v_event_ids st) then report True ''event_id_duplicate'' st
      else st\<lparr>v_event_ids := v_event_ids st @ [str_of event_id]\<rparr>)"

definition check_runtime_event :: "scope \<Rightarrow> items \<Rightarrow> validator \<Rightarrow> validator result" where
  "check_runtime_event sc r st =
     (let st = report (\<not> py_eq (py_get r ''run_id'') (sc_run_id sc)) ''event_run_scope_mismatch'' st;
          st = report (\<not> py_eq (py_get r ''turn_id'') (sc_turn_id sc)) ''event_turn_scope_mismatch'' st;
          st = note_event_id r st in
      bind_result (member_of (py_get r ''event_kind'') event_kinds) (\<lambda>known.
        let st = report (\<not> known) ''event_kind_invalid'' st in
        Inr (report (\<not> is_sha256 (py_get r ''payload_sha256'')) ''event_payload_sha256_invalid'' st)))"

definition check_checkpoint :: "scope \<Rightarrow> items \<Rightarrow> validator \<Rightarrow> validator" where
  "check_checkpoint sc r st =
     (let st = report (\<not> py_eq (py_get r ''run_id'') (sc_run_id sc)) ''checkpoint_run_scope_mismatch'' st
      in st\<lparr>v_checkpoints := v_checkpoints st @ [r]\<rparr>)"

definition check_operation :: "scope \<Rightarrow> items \<Rightarrow> validator \<Rightarrow> validator" where
  "check_operation sc r st =
     (let st = report (\<not> py_eq (py_get r ''operation_id'') (sc_operation_id sc)) ''operation_scope_mismatch'' st
      in report (\<not> py_eq (py_get r ''provider'') (sc_provider sc)) ''provider_scope_mismatch'' st)"

definition check_binding :: "scope \<Rightarrow> items \<Rightarrow> validator \<Rightarrow> validator" where
  "check_binding sc r st =
     (let tool = py_get r ''tool''; payload = py_get r ''payload_sha256'';
          st = report (not_text tool) ''operation_tool_invalid'' st;
          st = report (\<not> is_sha256 payload) ''operation_payload_sha256_invalid'' st in
      if is_str tool \<and> is_sha256 payload then
        (case v_binding st of
           None \<Rightarrow>
             let st = st\<lparr>v_binding := Some (str_of tool, str_of payload)\<rparr> in
             if is_str (sc_provider sc) \<and> is_str (sc_operation_id sc)
             then st\<lparr>v_expected_effect :=
                    Some (effect_fingerprint (str_of (sc_provider sc)) (str_of (sc_operation_id sc))
                            (str_of tool) (str_of payload))\<rparr>
             else st
         | Some b \<Rightarrow>
             report (b \<noteq> (str_of tool, str_of payload)) ''approval_effect_binding_mismatch'' st)
      else st)"

definition effect_mismatch :: "validator \<Rightarrow> items \<Rightarrow> bool" where
  "effect_mismatch st r \<longleftrightarrow>
     (case v_expected_effect st of
        None \<Rightarrow> False
      | Some e \<Rightarrow> \<not> py_eq (py_get r ''effect_sha256'') (PStr e))"

definition check_approval :: "items \<Rightarrow> validator \<Rightarrow> validator result" where
  "check_approval r st =
     bind_result (member_of (py_get r ''decision'') decisions) (\<lambda>known.
       let st = (if \<not> known then report True ''approval_decision_invalid'' st
                 else case as_int (py_get r ''sequence'') of
                        None \<Rightarrow> st
                      | Some n \<Rightarrow>
                          if py_get r ''decision'' = PStr ''approved''
                          then st\<lparr>v_approved_sequence := Some n\<rparr>
                          else st\<lparr>v_denied_sequence := Some n\<rparr>) in
       Inr (report (effect_mismatch st r) ''approval_effect_fingerprint_mismatch'' st))"

definition check_effect :: "items \<Rightarrow> validator \<Rightarrow> validator" where
  "check_effect r st =
     (let st = report (effect_mismatch st r) ''effect_fingerprint_mismatch'' st in
      case as_int (py_get r ''sequence'') of
        None \<Rightarrow> st
      | Some n \<Rightarrow>
          let st = report (case v_approved_sequence st of None \<Rightarrow> True | Some a \<Rightarrow> n \<le> a)
                     ''effect_without_prior_approval'' st in
          report (case v_denied_sequence st of None \<Rightarrow> False | Some d \<Rightarrow> d < n)
            ''effect_after_denial'' st)"

definition check_evidence_order :: "items \<Rightarrow> items \<Rightarrow> validator \<Rightarrow> validator" where
  "check_evidence_order previous r st =
     (case (as_int (py_get previous ''revision''), as_int (py_get r ''revision'')) of
        (Some p, Some n) \<Rightarrow>
          if n < p then report True ''provider_revision_rollback'' st
          else report
                 (n = p \<and>
                  (\<not> py_eq (py_get previous ''readback'') (py_get r ''readback'') \<or>
                   \<not> py_eq (py_get previous ''effect_sha256'') (py_get r ''effect_sha256'')))
                 ''provider_same_revision_conflict'' st
      | _ \<Rightarrow> st)"

definition note_evidence :: "items \<Rightarrow> validator \<Rightarrow> validator" where
  "note_evidence r st =
     (let evidence_id = py_get r ''evidence_id'' in
      if not_text evidence_id then report True ''provider_evidence_id_invalid'' st
      else if map_of (v_evidence_by_id st) (str_of evidence_id) \<noteq> None
      then report True ''provider_evidence_id_duplicate'' st
      else st\<lparr>v_evidence_by_id := v_evidence_by_id st @ [(str_of evidence_id, r)]\<rparr>)"

definition check_previous_evidence :: "items \<Rightarrow> validator \<Rightarrow> validator" where
  "check_previous_evidence r st =
     (if v_evidence_history st = [] then st
      else check_evidence_order (last (v_evidence_history st)) r st)"

definition check_evidence :: "items \<Rightarrow> validator \<Rightarrow> validator result" where
  "check_evidence r st =
     (let st = note_evidence r st;
          st = report (not_int_from 0 (py_get r ''revision'')) ''provider_revision_invalid'' st in
      bind_result (member_of (py_get r ''readback'') readback_states) (\<lambda>known.
        let st = report (\<not> known) ''provider_readback_invalid'' st;
            st = report (effect_mismatch st r) ''provider_effect_fingerprint_mismatch'' st;
            st = check_previous_evidence r st in
        Inr (st\<lparr>v_evidence_history := v_evidence_history st @ [r]\<rparr>)))"

definition evidence_revisions :: "items list \<Rightarrow> int list" where
  "evidence_revisions history =
     concat (map (\<lambda>item. case as_int (py_get item ''revision'') of None \<Rightarrow> [] | Some n \<Rightarrow> [n]) history)"

definition check_completion :: "items \<Rightarrow> validator \<Rightarrow> validator" where
  "check_completion r st =
     (let st = st\<lparr>v_completion_count := v_completion_count st + 1\<rparr>;
          evidence_id = py_get r ''evidence_id'';
          revision = py_get r ''revision'';
          evidence = (if is_str evidence_id then map_of (v_evidence_by_id st) (str_of evidence_id) else None);
          st = report (1 < v_completion_count st) ''multiple_reconciliation_completions'' st;
          st = report (effect_mismatch st r) ''completion_effect_fingerprint_mismatch'' st;
          st = (case evidence of
                  None \<Rightarrow> report True ''completion_evidence_missing'' st
                | Some e \<Rightarrow>
                    let st = report (\<not> py_eq (py_get e ''readback'') (PStr ''present''))
                               ''completion_requires_present_evidence'' st;
                        st = report (\<not> py_eq (py_get e ''revision'') revision)
                               ''completion_revision_mismatch'' st in
                    report (\<not> py_eq (py_get e ''effect_sha256'') (py_get r ''effect_sha256''))
                      ''completion_evidence_effect_mismatch'' st);
          revisions = evidence_revisions (v_evidence_history st) in
      report (revisions \<noteq> [] \<and> \<not> py_eq revision (PInt (Max (set revisions))))
        ''completion_not_latest_provider_revision'' st)"

subsection \<open>Validation: the loops\<close>

text \<open>One iteration of the loop over \<open>enumerate(records)\<close>; every \<open>continue\<close> is a branch.\<close>

definition check_by_kind :: "scope \<Rightarrow> items \<Rightarrow> validator \<Rightarrow> validator result" where
  "check_by_kind sc r st =
     (let kind = py_get r ''kind'' in
      if kind = PStr ''runtime_event'' then check_runtime_event sc r st
      else if kind = PStr ''checkpoint'' then Inr (check_checkpoint sc r st)
      else
        let st = check_operation sc r st in
        if kind = PStr ''approval'' then check_approval r (check_binding sc r st)
        else if kind = PStr ''effect'' then Inr (check_effect r (check_binding sc r st))
        else if kind = PStr ''provider_evidence'' then check_evidence r st
        else Inr (check_completion r st))"

definition check_record :: "scope \<Rightarrow> validator \<Rightarrow> nat \<times> pyval \<Rightarrow> validator result" where
  "check_record sc st indexed =
     (case indexed of (index, entry) \<Rightarrow>
      case as_items entry of
        None \<Rightarrow> Inr (report True (''record_'' @ show_nat index @ ''_invalid'') st)
      | Some r \<Rightarrow>
          let st = check_identity r st in
          bind_result (member_of (py_get r ''kind'') record_kinds) (\<lambda>known.
            if \<not> known then Inr (report True ''record_kind_invalid'' st)
            else check_by_kind sc r st))"

definition check_link :: "items option \<Rightarrow> items \<Rightarrow> string list \<Rightarrow> string list" where
  "check_link previous cp names =
     (let sequence = py_get cp ''checkpoint_sequence''; completed = py_get cp ''completed_count'';
          plan = py_get cp ''plan_sha256'';
          names = flag (not_text (py_get cp ''checkpoint_id'')) ''checkpoint_id_invalid'' names;
          names = flag (case as_int sequence of None \<Rightarrow> True | Some n \<Rightarrow> n < 0)
                    ''checkpoint_sequence_invalid'' names;
          names = flag (case as_int completed of None \<Rightarrow> True | Some n \<Rightarrow> n < 0)
                    ''checkpoint_completed_count_invalid'' names;
          names = flag (\<not> is_sha256 plan) ''checkpoint_plan_sha256_invalid'' names in
      case previous of
        None \<Rightarrow>
          let names = flag (py_get cp ''parent_checkpoint_id'' \<noteq> PNone)
                        ''checkpoint_root_parent_not_null'' names in
          flag (\<not> py_eq sequence (PInt 0)) ''checkpoint_root_sequence_not_zero'' names
      | Some prev \<Rightarrow>
          let names = flag (\<not> py_eq (py_get cp ''parent_checkpoint_id'') (py_get prev ''checkpoint_id''))
                        ''checkpoint_parent_mismatch'' names;
              names = flag (case as_int (py_get prev ''checkpoint_sequence'') of
                              None \<Rightarrow> False | Some p \<Rightarrow> \<not> py_eq sequence (PInt (p + 1)))
                        ''checkpoint_sequence_gap'' names;
              names = flag (\<not> py_eq plan (py_get prev ''plan_sha256'')) ''checkpoint_plan_drift'' names in
          flag (case (as_int (py_get prev ''completed_count''), as_int completed) of
                  (Some p, Some n) \<Rightarrow> n < p | _ \<Rightarrow> False)
            ''checkpoint_progress_rollback'' names)"

fun check_chain :: "items option \<Rightarrow> items list \<Rightarrow> string list \<Rightarrow> string list" where
  "check_chain previous [] names = names"
| "check_chain previous (cp # cps) names = check_chain (Some cp) cps (check_link previous cp names)"

definition check_totals :: "validator \<Rightarrow> string list" where
  "check_totals st =
     (let names = flag (not_strictly_increasing (v_sequences st))
                    ''record_sequence_not_strictly_increasing'' (v_violations st);
          names = flag (length (v_record_ids st) \<noteq> length (remdups (v_record_ids st)))
                    ''record_id_duplicate'' names in
      check_chain None (v_checkpoints st) names)"

definition check_records :: "scope \<Rightarrow> pyval list \<Rightarrow> validator result" where
  "check_records sc records = run_steps (check_record sc) (check_scope sc) (enumerate 0 records)"

definition validate_trace :: "items \<Rightarrow> string list result" where
  "validate_trace trace =
     (case as_items (py_get trace ''scope'') of
        None \<Rightarrow> Inr [''scope_missing_or_invalid'']
      | Some scope \<Rightarrow>
          (case as_list (py_get trace ''records'') of
             None \<Rightarrow> Inr [''records_missing_or_invalid'']
           | Some records \<Rightarrow>
               bind_result (check_records (scope_of scope) records) (\<lambda>st.
                 Inr (sort (remdups (check_totals st))))))"

subsection \<open>The corpus\<close>

record trace_result =
  tr_id :: pyval
  tr_verdict :: bool
  tr_violations :: "string list"

record corpus_metrics =
  cm_clean_trace_count :: nat
  cm_clean_trace_accept_rate :: rat
  cm_mutation_count :: nat
  cm_mutation_detection_rate :: rat
  cm_false_positive_count :: nat
  cm_false_negative_count :: nat
  cm_detector_error_count :: nat

record corpus_report =
  cr_clean_results :: "trace_result list"
  cr_mutation_results :: "trace_result list"
  cr_metrics :: corpus_metrics

definition keyed_trace :: "pyval \<Rightarrow> (pyval \<times> pyval) result" where
  "keyed_trace trace =
     bind_result (subscript trace ''trace_id'') (\<lambda>k.
       if hashable k then Inr (k, trace) else raise TypeError ''unhashable type'')"

text \<open>A later trace with the same id replaces an earlier one.\<close>

definition lookup_trace :: "(pyval \<times> pyval) list \<Rightarrow> pyval \<Rightarrow> pyval result" where
  "lookup_trace by_id k =
     (if \<not> hashable k then raise TypeError ''unhashable type''
      else case find (\<lambda>(k', t). py_eq k' k) (rev by_id) of
             None \<Rightarrow> raise KeyError (str_of k)
           | Some (k', t) \<Rightarrow> Inr t)"

definition clean_result :: "pyval \<Rightarrow> trace_result result" where
  "clean_result trace =
     bind_result (validate_trace (dict_of trace)) (\<lambda>vs.
       bind_result (subscript trace ''trace_id'') (\<lambda>k.
         Inr \<lparr>tr_id = k, tr_verdict = (vs = []), tr_violations = vs\<rparr>))"

definition mutation_result :: "(pyval \<times> pyval) list \<Rightarrow> pyval \<Rightarrow> trace_result result" where
  "mutation_result by_id mutation =
     bind_result (subscript mutation ''base_trace_id'') (\<lambda>k.
     bind_result (lookup_trace by_id k) (\<lambda>base.
     bind_result (apply_mutation (dict_of base) (dict_of mutation)) (\<lambda>mutated.
     bind_result (validate_trace (dict_of mutated)) (\<lambda>vs.
     bind_result (subscript mutation ''id'') (\<lambda>mid.
       Inr \<lparr>tr_id = mid, tr_verdict = (vs \<noteq> []), tr_violations = vs\<rparr>)))))"

definition count_rejected :: "trace_result list \<Rightarrow> nat" where
  "count_rejected results = length (filter (\<lambda>item. \<not> tr_verdict item) results)"

definition ratio :: "nat \<Rightarrow> nat \<Rightarrow> rat result" where
  "ratio a b =
     (if b = 0 then raise ZeroDivisionError ''division by zero''
      else Inr (of_nat a / of_nat b))"

definition corpus_summary :: "trace_result list \<Rightarrow> trace_result list \<Rightarrow> corpus_metrics result" where
  "corpus_summary clean mutated =
     (let false_positives = count_rejected clean; false_negatives = count_rejected mutated;
          clean_count = length clean; mutation_count = length mutated in
      bind_result (ratio (clean_count - false_positives) clean_count) (\<lambda>accept_rate.
      bind_result (ratio (mutation_count - false_negatives) mutation_count) (\<lambda>detection_rate.
        Inr \<lparr>cm_clean_trace_count = clean_count,
             cm_clean_trace_accept_rate = accept_rate,
             cm_mutation_count = mutation_count,
             cm_mutation_detection_rate = detection_rate,
             cm_false_positive_count = false_positives,
             cm_false_negative_count = false_negatives,
             cm_detector_error_count = 0\<rparr>)))"

definition evaluate_trace_corpus :: "items \<Rightarrow> items \<Rightarrow> corpus_report result" where
  "evaluate_trace_corpus baseline_document mutation_document =
     (case (as_list (py_get baseline_document ''traces''), as_list (py_get mutation_document ''mutations'')) of
        (Some traces, Some mutations) \<Rightarrow>
          bind_result (map_result keyed_trace traces) (\<lambda>by_id.
          bind_result (map_result clean_result traces) (\<lambda>clean.
          bind_result (map_result (mutation_result by_id) mutations) (\<lambda>mutated.
          bind_result (corpus_summary clean mutated) (\<lambda>metrics.
            Inr \<lparr>cr_clean_results = clean, cr_mutation_results = mutated, cr_metrics = metrics\<rparr>))))
      | _ \<Rightarrow> raise TypeError ''baseline and mutation documents must contain lists'')"

subsection \<open>Digests\<close>

lemma hex_digit_char:
  assumes "c \<in> hex_digit ` {..<16}"
  shows "\<not> int_space c" "c \<noteq> CHR ''-''" "c \<noteq> CHR ''+''" "c \<noteq> CHR ''_''" "c \<noteq> CHR ''x''"
    "c \<noteq> CHR ''X''" "is_digit 16 c" "lower_char c = c"
proof -
  have "48 \<le> (of_char c :: nat) \<and> of_char c \<le> (57 :: nat) \<or> 97 \<le> (of_char c :: nat) \<and> of_char c \<le> (102 :: nat)"
    using assms by (auto simp: hex_digit_def of_char_of)
  then show "\<not> int_space c" "c \<noteq> CHR ''-''" "c \<noteq> CHR ''+''" "c \<noteq> CHR ''_''" "c \<noteq> CHR ''x''"
    "c \<noteq> CHR ''X''" "is_digit 16 c" "lower_char c = c"
    by (auto simp: int_space_def is_digit_def digit_value_def lower_char_def Let_def)
qed

lemma is_sha256_hex:
  assumes "length s = 64" and digits: "set s \<subseteq> hex_digit ` {..<16}"
  shows "is_sha256 (PStr s)"
proof -
  have s: "s \<noteq> []" using assms(1) by auto
  have char: "c \<in> hex_digit ` {..<16}" if "c \<in> set s" for c using digits that by blast
  note first = char [OF hd_in_set [OF s]]
  have "s ! 1 \<in> set s" using assms(1) by simp
  then have "s ! 1 \<noteq> CHR ''x'' \<and> s ! 1 \<noteq> CHR ''X''" using hex_digit_char(5,6) char by blast
  moreover have "take 2 s = [hd s, s ! 1]"
    using s assms(1) by (cases s; cases "tl s") (auto simp: numeral_2_eq_2)
  ultimately have "drop_prefix 16 s = s" by (simp add: drop_prefix_def)
  then have "parse_int 16 s = Some (int (foldl (\<lambda>a c. 16 * a + digit_value c) 0 s))"
    using hex_digit_char [OF first] hex_digit_char(4,7) [OF char] by (intro parse_plain s) auto
  moreover have "py_lower s = s"
    unfolding py_lower_def using hex_digit_char(8) [OF char] by (intro map_idI)
  ultimately show ?thesis using assms(1) by simp
qed

declare is_sha256.simps(1) [simp del]

lemma is_sha256_digest [simp]: "is_sha256 (PStr (sha256_text s))"
  unfolding sha256_text_def by (intro is_sha256_hex length_sha256_hex set_sha256_hex)

lemma is_sha256_fingerprint [simp]: "is_sha256 (PStr (effect_fingerprint p i t h))"
  by (simp add: effect_fingerprint_def)

lemma is_sha256_prefixed:
  assumes "length h = 62" and digits: "set h \<subseteq> hex_digit ` {..<16}"
  shows "is_sha256 (PStr (''0x'' @ h))"
proof -
  have h: "h \<noteq> []" using assms(1) by auto
  have char: "c \<in> hex_digit ` {..<16}" if "c \<in> set h" for c using digits that by blast
  have "hd h \<noteq> CHR ''_''" using hex_digit_char(4) [OF char [OF hd_in_set [OF h]]] .
  then have "drop_prefix 16 (''0x'' @ h) = h" by (simp add: drop_prefix_def)
  moreover have "parse_digits 16 h \<noteq> None"
    using hex_digit_char(4,7) [OF char] by (subst parse_digits_plain) (auto simp: h)
  moreover have "\<not> int_space (CHR ''0'')" by (simp add: int_space_def)
  ultimately have "parse_int 16 (''0x'' @ h) \<noteq> None" by (simp add: parse_int_def Let_def)
  moreover have "py_lower (''0x'' @ h) = ''0x'' @ h"
  proof -
    have "map lower_char h = h" using hex_digit_char(8) [OF char] by (intro map_idI)
    then show ?thesis by (simp add: py_lower_def lower_char_def)
  qed
  ultimately show ?thesis using assms(1) by (auto simp: is_sha256.simps(1))
qed

end
