(* ===== verification/TraceRules.thy ===== *)
theory TraceRules
  imports TraceIntegrity
begin

section \<open>The rules a clean trace satisfies\<close>

text \<open>
  The cross-record rules of \<open>TRACE_SCHEMA.json\<close> as a declarative predicate on the list of records,
  without the mutable state of the validator, and the proof, record by record, that the loops of
  \<open>validate_trace\<close> report nothing exactly on the records that satisfy it.
\<close>

named_theorems report_simps \<open>violations after a reported check\<close>

subsection \<open>The rules\<close>

definition kind_is :: "string \<Rightarrow> items \<Rightarrow> bool" where
  "kind_is k r \<longleftrightarrow> py_get r ''kind'' = PStr k"

abbreviation of_kind :: "string \<Rightarrow> items list \<Rightarrow> items list" where
  "of_kind k rs \<equiv> filter (kind_is k) rs"

definition binds :: "items \<Rightarrow> bool" where
  "binds r \<longleftrightarrow> kind_is ''approval'' r \<or> kind_is ''effect'' r"

definition decided :: "string \<Rightarrow> items \<Rightarrow> bool" where
  "decided d r \<longleftrightarrow> kind_is ''approval'' r \<and> py_get r ''decision'' = PStr d"

definition sequence_of :: "items \<Rightarrow> int" where
  "sequence_of r = the (as_int (py_get r ''sequence''))"

definition revision_of :: "items \<Rightarrow> int" where
  "revision_of r = the (as_int (py_get r ''revision''))"

definition text_of :: "items \<Rightarrow> string \<Rightarrow> string" where
  "text_of r name = str_of (py_get r name)"

definition fingerprint_of :: "scope \<Rightarrow> items \<Rightarrow> string" where
  "fingerprint_of sc r =
     effect_fingerprint (str_of (sc_provider sc)) (str_of (sc_operation_id sc))
       (text_of r ''tool'') (text_of r ''payload_sha256'')"

definition scope_ok :: "scope \<Rightarrow> bool" where
  "scope_ok sc \<longleftrightarrow>
     \<not> not_text (sc_run_id sc) \<and> \<not> not_text (sc_turn_id sc) \<and>
     \<not> not_text (sc_provider sc) \<and> \<not> not_text (sc_operation_id sc)"

definition identified :: "items \<Rightarrow> bool" where
  "identified r \<longleftrightarrow>
     \<not> not_text (py_get r ''record_id'') \<and> \<not> not_int_from 1 (py_get r ''sequence'')"

definition event_rule :: "scope \<Rightarrow> items list \<Rightarrow> items \<Rightarrow> bool" where
  "event_rule sc earlier r \<longleftrightarrow>
     py_get r ''run_id'' = sc_run_id sc \<and> py_get r ''turn_id'' = sc_turn_id sc \<and>
     \<not> not_text (py_get r ''event_id'') \<and>
     text_of r ''event_id'' \<notin> (\<lambda>e. text_of e ''event_id'') ` set (of_kind ''runtime_event'' earlier) \<and>
     py_get r ''event_kind'' \<in> PStr ` set event_kinds \<and>
     is_sha256 (py_get r ''payload_sha256'')"

definition in_scope :: "scope \<Rightarrow> items \<Rightarrow> bool" where
  "in_scope sc r \<longleftrightarrow>
     py_get r ''operation_id'' = sc_operation_id sc \<and> py_get r ''provider'' = sc_provider sc"

text \<open>Every approval and effect has the tool and payload of the first of them.\<close>

definition binding_rule :: "scope \<Rightarrow> items list \<Rightarrow> items \<Rightarrow> bool" where
  "binding_rule sc earlier r \<longleftrightarrow>
     \<not> not_text (py_get r ''tool'') \<and> is_sha256 (py_get r ''payload_sha256'') \<and>
     (case find binds earlier of
        None \<Rightarrow> True
      | Some a \<Rightarrow> text_of a ''tool'' = text_of r ''tool'' \<and>
                  text_of a ''payload_sha256'' = text_of r ''payload_sha256'') \<and>
     py_get r ''effect_sha256'' = PStr (fingerprint_of sc r)"

text \<open>Evidence and completions name the bound effect, once an approval or effect has bound one.\<close>

definition names_effect :: "scope \<Rightarrow> items list \<Rightarrow> items \<Rightarrow> bool" where
  "names_effect sc earlier r \<longleftrightarrow>
     (case find binds earlier of
        None \<Rightarrow> True
      | Some a \<Rightarrow> py_get r ''effect_sha256'' = PStr (fingerprint_of sc a))"

definition effect_rule :: "items list \<Rightarrow> bool" where
  "effect_rule earlier \<longleftrightarrow> (\<exists>a \<in> set earlier. decided ''approved'' a) \<and> (\<forall>a \<in> set earlier. \<not> decided ''denied'' a)"

definition evidence_rule :: "scope \<Rightarrow> items list \<Rightarrow> items \<Rightarrow> bool" where
  "evidence_rule sc earlier r \<longleftrightarrow>
     \<not> not_text (py_get r ''evidence_id'') \<and>
     text_of r ''evidence_id'' \<notin> (\<lambda>e. text_of e ''evidence_id'') ` set (of_kind ''provider_evidence'' earlier) \<and>
     \<not> not_int_from 0 (py_get r ''revision'') \<and>
     py_get r ''readback'' \<in> PStr ` set readback_states \<and>
     names_effect sc earlier r \<and>
     (of_kind ''provider_evidence'' earlier \<noteq> [] \<longrightarrow>
        (let e = last (of_kind ''provider_evidence'' earlier) in
         revision_of e \<le> revision_of r \<and>
         (revision_of e = revision_of r \<longrightarrow>
            py_eq (py_get e ''readback'') (py_get r ''readback'') \<and>
            py_eq (py_get e ''effect_sha256'') (py_get r ''effect_sha256''))))"

definition completion_rule :: "scope \<Rightarrow> items list \<Rightarrow> items \<Rightarrow> bool" where
  "completion_rule sc earlier r \<longleftrightarrow>
     of_kind ''reconciliation_completion'' earlier = [] \<and> names_effect sc earlier r \<and>
     (\<exists>e \<in> set (of_kind ''provider_evidence'' earlier).
        py_get r ''evidence_id'' = py_get e ''evidence_id'' \<and>
        py_get e ''readback'' = PStr ''present'' \<and>
        py_eq (py_get e ''revision'') (py_get r ''revision'') \<and>
        py_eq (py_get e ''effect_sha256'') (py_get r ''effect_sha256'') \<and>
        (\<forall>e' \<in> set (of_kind ''provider_evidence'' earlier). revision_of e' \<le> revision_of e))"

text \<open>\<open>authorized\<close> says whether an effect may run after the records seen so far.\<close>

definition record_rule_by :: "bool \<Rightarrow> scope \<Rightarrow> items list \<Rightarrow> items \<Rightarrow> bool" where
  "record_rule_by authorized sc earlier r \<longleftrightarrow>
     identified r \<and>
     (kind_is ''runtime_event'' r \<and> event_rule sc earlier r \<or>
      kind_is ''checkpoint'' r \<and> py_get r ''run_id'' = sc_run_id sc \<or>
      in_scope sc r \<and>
      (kind_is ''approval'' r \<and> binding_rule sc earlier r \<and> py_get r ''decision'' \<in> PStr ` set decisions \<or>
       kind_is ''effect'' r \<and> binding_rule sc earlier r \<and> authorized \<or>
       kind_is ''provider_evidence'' r \<and> evidence_rule sc earlier r \<or>
       kind_is ''reconciliation_completion'' r \<and> completion_rule sc earlier r))"

definition record_rule :: "scope \<Rightarrow> items list \<Rightarrow> items \<Rightarrow> bool" where
  "record_rule sc earlier r \<longleftrightarrow> record_rule_by (effect_rule earlier) sc earlier r"

definition checkpoint_ok :: "items \<Rightarrow> bool" where
  "checkpoint_ok cp \<longleftrightarrow>
     \<not> not_text (py_get cp ''checkpoint_id'') \<and>
     (\<exists>n \<ge> 0. as_int (py_get cp ''checkpoint_sequence'') = Some n) \<and>
     (\<exists>n \<ge> 0. as_int (py_get cp ''completed_count'') = Some n) \<and>
     is_sha256 (py_get cp ''plan_sha256'')"

definition count_of :: "items \<Rightarrow> string \<Rightarrow> int" where
  "count_of cp name = the (as_int (py_get cp name))"

definition root_checkpoint :: "items \<Rightarrow> bool" where
  "root_checkpoint cp \<longleftrightarrow> py_get cp ''parent_checkpoint_id'' = PNone \<and> count_of cp ''checkpoint_sequence'' = 0"

definition linked :: "items \<Rightarrow> items \<Rightarrow> bool" where
  "linked prev cp \<longleftrightarrow>
     py_get cp ''parent_checkpoint_id'' = py_get prev ''checkpoint_id'' \<and>
     count_of cp ''checkpoint_sequence'' = count_of prev ''checkpoint_sequence'' + 1 \<and>
     py_get cp ''plan_sha256'' = py_get prev ''plan_sha256'' \<and>
     count_of prev ''completed_count'' \<le> count_of cp ''completed_count''"

definition chain_rule :: "items list \<Rightarrow> bool" where
  "chain_rule cps \<longleftrightarrow>
     (\<forall>cp \<in> set cps. checkpoint_ok cp) \<and> (cps \<noteq> [] \<longrightarrow> root_checkpoint (hd cps)) \<and> successively linked cps"

definition trace_rules :: "scope \<Rightarrow> items list \<Rightarrow> bool" where
  "trace_rules sc rs \<longleftrightarrow>
     scope_ok sc \<and>
     sorted_wrt (<) (map sequence_of rs) \<and>
     distinct (map (\<lambda>r. text_of r ''record_id'') rs) \<and>
     (\<forall>i < length rs. record_rule sc (take i rs) (rs ! i)) \<and>
     chain_rule (of_kind ''checkpoint'' rs)"

subsection \<open>The state of the validator on a clean prefix\<close>

definition last_option :: "'a list \<Rightarrow> 'a option" where
  "last_option xs = (if xs = [] then None else Some (last xs))"

definition clean_state :: "scope \<Rightarrow> items list \<Rightarrow> validator" where
  "clean_state sc rs =
     \<lparr>v_violations = [],
      v_sequences = map sequence_of rs,
      v_record_ids = map (\<lambda>r. text_of r ''record_id'') rs,
      v_event_ids = map (\<lambda>r. text_of r ''event_id'') (of_kind ''runtime_event'' rs),
      v_binding = map_option (\<lambda>a. (text_of a ''tool'', text_of a ''payload_sha256'')) (find binds rs),
      v_approved_sequence = last_option (map sequence_of (filter (decided ''approved'') rs)),
      v_denied_sequence = last_option (map sequence_of (filter (decided ''denied'') rs)),
      v_expected_effect = map_option (fingerprint_of sc) (find binds rs),
      v_checkpoints = of_kind ''checkpoint'' rs,
      v_evidence_by_id = map (\<lambda>r. (text_of r ''evidence_id'', r)) (of_kind ''provider_evidence'' rs),
      v_evidence_history = of_kind ''provider_evidence'' rs,
      v_completion_count = length (of_kind ''reconciliation_completion'' rs)\<rparr>"

lemma flag_Nil [simp, report_simps]: "flag b name names = [] \<longleftrightarrow> \<not> b \<and> names = []"
  by (simp add: flag_def)

lemma flag_False [simp]: "flag False name names = names"
  by (simp add: flag_def)

lemma report_clean [simp, report_simps]:
  "v_violations (report b name st) = [] \<longleftrightarrow> \<not> b \<and> v_violations st = []"
  by (simp add: report_def)

lemma report_False [simp]: "report False name st = st"
  by (simp add: report_def)

lemma report_fields [simp]:
  "v_sequences (report b name st) = v_sequences st"
  "v_record_ids (report b name st) = v_record_ids st"
  "v_event_ids (report b name st) = v_event_ids st"
  "v_binding (report b name st) = v_binding st"
  "v_approved_sequence (report b name st) = v_approved_sequence st"
  "v_denied_sequence (report b name st) = v_denied_sequence st"
  "v_expected_effect (report b name st) = v_expected_effect st"
  "v_checkpoints (report b name st) = v_checkpoints st"
  "v_evidence_by_id (report b name st) = v_evidence_by_id st"
  "v_evidence_history (report b name st) = v_evidence_history st"
  "v_completion_count (report b name st) = v_completion_count st"
  by (simp_all add: report_def)

lemma effect_mismatch_report [simp]: "effect_mismatch (report b name st) r = effect_mismatch st r"
  by (simp add: effect_mismatch_def)

lemma effect_mismatch_update [simp]:
  "effect_mismatch (st\<lparr>v_approved_sequence := a\<rparr>) r = effect_mismatch st r"
  "effect_mismatch (st\<lparr>v_denied_sequence := d\<rparr>) r = effect_mismatch st r"
  "effect_mismatch (st\<lparr>v_evidence_by_id := es\<rparr>) r = effect_mismatch st r"
  "effect_mismatch (st\<lparr>v_completion_count := n\<rparr>) r = effect_mismatch st r"
  by (simp_all add: effect_mismatch_def)

lemma report_id: "\<not> b \<Longrightarrow> report b name st = st"
  by simp

lemma member_of_known: "member_of v names = Inr True \<longleftrightarrow> v \<in> PStr ` set names"
  by (cases v) (auto simp: member_of_def)

text \<open>No check removes a violation.\<close>

lemma check_identity_clean:
  "v_violations (check_identity r st) = [] \<longleftrightarrow> v_violations st = [] \<and> identified r"
  by (auto simp: check_identity_def identified_def not_int_from_def Let_def split: option.splits)

lemma check_identity_identified:
  "identified r \<Longrightarrow> check_identity r st =
     st\<lparr>v_record_ids := v_record_ids st @ [text_of r ''record_id''],
        v_sequences := v_sequences st @ [sequence_of r]\<rparr>"
  by (auto simp: check_identity_def identified_def not_int_from_def text_of_def sequence_of_def
      Let_def split: option.splits)

lemma note_event_id_clean [report_simps]:
  "v_violations (note_event_id r st) = [] \<longleftrightarrow>
     v_violations st = [] \<and> \<not> not_text (py_get r ''event_id'') \<and> text_of r ''event_id'' \<notin> set (v_event_ids st)"
  by (auto simp: note_event_id_def Let_def text_of_def)

lemma note_event_id_run:
  "\<not> not_text (py_get r ''event_id'') \<Longrightarrow> text_of r ''event_id'' \<notin> set (v_event_ids st) \<Longrightarrow>
     note_event_id r st = st\<lparr>v_event_ids := v_event_ids st @ [text_of r ''event_id'']\<rparr>"
  by (simp add: note_event_id_def Let_def text_of_def)

text \<open>What a runtime event passes, and the state it then leaves.\<close>

lemma check_runtime_event_clean:
  "check_runtime_event sc r st = Inr st' \<and> v_violations st' = [] \<longleftrightarrow>
     v_violations st = [] \<and> py_eq (py_get r ''run_id'') (sc_run_id sc) \<and>
     py_eq (py_get r ''turn_id'') (sc_turn_id sc) \<and> \<not> not_text (py_get r ''event_id'') \<and>
     text_of r ''event_id'' \<notin> set (v_event_ids st) \<and>
     py_get r ''event_kind'' \<in> PStr ` set event_kinds \<and> is_sha256 (py_get r ''payload_sha256'') \<and>
     st' = st\<lparr>v_event_ids := v_event_ids st @ [text_of r ''event_id'']\<rparr>" (is "?L \<longleftrightarrow> ?R")
proof
  assume ?L
  then have guards: "v_violations st = []" "py_eq (py_get r ''run_id'') (sc_run_id sc)"
    "py_eq (py_get r ''turn_id'') (sc_turn_id sc)" "\<not> not_text (py_get r ''event_id'')"
    "text_of r ''event_id'' \<notin> set (v_event_ids st)" "member_of (py_get r ''event_kind'') event_kinds = Inr True"
    "is_sha256 (py_get r ''payload_sha256'')"
    by (auto simp: check_runtime_event_def Let_def bind_result_Inr_iff report_simps)
  with \<open>?L\<close> show ?R
    by (simp add: check_runtime_event_def Let_def note_event_id_run member_of_known)
next
  assume ?R
  then show ?L
    by (simp add: check_runtime_event_def Let_def note_event_id_run member_of_known [symmetric])
qed

lemma check_runtime_event_mono:
  "check_runtime_event sc r st = Inr st' \<Longrightarrow> v_violations st' = [] \<Longrightarrow> v_violations st = []"
  using check_runtime_event_clean by blast

lemma check_checkpoint_mono:
  "v_violations (check_checkpoint sc r st) = [] \<Longrightarrow> v_violations st = []"
  by (auto simp: check_checkpoint_def Let_def)

lemma check_operation_clean [report_simps]:
  "v_violations (check_operation sc r st) = [] \<longleftrightarrow>
     py_eq (py_get r ''operation_id'') (sc_operation_id sc) \<and>
     py_eq (py_get r ''provider'') (sc_provider sc) \<and> v_violations st = []"
  by (auto simp: check_operation_def Let_def)

lemma check_binding_mono:
  "v_violations (check_binding sc r st) = [] \<Longrightarrow> v_violations st = []"
  by (auto simp: check_binding_def Let_def split: if_splits option.splits)

lemma check_approval_mono:
  "check_approval r st = Inr st' \<Longrightarrow> v_violations st' = [] \<Longrightarrow> v_violations st = []"
  by (auto simp: check_approval_def Let_def bind_result_Inr_iff split: if_splits option.splits)

lemma check_effect_mono:
  "v_violations (check_effect r st) = [] \<Longrightarrow> v_violations st = []"
  by (auto simp: check_effect_def Let_def split: option.splits)

lemma check_evidence_order_mono:
  "v_violations (check_evidence_order p r st) = [] \<Longrightarrow> v_violations st = []"
  by (auto simp: check_evidence_order_def split: option.splits if_splits)

lemma check_previous_evidence_mono:
  "v_violations (check_previous_evidence r st) = [] \<Longrightarrow> v_violations st = []"
  by (auto simp: check_previous_evidence_def dest: check_evidence_order_mono split: if_splits)

lemma note_evidence_clean [report_simps]:
  "v_violations (note_evidence r st) = [] \<longleftrightarrow>
     v_violations st = [] \<and> \<not> not_text (py_get r ''evidence_id'') \<and>
     map_of (v_evidence_by_id st) (text_of r ''evidence_id'') = None"
  by (auto simp: note_evidence_def Let_def text_of_def)

lemma note_evidence_run:
  "\<not> not_text (py_get r ''evidence_id'') \<Longrightarrow> map_of (v_evidence_by_id st) (text_of r ''evidence_id'') = None \<Longrightarrow>
     note_evidence r st = st\<lparr>v_evidence_by_id := v_evidence_by_id st @ [(text_of r ''evidence_id'', r)]\<rparr>"
  by (simp add: note_evidence_def Let_def text_of_def)

lemma note_evidence_mismatch [simp]: "effect_mismatch (note_evidence r st) r' = effect_mismatch st r'"
  by (simp add: note_evidence_def Let_def)

lemma check_evidence_guards:
  assumes "check_evidence r st = Inr st'" "v_violations st' = []"
  shows "v_violations st = [] \<and> \<not> not_text (py_get r ''evidence_id'') \<and>
    map_of (v_evidence_by_id st) (text_of r ''evidence_id'') = None \<and>
    \<not> not_int_from 0 (py_get r ''revision'') \<and>
    py_get r ''readback'' \<in> PStr ` set readback_states \<and>
    \<not> effect_mismatch st r"
  using assms
  by (auto simp: check_evidence_def Let_def bind_result_Inr_iff report_simps member_of_known [symmetric]
      dest!: check_previous_evidence_mono)

lemma check_evidence_mono:
  "check_evidence r st = Inr st' \<Longrightarrow> v_violations st' = [] \<Longrightarrow> v_violations st = []"
  using check_evidence_guards by blast

lemma check_completion_mono:
  "v_violations (check_completion r st) = [] \<Longrightarrow> v_violations st = []"
  by (auto simp: check_completion_def Let_def split: option.splits)

lemma check_by_kind_mono:
  "check_by_kind sc r st = Inr st' \<Longrightarrow> v_violations st' = [] \<Longrightarrow> v_violations st = []"
  by (auto simp: check_by_kind_def Let_def report_simps
      dest!: check_runtime_event_mono check_checkpoint_mono check_approval_mono check_effect_mono
        check_evidence_mono check_completion_mono check_binding_mono
      split: if_splits)

lemma check_record_clean:
  "check_record sc st (i, v) = Inr st' \<and> v_violations st' = [] \<longleftrightarrow>
     (\<exists>r. v = PDict r \<and> py_get r ''kind'' \<in> PStr ` set record_kinds \<and>
        check_by_kind sc r (check_identity r st) = Inr st' \<and> v_violations st' = [])"
  by (cases v) (auto simp: check_record_def Let_def bind_result_Inr_iff member_of_known [symmetric] split: if_splits)

lemma check_record_mono:
  "check_record sc st (i, v) = Inr st' \<Longrightarrow> v_violations st' = [] \<Longrightarrow> v_violations st = []"
  using check_record_clean [of sc st i v st'] check_by_kind_mono check_identity_clean by blast

lemma run_clean_start:
  "run_steps (check_record sc) st es = Inr st' \<Longrightarrow> v_violations st' = [] \<Longrightarrow> v_violations st = []"
  by (induction es arbitrary: st) (auto simp: bind_result_Inr_iff dest: check_record_mono)

subsection \<open>One record after a clean prefix\<close>

definition effect_passes :: "items list \<Rightarrow> items \<Rightarrow> bool" where
  "effect_passes earlier r \<longleftrightarrow>
     (case last_option (map sequence_of (filter (decided ''approved'') earlier)) of
        None \<Rightarrow> False | Some a \<Rightarrow> a < sequence_of r) \<and>
     (case last_option (map sequence_of (filter (decided ''denied'') earlier)) of
        None \<Rightarrow> True | Some d \<Rightarrow> sequence_of r \<le> d)"

lemma last_option_simps [simp]:
  "last_option [] = None" "last_option (xs @ [x]) = Some x"
  by (simp_all add: last_option_def)

lemma scope_ok_texts:
  assumes "scope_ok sc"
  obtains a b c d where "sc_run_id sc = PStr a" "sc_turn_id sc = PStr b"
    "sc_provider sc = PStr c" "sc_operation_id sc = PStr d"
  using assms by (auto simp: scope_ok_def not_text_iff)

text \<open>The state after the identity checks of a record.\<close>

definition entered :: "scope \<Rightarrow> items list \<Rightarrow> items \<Rightarrow> validator" where
  "entered sc rs r = (clean_state sc rs)
     \<lparr>v_record_ids := map (\<lambda>r. text_of r ''record_id'') (rs @ [r]),
      v_sequences := map sequence_of (rs @ [r])\<rparr>"

lemma clean_state_clean [simp]: "v_violations (clean_state sc rs) = []"
  by (simp add: clean_state_def)

lemma find_snoc: "find P (xs @ [x]) = (case find P xs of None \<Rightarrow> if P x then Some x else None | Some y \<Rightarrow> Some y)"
  by (induction xs) auto

lemma entered_identity:
  "identified r \<Longrightarrow> check_identity r (clean_state sc rs) = entered sc rs r"
  by (simp add: check_identity_identified entered_def clean_state_def)

lemma entered_clean [simp]: "v_violations (entered sc rs r) = []"
  by (simp add: entered_def clean_state_def)

lemma event_step:
  assumes sc: "scope_ok sc" and k: "kind_is ''runtime_event'' r"
  shows "check_runtime_event sc r (entered sc rs r) = Inr st \<and> v_violations st = [] \<longleftrightarrow>
           event_rule sc rs r \<and> st = clean_state sc (rs @ [r])"
proof -
  have other: "\<not> kind_is ''checkpoint'' r" "\<not> kind_is ''provider_evidence'' r"
    "\<not> kind_is ''reconciliation_completion'' r" "\<not> binds r" "\<not> decided d r" for d
    using k by (simp_all add: kind_is_def binds_def decided_def)
  from sc obtain a b where "sc_run_id sc = PStr a" "sc_turn_id sc = PStr b"
    by (rule scope_ok_texts)
  moreover have "clean_state sc (rs @ [r]) =
      (entered sc rs r)\<lparr>v_event_ids := v_event_ids (entered sc rs r) @ [text_of r ''event_id'']\<rparr>"
    using k other by (simp add: find_snoc entered_def clean_state_def split: option.split)
  moreover have "set (v_event_ids (entered sc rs r)) =
      (\<lambda>e. text_of e ''event_id'') ` set (of_kind ''runtime_event'' rs)"
    by (simp add: entered_def clean_state_def)
  ultimately show ?thesis
    unfolding check_runtime_event_clean event_rule_def by simp
qed

lemma checkpoint_step:
  assumes sc: "scope_ok sc" and k: "kind_is ''checkpoint'' r"
  shows "check_checkpoint sc r (entered sc rs r) = st \<and> v_violations st = [] \<longleftrightarrow>
           py_get r ''run_id'' = sc_run_id sc \<and> st = clean_state sc (rs @ [r])"
proof -
  have other: "\<not> kind_is ''runtime_event'' r" "\<not> kind_is ''provider_evidence'' r"
    "\<not> kind_is ''reconciliation_completion'' r" "\<not> binds r" "\<not> decided d r" for d
    using k by (simp_all add: kind_is_def binds_def decided_def)
  from sc obtain a where "sc_run_id sc = PStr a" by (rule scope_ok_texts)
  with k other show ?thesis
    by (auto simp: find_snoc check_checkpoint_def Let_def entered_def clean_state_def report_id
        split: option.splits)
qed

lemma operation_step:
  assumes "scope_ok sc"
  shows "check_operation sc r st = st' \<and> v_violations st' = [] \<longleftrightarrow>
           in_scope sc r \<and> st' = st \<and> v_violations st = []"
proof -
  from assms obtain a b where "sc_provider sc = PStr a" "sc_operation_id sc = PStr b"
    by (rule scope_ok_texts)
  then show ?thesis
    by (auto simp: check_operation_def Let_def in_scope_def report_id)
qed

text \<open>The state after the binding of an approval or an effect is known.\<close>

definition bound :: "scope \<Rightarrow> items list \<Rightarrow> items \<Rightarrow> validator" where
  "bound sc rs r = (entered sc rs r)
     \<lparr>v_binding := v_binding (clean_state sc (rs @ [r])),
      v_expected_effect := v_expected_effect (clean_state sc (rs @ [r]))\<rparr>"

definition binding_agrees :: "items list \<Rightarrow> items \<Rightarrow> bool" where
  "binding_agrees earlier r \<longleftrightarrow>
     \<not> not_text (py_get r ''tool'') \<and> is_sha256 (py_get r ''payload_sha256'') \<and>
     (case find binds earlier of
        None \<Rightarrow> True
      | Some a \<Rightarrow> text_of a ''tool'' = text_of r ''tool'' \<and>
                  text_of a ''payload_sha256'' = text_of r ''payload_sha256'')"

lemma binding_rule_iff:
  "binding_rule sc earlier r \<longleftrightarrow>
     binding_agrees earlier r \<and> py_get r ''effect_sha256'' = PStr (fingerprint_of sc r)"
  by (auto simp: binding_rule_def binding_agrees_def)

lemma binding_step:
  assumes sc: "scope_ok sc" and k: "binds r"
  shows "check_binding sc r (entered sc rs r) = st \<and> v_violations st = [] \<longleftrightarrow>
           binding_agrees rs r \<and> st = bound sc rs r"
proof -
  obtain a b where ab: "sc_provider sc = PStr a" "sc_operation_id sc = PStr b"
    using sc by (rule scope_ok_texts)
  have flags: "v_violations (check_binding sc r (entered sc rs r)) = [] \<longleftrightarrow> binding_agrees rs r"
    by (cases "find binds rs")
      (auto simp: check_binding_def Let_def binding_agrees_def entered_def clean_state_def
        text_of_def not_text_iff split: if_splits)
  have "check_binding sc r (entered sc rs r) = bound sc rs r" if "binding_agrees rs r"
  proof (cases "find binds rs")
    case None
    with that k ab show ?thesis
      by (auto simp: check_binding_def Let_def binding_agrees_def bound_def entered_def clean_state_def
          find_snoc fingerprint_of_def text_of_def not_text_iff report_id)
  next
    case (Some a)
    with that k ab show ?thesis
      by (auto simp: check_binding_def Let_def binding_agrees_def bound_def entered_def clean_state_def
          find_snoc fingerprint_of_def text_of_def not_text_iff report_id)
  qed
  with flags show ?thesis by auto
qed

lemma bound_mismatch:
  assumes "binds r" "binding_agrees rs r"
  shows "effect_mismatch (bound sc rs r) r \<longleftrightarrow> py_get r ''effect_sha256'' \<noteq> PStr (fingerprint_of sc r)"
  using assms
  by (auto simp: effect_mismatch_def bound_def clean_state_def find_snoc binding_agrees_def
      fingerprint_of_def split: option.splits)

lemma identified_sequence: "identified r \<Longrightarrow> as_int (py_get r ''sequence'') = Some (sequence_of r)"
  by (auto simp: identified_def not_int_from_def sequence_of_def split: option.splits)

text \<open>The effect of a record on the lists that depend on its kind.\<close>

lemma clean_state_approval:
  assumes k: "kind_is ''approval'' r" and d: "py_get r ''decision'' = PStr d" and "d \<in> set decisions"
  shows "clean_state sc (rs @ [r]) =
           (if d = ''approved'' then (bound sc rs r)\<lparr>v_approved_sequence := Some (sequence_of r)\<rparr>
            else (bound sc rs r)\<lparr>v_denied_sequence := Some (sequence_of r)\<rparr>)"
proof -
  have other: "\<not> kind_is ''runtime_event'' r" "\<not> kind_is ''provider_evidence'' r"
    "\<not> kind_is ''reconciliation_completion'' r" "\<not> kind_is ''checkpoint'' r"
    using k by (simp_all add: kind_is_def)
  from assms(3) have "d = ''approved'' \<or> d = ''denied''" by (auto simp: decisions_def)
  with k d other show ?thesis
    by (auto simp: bound_def entered_def clean_state_def decided_def)
qed

lemma clean_state_effect:
  assumes k: "kind_is ''effect'' r"
  shows "clean_state sc (rs @ [r]) = bound sc rs r"
proof -
  have other: "\<not> kind_is ''runtime_event'' r" "\<not> kind_is ''provider_evidence'' r"
    "\<not> kind_is ''reconciliation_completion'' r" "\<not> kind_is ''checkpoint'' r" "\<not> kind_is ''approval'' r"
    using k by (simp_all add: kind_is_def)
  with k show ?thesis
    by (auto simp: bound_def entered_def clean_state_def decided_def)
qed

lemma approval_step:
  assumes i: "identified r" and k: "kind_is ''approval'' r"
    and agrees: "binding_agrees rs r"
  shows "check_approval r (bound sc rs r) = Inr st \<and> v_violations st = [] \<longleftrightarrow>
           binding_rule sc rs r \<and> py_get r ''decision'' \<in> PStr ` set decisions \<and>
           st = clean_state sc (rs @ [r])"
proof -
  have b: "binds r" using k by (simp add: binds_def)
  have known: "member_of (py_get r ''decision'') decisions = Inr True"
    if "py_get r ''decision'' \<in> PStr ` set decisions"
    using that by (simp add: member_of_known)
  show ?thesis
  proof (cases "py_get r ''decision'' \<in> PStr ` set decisions")
    case True
    then obtain d where d: "py_get r ''decision'' = PStr d" "d \<in> set decisions" by auto
    have "check_approval r (bound sc rs r) =
        Inr (report (py_get r ''effect_sha256'' \<noteq> PStr (fingerprint_of sc r))
               ''approval_effect_fingerprint_mismatch'' (clean_state sc (rs @ [r])))"
      using known [OF True] d(1)
      by (simp add: check_approval_def identified_sequence [OF i] bound_mismatch [OF b agrees]
          clean_state_approval [OF k d])
    then show ?thesis
      using True agrees by (auto simp: binding_rule_iff report_id)
  next
    case False
    then have "member_of (py_get r ''decision'') decisions \<noteq> Inr True"
      by (simp add: member_of_known)
    with False show ?thesis
      by (auto simp: check_approval_def bind_result_Inr_iff)
  qed
qed

lemma effect_step:
  assumes i: "identified r" and k: "kind_is ''effect'' r"
    and agrees: "binding_agrees rs r"
  shows "check_effect r (bound sc rs r) = st \<and> v_violations st = [] \<longleftrightarrow>
           binding_rule sc rs r \<and> effect_passes rs r \<and> st = clean_state sc (rs @ [r])"
proof -
  have b: "binds r" using k by (simp add: binds_def)
  have fields: "v_violations (bound sc rs r) = []"
    "v_approved_sequence (bound sc rs r) = last_option (map sequence_of (filter (decided ''approved'') rs))"
    "v_denied_sequence (bound sc rs r) = last_option (map sequence_of (filter (decided ''denied'') rs))"
    by (simp_all add: bound_def entered_def clean_state_def)
  have "check_effect r (bound sc rs r) =
      report (case last_option (map sequence_of (filter (decided ''denied'') rs)) of
                None \<Rightarrow> False | Some d \<Rightarrow> d < sequence_of r) ''effect_after_denial''
        (report (case last_option (map sequence_of (filter (decided ''approved'') rs)) of
                   None \<Rightarrow> True | Some a \<Rightarrow> sequence_of r \<le> a) ''effect_without_prior_approval''
          (report (py_get r ''effect_sha256'' \<noteq> PStr (fingerprint_of sc r))
             ''effect_fingerprint_mismatch'' (bound sc rs r)))"
    by (simp add: check_effect_def identified_sequence [OF i] fields bound_mismatch [OF b agrees])
  then show ?thesis
    using agrees fields(1)
    by (auto simp: binding_rule_iff clean_state_effect [OF k] effect_passes_def report_id
        split: option.splits)
qed

text \<open>What the evidence records of a clean prefix satisfy.\<close>

abbreviation evidence_in :: "items list \<Rightarrow> items list" where
  "evidence_in rs \<equiv> of_kind ''provider_evidence'' rs"

definition evidence_sound :: "items list \<Rightarrow> bool" where
  "evidence_sound rs \<longleftrightarrow>
     (\<forall>e \<in> set (evidence_in rs).
        as_int (py_get e ''revision'') = Some (revision_of e) \<and> \<not> not_text (py_get e ''evidence_id'')) \<and>
     distinct (map (\<lambda>e. text_of e ''evidence_id'') (evidence_in rs))"

lemma entered_mismatch: "effect_mismatch (entered sc rs r) r \<longleftrightarrow> \<not> names_effect sc rs r"
  by (auto simp: effect_mismatch_def entered_def clean_state_def names_effect_def split: option.splits)

definition evidence_follows :: "items \<Rightarrow> items \<Rightarrow> bool" where
  "evidence_follows e r \<longleftrightarrow>
     revision_of e \<le> revision_of r \<and>
     (revision_of e = revision_of r \<longrightarrow>
        py_eq (py_get e ''readback'') (py_get r ''readback'') \<and>
        py_eq (py_get e ''effect_sha256'') (py_get r ''effect_sha256''))"

lemma evidence_order_clean:
  assumes "as_int (py_get e ''revision'') = Some (revision_of e)"
    and "as_int (py_get r ''revision'') = Some (revision_of r)"
  shows "v_violations (check_evidence_order e r st) = [] \<longleftrightarrow> evidence_follows e r \<and> v_violations st = []"
    and "evidence_follows e r \<Longrightarrow> check_evidence_order e r st = st"
  using assms by (auto simp: check_evidence_order_def evidence_follows_def report_id)

lemma not_int_from_revision:
  "\<not> not_int_from b (py_get r ''revision'') \<Longrightarrow> as_int (py_get r ''revision'') = Some (revision_of r)"
  by (auto simp: not_int_from_def revision_of_def split: option.splits)

lemma clean_state_evidence:
  assumes k: "kind_is ''provider_evidence'' r"
  shows "clean_state sc (rs @ [r]) = (entered sc rs r)
           \<lparr>v_evidence_by_id := v_evidence_by_id (entered sc rs r) @ [(text_of r ''evidence_id'', r)],
            v_evidence_history := evidence_in rs @ [r]\<rparr>"
proof -
  have "\<not> kind_is ''runtime_event'' r" "\<not> kind_is ''checkpoint'' r"
    "\<not> kind_is ''reconciliation_completion'' r" "\<not> binds r" "\<not> decided d r" for d
    using k by (simp_all add: kind_is_def binds_def decided_def)
  with k show ?thesis
    by (auto simp: find_snoc entered_def clean_state_def split: option.splits)
qed

text \<open>\<open>check_evidence\<close> with its guards passed, up to the order check.\<close>

lemma check_evidence_run:
  assumes "\<not> not_text (py_get r ''evidence_id'')"
    and "map_of (v_evidence_by_id st) (text_of r ''evidence_id'') = None"
    and "\<not> not_int_from 0 (py_get r ''revision'')"
    and "py_get r ''readback'' \<in> PStr ` set readback_states"
    and "\<not> effect_mismatch st r"
  shows "check_evidence r st =
    (let st = st\<lparr>v_evidence_by_id := v_evidence_by_id st @ [(text_of r ''evidence_id'', r)]\<rparr>;
         st = check_previous_evidence r st in
     Inr (st\<lparr>v_evidence_history := v_evidence_history st @ [r]\<rparr>))"
  using assms by (simp add: check_evidence_def note_evidence_run member_of_known [symmetric] Let_def)

lemma evidence_ids: "map_of (v_evidence_by_id (entered sc rs r)) x = None \<longleftrightarrow>
    x \<notin> (\<lambda>e. text_of e ''evidence_id'') ` set (evidence_in rs)"
  by (auto simp: entered_def clean_state_def map_of_eq_None_iff image_image)

lemma evidence_rule_iff:
  "evidence_rule sc rs r \<longleftrightarrow>
     \<not> not_text (py_get r ''evidence_id'') \<and>
     map_of (v_evidence_by_id (entered sc rs r)) (text_of r ''evidence_id'') = None \<and>
     \<not> not_int_from 0 (py_get r ''revision'') \<and>
     py_get r ''readback'' \<in> PStr ` set readback_states \<and>
     \<not> effect_mismatch (entered sc rs r) r \<and>
     (evidence_in rs \<noteq> [] \<longrightarrow> evidence_follows (last (evidence_in rs)) r)"
  by (simp add: evidence_rule_def evidence_ids entered_mismatch evidence_follows_def Let_def)

lemma evidence_step:
  assumes k: "kind_is ''provider_evidence'' r" and sound: "evidence_sound rs"
  shows "check_evidence r (entered sc rs r) = Inr st \<and> v_violations st = [] \<longleftrightarrow>
           evidence_rule sc rs r \<and> st = clean_state sc (rs @ [r])"
proof (cases "\<not> not_text (py_get r ''evidence_id'') \<and>
     map_of (v_evidence_by_id (entered sc rs r)) (text_of r ''evidence_id'') = None \<and>
     \<not> not_int_from 0 (py_get r ''revision'') \<and>
     py_get r ''readback'' \<in> PStr ` set readback_states \<and>
     \<not> effect_mismatch (entered sc rs r) r")
  case False
  then show ?thesis using check_evidence_guards [of r "entered sc rs r" st] evidence_rule_iff [of sc rs r]
    by blast
next
  case True
  have history: "v_evidence_history (entered sc rs r) = evidence_in rs"
    by (simp add: entered_def clean_state_def)
  have last: "as_int (py_get (last (evidence_in rs)) ''revision'') = Some (revision_of (last (evidence_in rs)))"
    if "evidence_in rs \<noteq> []"
    using sound last_in_set [OF that] by (simp add: evidence_sound_def)
  note ordered = evidence_order_clean [OF last not_int_from_revision]
  show ?thesis
    using True ordered check_evidence_run [of r "entered sc rs r"]
    by (cases "evidence_in rs = []")
      (auto simp: evidence_rule_iff clean_state_evidence [OF k] history check_previous_evidence_def Let_def)
qed

lemma clean_state_completion:
  assumes k: "kind_is ''reconciliation_completion'' r"
  shows "clean_state sc (rs @ [r]) = (entered sc rs r)
           \<lparr>v_completion_count := v_completion_count (entered sc rs r) + 1\<rparr>"
proof -
  have "\<not> kind_is ''runtime_event'' r" "\<not> kind_is ''checkpoint'' r"
    "\<not> kind_is ''provider_evidence'' r" "\<not> binds r" "\<not> decided d r" for d
    using k by (simp_all add: kind_is_def binds_def decided_def)
  with k show ?thesis
    by (auto simp: find_snoc entered_def clean_state_def split: option.splits)
qed

lemma evidence_revisions_sound:
  "\<forall>e \<in> set es. as_int (py_get e ''revision'') = Some (revision_of e) \<Longrightarrow>
     evidence_revisions es = map revision_of es"
  unfolding evidence_revisions_def by (induction es) auto

lemma evidence_lookup:
  assumes "evidence_sound rs"
  shows "map_of (v_evidence_by_id (entered sc rs r)) x = Some e \<longleftrightarrow>
           e \<in> set (evidence_in rs) \<and> py_get e ''evidence_id'' = PStr x"
proof -
  have "distinct (map fst (map (\<lambda>r. (text_of r ''evidence_id'', r)) (evidence_in rs)))"
    using assms by (simp add: evidence_sound_def comp_def)
  then have "map_of (map (\<lambda>r. (text_of r ''evidence_id'', r)) (evidence_in rs)) x = Some e \<longleftrightarrow>
      e \<in> set (evidence_in rs) \<and> text_of e ''evidence_id'' = x"
    by (subst map_of_eq_Some_iff) auto
  moreover have "text_of e ''evidence_id'' = x \<longleftrightarrow> py_get e ''evidence_id'' = PStr x"
    if "e \<in> set (evidence_in rs)"
    using assms that by (auto simp: evidence_sound_def not_text_iff text_of_def)
  ultimately show ?thesis by (auto simp: entered_def clean_state_def)
qed

definition backs :: "items \<Rightarrow> items \<Rightarrow> bool" where
  "backs e r \<longleftrightarrow>
     py_get e ''readback'' = PStr ''present'' \<and>
     py_eq (py_get e ''revision'') (py_get r ''revision'') \<and>
     py_eq (py_get e ''effect_sha256'') (py_get r ''effect_sha256'')"

lemma check_completion_clean:
  "v_violations (check_completion r st) = [] \<longleftrightarrow>
     v_violations st = [] \<and> v_completion_count st = 0 \<and> \<not> effect_mismatch st r \<and>
     (\<exists>x e. py_get r ''evidence_id'' = PStr x \<and> map_of (v_evidence_by_id st) x = Some e \<and> backs e r) \<and>
     (evidence_revisions (v_evidence_history st) \<noteq> [] \<longrightarrow>
        py_eq (py_get r ''revision'') (PInt (Max (set (evidence_revisions (v_evidence_history st))))))"
  by (cases "py_get r ''evidence_id''")
    (auto simp: check_completion_def Let_def backs_def split: option.splits)

lemma check_completion_run:
  "v_violations (check_completion r st) = [] \<Longrightarrow>
     check_completion r st = st\<lparr>v_completion_count := v_completion_count st + 1\<rparr>"
proof -
  assume clean: "v_violations (check_completion r st) = []"
  then obtain x e where "py_get r ''evidence_id'' = PStr x" "map_of (v_evidence_by_id st) x = Some e"
    "backs e r" by (auto simp: check_completion_clean)
  with clean show ?thesis
    unfolding check_completion_clean by (auto simp: check_completion_def Let_def report_id backs_def)
qed

lemma latest_revision:
  assumes "evidence_sound rs" "e \<in> set (evidence_in rs)"
    and "py_eq (py_get e ''revision'') (py_get r ''revision'')"
  shows "py_eq (py_get r ''revision'') (PInt (Max (set (evidence_revisions (evidence_in rs))))) \<longleftrightarrow>
           (\<forall>e' \<in> set (evidence_in rs). revision_of e' \<le> revision_of e)"
proof -
  let ?M = "Max (revision_of ` set (evidence_in rs))"
  have revs: "set (evidence_revisions (evidence_in rs)) = revision_of ` set (evidence_in rs)"
    using evidence_revisions_sound [of "evidence_in rs"] assms(1) by (simp add: evidence_sound_def)
  have int: "as_int (py_get e ''revision'') = Some (revision_of e)"
    using assms(1,2) by (simp add: evidence_sound_def)
  then have "as_number (py_get r ''revision'') = Some (of_int (revision_of e))"
    using assms(3) by (cases "py_get e ''revision''") auto
  then have "py_eq (py_get r ''revision'') (PInt ?M) \<longleftrightarrow> revision_of e = ?M"
    by (auto simp: py_eq_int)
  also have "\<dots> \<longleftrightarrow> (\<forall>e' \<in> set (evidence_in rs). revision_of e' \<le> revision_of e)"
    using assms(2) Max_ge [of "revision_of ` set (evidence_in rs)"]
    by (auto intro!: Max_eqI [symmetric])
  finally show ?thesis by (simp add: revs)
qed

lemma completion_step:
  assumes k: "kind_is ''reconciliation_completion'' r" and sound: "evidence_sound rs"
  shows "check_completion r (entered sc rs r) = st \<and> v_violations st = [] \<longleftrightarrow>
           completion_rule sc rs r \<and> st = clean_state sc (rs @ [r])"
proof -
  have fields: "v_completion_count (entered sc rs r) = length (of_kind ''reconciliation_completion'' rs)"
    "v_evidence_history (entered sc rs r) = evidence_in rs"
    by (simp_all add: entered_def clean_state_def)
  have nonempty: "evidence_revisions (evidence_in rs) \<noteq> []" if "e \<in> set (evidence_in rs)" for e
  proof -
    have "evidence_revisions (evidence_in rs) = map revision_of (evidence_in rs)"
      using sound by (simp add: evidence_sound_def evidence_revisions_sound)
    with that show ?thesis by (metis length_pos_if_in_set length_map list.size(3) less_irrefl)
  qed
  have has_id: "\<exists>x. py_get e ''evidence_id'' = PStr x" if "e \<in> set (evidence_in rs)" for e
    using sound that by (auto simp: evidence_sound_def not_text_iff)
  have backed: "(\<exists>x e. py_get r ''evidence_id'' = PStr x \<and>
         (e \<in> set (evidence_in rs) \<and> py_get e ''evidence_id'' = PStr x) \<and> backs e r) \<and>
       (evidence_revisions (evidence_in rs) \<noteq> [] \<longrightarrow>
          py_eq (py_get r ''revision'') (PInt (Max (set (evidence_revisions (evidence_in rs)))))) \<longleftrightarrow>
     (\<exists>e \<in> set (evidence_in rs). py_get r ''evidence_id'' = py_get e ''evidence_id'' \<and> backs e r \<and>
        (\<forall>e' \<in> set (evidence_in rs). revision_of e' \<le> revision_of e))" (is "?L \<longleftrightarrow> ?R")
  proof
    assume L: ?L
    then obtain x e where "py_get r ''evidence_id'' = PStr x" "e \<in> set (evidence_in rs)"
      "py_get e ''evidence_id'' = PStr x" "backs e r" by blast
    then have e: "e \<in> set (evidence_in rs)" "py_get r ''evidence_id'' = py_get e ''evidence_id''"
      "backs e r" by simp_all
    from L nonempty [OF e(1)]
    have "py_eq (py_get r ''revision'') (PInt (Max (set (evidence_revisions (evidence_in rs)))))" by blast
    with latest_revision [OF sound e(1)] e show ?R by (auto simp: backs_def)
  next
    assume ?R
    then obtain e where e: "e \<in> set (evidence_in rs)" "py_get r ''evidence_id'' = py_get e ''evidence_id''"
      "backs e r" "\<forall>e' \<in> set (evidence_in rs). revision_of e' \<le> revision_of e" by blast
    with has_id [OF e(1)] latest_revision [OF sound e(1)] show ?L by (auto simp: backs_def)
  qed
  have "v_violations (check_completion r (entered sc rs r)) = [] \<longleftrightarrow> completion_rule sc rs r"
    unfolding check_completion_clean completion_rule_def evidence_lookup [OF sound] fields entered_mismatch
      backed by (simp add: backs_def conj_ac)
  then show ?thesis
    using check_completion_run [of r "entered sc rs r"] clean_state_completion [OF k] by auto
qed

subsection \<open>All records\<close>

lemma kind_member: "py_get r ''kind'' \<in> PStr ` set record_kinds \<longleftrightarrow>
    kind_is ''runtime_event'' r \<or> kind_is ''checkpoint'' r \<or> kind_is ''approval'' r \<or>
    kind_is ''effect'' r \<or> kind_is ''provider_evidence'' r \<or> kind_is ''reconciliation_completion'' r"
  by (auto simp: record_kinds_def kind_is_def)

lemma by_kind_step:
  assumes sc: "scope_ok sc" and i: "identified r" and sound: "evidence_sound rs"
    and k: "py_get r ''kind'' \<in> PStr ` set record_kinds"
  shows "check_by_kind sc r (entered sc rs r) = Inr st \<and> v_violations st = [] \<longleftrightarrow>
           record_rule_by (effect_passes rs r) sc rs r \<and> st = clean_state sc (rs @ [r])"
proof -
  let ?op = "check_operation sc r (entered sc rs r)"
  have op: "?op = entered sc rs r" if "in_scope sc r"
    using operation_step [OF sc, of r "entered sc rs r" "entered sc rs r"] that by simp
  have op_clean: "in_scope sc r" if "v_violations ?op = []"
    using operation_step [OF sc, of r "entered sc rs r" ?op] that by simp
  have bind_clean: "v_violations (check_binding sc r s) = [] \<Longrightarrow> v_violations s = []" for s
    by (rule check_binding_mono)
  note distinct_kinds = record_rule_by_def kind_is_def check_by_kind_def Let_def i
  from k consider "kind_is ''runtime_event'' r" | "kind_is ''checkpoint'' r" | "kind_is ''approval'' r"
    | "kind_is ''effect'' r" | "kind_is ''provider_evidence'' r" | "kind_is ''reconciliation_completion'' r"
    by (auto simp: kind_member)
  then show ?thesis
  proof cases
    case 1
    then show ?thesis using event_step [OF sc 1, of rs st] by (simp add: distinct_kinds)
  next
    case 2
    then show ?thesis using checkpoint_step [OF sc 2, of rs st] by (simp add: distinct_kinds)
  next
    case 3
    have b: "binds r" using 3 by (simp add: binds_def)
    have *: "check_approval r (check_binding sc r ?op) = Inr st \<and> v_violations st = [] \<longleftrightarrow>
        in_scope sc r \<and> binding_agrees rs r \<and> check_approval r (bound sc rs r) = Inr st \<and> v_violations st = []"
      using op op_clean bind_clean check_approval_mono binding_step [OF sc b, of rs] by metis
    from 3 show ?thesis
      using * approval_step [OF i 3, of rs sc st] by (simp add: distinct_kinds) (auto simp: binding_rule_iff)
  next
    case 4
    have b: "binds r" using 4 by (simp add: binds_def)
    have *: "check_effect r (check_binding sc r ?op) = st \<and> v_violations st = [] \<longleftrightarrow>
        in_scope sc r \<and> binding_agrees rs r \<and> check_effect r (bound sc rs r) = st \<and> v_violations st = []"
      using op op_clean bind_clean check_effect_mono binding_step [OF sc b, of rs] by metis
    from 4 show ?thesis
      using * effect_step [OF i 4, of rs sc st] by (simp add: distinct_kinds) (auto simp: binding_rule_iff)
  next
    case 5
    have *: "check_evidence r ?op = Inr st \<and> v_violations st = [] \<longleftrightarrow>
        in_scope sc r \<and> check_evidence r (entered sc rs r) = Inr st \<and> v_violations st = []"
      using op op_clean check_evidence_mono by metis
    from 5 show ?thesis
      using * evidence_step [OF 5 sound, of sc st] by (simp add: distinct_kinds)
  next
    case 6
    have *: "check_completion r ?op = st \<and> v_violations st = [] \<longleftrightarrow>
        in_scope sc r \<and> check_completion r (entered sc rs r) = st \<and> v_violations st = []"
      using op op_clean check_completion_mono by metis
    from 6 show ?thesis
      using * completion_step [OF 6 sound, of sc st] by (simp add: distinct_kinds)
  qed
qed

lemma record_step:
  assumes sc: "scope_ok sc" and sound: "evidence_sound rs"
  shows "check_record sc (clean_state sc rs) (i, v) = Inr st \<and> v_violations st = [] \<longleftrightarrow>
           (\<exists>r. v = PDict r \<and> record_rule_by (effect_passes rs r) sc rs r \<and> st = clean_state sc (rs @ [r]))"
proof -
  have "py_get r ''kind'' \<in> PStr ` set record_kinds \<and>
        check_by_kind sc r (check_identity r (clean_state sc rs)) = Inr st \<and> v_violations st = [] \<longleftrightarrow>
      record_rule_by (effect_passes rs r) sc rs r \<and> st = clean_state sc (rs @ [r])" (is "?L \<longleftrightarrow> ?R") for r
  proof
    assume L: ?L
    then have "identified r" using check_by_kind_mono check_identity_clean by blast
    with L by_kind_step [OF sc this sound, of st] show ?R by (simp add: entered_identity)
  next
    assume R: ?R
    then have "identified r" "py_get r ''kind'' \<in> PStr ` set record_kinds"
      unfolding kind_member by (auto simp: record_rule_by_def)
    with R by_kind_step [OF sc this(1) sound this(2), of st] show ?L by (simp add: entered_identity)
  qed
  then show ?thesis unfolding check_record_clean by metis
qed

lemma evidence_sound_snoc:
  assumes "evidence_sound rs" "record_rule_by eff sc rs r"
  shows "evidence_sound (rs @ [r])"
proof (cases "kind_is ''provider_evidence'' r")
  case True
  then have "evidence_rule sc rs r"
    using assms(2) by (auto simp: record_rule_by_def kind_is_def)
  then have "text_of r ''evidence_id'' \<notin> (\<lambda>e. text_of e ''evidence_id'') ` set (evidence_in rs)"
    "\<not> not_text (py_get r ''evidence_id'')" "as_int (py_get r ''revision'') = Some (revision_of r)"
    by (auto simp: evidence_rule_def not_int_from_revision)
  with assms(1) True show ?thesis by (simp add: evidence_sound_def)
next
  case False
  with assms(1) show ?thesis by (simp add: evidence_sound_def)
qed

lemma evidence_sound_Nil [simp]: "evidence_sound []"
  by (simp add: evidence_sound_def)

text \<open>The records \<open>rs'\<close> pass one after the other, after \<open>rs\<close>.\<close>

fun all_pass :: "scope \<Rightarrow> items list \<Rightarrow> items list \<Rightarrow> bool" where
  "all_pass sc rs [] = True"
| "all_pass sc rs (r # rs') =
     (record_rule_by (effect_passes rs r) sc rs r \<and> all_pass sc (rs @ [r]) rs')"

lemma all_pass_iff:
  "all_pass sc rs rs' \<longleftrightarrow>
     (\<forall>i < length rs'. record_rule_by (effect_passes (rs @ take i rs') (rs' ! i)) sc (rs @ take i rs') (rs' ! i))"
  by (induction rs' arbitrary: rs) (simp_all add: All_less_Suc2)

lemma run_records:
  assumes sc: "scope_ok sc" and sound: "evidence_sound rs"
  shows "run_steps (check_record sc) (clean_state sc rs) (enumerate n vs) = Inr st \<and> v_violations st = [] \<longleftrightarrow>
           (\<exists>rs'. vs = map PDict rs' \<and> all_pass sc rs rs' \<and> st = clean_state sc (rs @ rs'))"
  using sound
proof (induction vs arbitrary: n rs)
  case Nil
  then show ?case by auto
next
  case (Cons v vs)
  have "run_steps (check_record sc) (clean_state sc rs) (enumerate n (v # vs)) = Inr st \<and> v_violations st = [] \<longleftrightarrow>
      (\<exists>s. (check_record sc (clean_state sc rs) (n, v) = Inr s \<and> v_violations s = []) \<and>
           run_steps (check_record sc) s (enumerate (Suc n) vs) = Inr st \<and> v_violations st = [])"
    using run_clean_start by (auto simp: bind_result_Inr_iff)
  also have "\<dots> \<longleftrightarrow> (\<exists>r. v = PDict r \<and> record_rule_by (effect_passes rs r) sc rs r \<and>
      run_steps (check_record sc) (clean_state sc (rs @ [r])) (enumerate (Suc n) vs) = Inr st \<and> v_violations st = [])"
    unfolding record_step [OF sc Cons.prems] by blast
  also have "\<dots> \<longleftrightarrow> (\<exists>r rs'. v = PDict r \<and> record_rule_by (effect_passes rs r) sc rs r \<and>
      vs = map PDict rs' \<and> all_pass sc (rs @ [r]) rs' \<and> st = clean_state sc (rs @ r # rs'))"
    using Cons.IH [OF evidence_sound_snoc [OF Cons.prems]] by auto
  also have "\<dots> \<longleftrightarrow> (\<exists>rs'. v # vs = map PDict rs' \<and> all_pass sc rs rs' \<and> st = clean_state sc (rs @ rs'))"
    by (fastforce simp: Cons_eq_map_conv)
  finally show ?case .
qed

lemma check_scope_clean: "v_violations (check_scope sc) = [] \<longleftrightarrow> scope_ok sc"
  by (auto simp: check_scope_def scope_ok_def)

lemma check_scope_state: "scope_ok sc \<Longrightarrow> check_scope sc = clean_state sc []"
  by (simp add: check_scope_def scope_ok_def clean_state_def)

lemma check_records_clean:
  "check_records sc vs = Inr st \<and> v_violations st = [] \<longleftrightarrow>
     scope_ok sc \<and> (\<exists>rs. vs = map PDict rs \<and> all_pass sc [] rs \<and> st = clean_state sc rs)"
proof (cases "scope_ok sc")
  case True
  then show ?thesis
    using run_records [OF True evidence_sound_Nil, of 0 vs st]
    by (simp add: check_records_def check_scope_state)
next
  case False
  then show ?thesis
    using run_clean_start [of sc "check_scope sc" "enumerate 0 vs" st] check_scope_clean
    by (auto simp: check_records_def)
qed

subsection \<open>Order of effects and decisions\<close>

text \<open>Under strictly increasing sequence numbers the comparisons with the last decision are about positions.\<close>

lemma effect_passes_iff:
  assumes "sorted_wrt (<) (map sequence_of (rs @ [r]))"
  shows "effect_passes rs r \<longleftrightarrow> effect_rule rs"
proof -
  have less: "sequence_of a < sequence_of r" if "a \<in> set rs" for a
    using assms that by (simp add: sorted_wrt_append)
  have last: "sequence_of (last (filter P rs)) < sequence_of r" if "filter P rs \<noteq> []" for P
    using less last_in_set [OF that] by simp
  have "last_option (map sequence_of (filter P rs)) =
      (if filter P rs = [] then None else Some (sequence_of (last (filter P rs))))" for P
    by (simp add: last_option_def last_map)
  then have *: "effect_passes rs r \<longleftrightarrow>
      filter (decided ''approved'') rs \<noteq> [] \<and> filter (decided ''denied'') rs = []"
    using last [of "decided ''approved''"] last [of "decided ''denied''"]
    by (auto simp: effect_passes_def)
  show ?thesis unfolding * effect_rule_def by (auto simp: filter_empty_conv)
qed

lemma record_rules_iff:
  assumes "sorted_wrt (<) (map sequence_of rs)"
  shows "all_pass sc [] rs \<longleftrightarrow> (\<forall>i < length rs. record_rule sc (take i rs) (rs ! i))"
proof -
  have "effect_passes (take i rs) (rs ! i) \<longleftrightarrow> effect_rule (take i rs)" if "i < length rs" for i
  proof -
    have "sorted_wrt (<) (take (Suc i) (map sequence_of rs))"
      using assms by (metis append_take_drop_id sorted_wrt_append)
    then have "sorted_wrt (<) (map sequence_of (take i rs @ [rs ! i]))"
      using that by (simp add: take_map take_Suc_conv_app_nth)
    then show ?thesis by (rule effect_passes_iff)
  qed
  then show ?thesis by (simp add: all_pass_iff record_rule_def)
qed

subsection \<open>Checkpoints\<close>

lemma as_int_eq: "as_int v = Some m \<Longrightarrow> py_eq v (PInt n) \<longleftrightarrow> m = n"
  by (cases v) auto

lemma checkpoint_okE:
  assumes "checkpoint_ok cp"
  obtains n k where "as_int (py_get cp ''checkpoint_sequence'') = Some n" "0 \<le> n"
    "as_int (py_get cp ''completed_count'') = Some k" "0 \<le> k"
    "count_of cp ''checkpoint_sequence'' = n" "count_of cp ''completed_count'' = k"
  using assms by (auto simp: checkpoint_ok_def count_of_def)

lemma is_sha256_str: "is_sha256 v \<Longrightarrow> \<exists>s. v = PStr s"
  by (cases v) auto

lemma check_link_names:
  "check_link prev cp names = [] \<Longrightarrow> names = [] \<and> checkpoint_ok cp"
  by (auto simp: check_link_def Let_def checkpoint_ok_def not_less split: option.splits)

lemma check_link_root:
  "check_link None cp names = [] \<longleftrightarrow> names = [] \<and> checkpoint_ok cp \<and> root_checkpoint cp"
proof (cases "checkpoint_ok cp")
  case True
  then obtain n k where nk: "as_int (py_get cp ''checkpoint_sequence'') = Some n" "0 \<le> n"
    "as_int (py_get cp ''completed_count'') = Some k" "0 \<le> k" by (rule checkpoint_okE)
  have "\<not> not_text (py_get cp ''checkpoint_id'')" "is_sha256 (py_get cp ''plan_sha256'')"
    using True by (simp_all add: checkpoint_ok_def)
  with True nk show ?thesis
    by (auto simp: check_link_def Let_def root_checkpoint_def count_of_def as_int_eq)
next
  case False
  then show ?thesis using check_link_names by blast
qed

lemma check_link_next:
  assumes p: "checkpoint_ok prev"
  shows "check_link (Some prev) cp names = [] \<longleftrightarrow> names = [] \<and> checkpoint_ok cp \<and> linked prev cp"
proof (cases "checkpoint_ok cp")
  case True
  then obtain n k where nk: "as_int (py_get cp ''checkpoint_sequence'') = Some n" "0 \<le> n"
    "as_int (py_get cp ''completed_count'') = Some k" "0 \<le> k" by (rule checkpoint_okE)
  obtain n' k' where nk': "as_int (py_get prev ''checkpoint_sequence'') = Some n'"
    "as_int (py_get prev ''completed_count'') = Some k'" using p by (rule checkpoint_okE)
  obtain x where x: "py_get prev ''checkpoint_id'' = PStr x"
    using p by (auto simp: checkpoint_ok_def not_text_iff)
  obtain pl where pl: "py_get prev ''plan_sha256'' = PStr pl"
    using p is_sha256_str unfolding checkpoint_ok_def by blast
  note prev = x pl
  have "\<not> not_text (py_get cp ''checkpoint_id'')" "is_sha256 (py_get cp ''plan_sha256'')"
    using True by (simp_all add: checkpoint_ok_def)
  with True nk nk' prev show ?thesis
    by (auto simp: check_link_def Let_def linked_def count_of_def as_int_eq)
next
  case False
  then show ?thesis using check_link_names by blast
qed

lemma check_chain_names: "check_chain prev cps names = [] \<Longrightarrow> names = []"
  by (induction cps arbitrary: prev names) (auto dest: check_link_names)

lemma check_chain_ok:
  "check_chain prev (cp # cps) names = [] \<Longrightarrow> checkpoint_ok cp"
  by (auto dest!: check_chain_names check_link_names)

lemma check_chain_next:
  "checkpoint_ok prev \<Longrightarrow> check_chain (Some prev) cps names = [] \<longleftrightarrow>
     names = [] \<and> (\<forall>cp \<in> set cps. checkpoint_ok cp) \<and> successively linked (prev # cps)"
proof (induction cps arbitrary: prev names)
  case Nil
  then show ?case by simp
next
  case (Cons cp cps)
  show ?case
  proof (cases "checkpoint_ok cp")
    case True
    then show ?thesis using Cons.IH [OF True] check_link_next [OF Cons.prems] by auto
  next
    case False
    with check_chain_ok [of "Some prev" cp cps names] show ?thesis by auto
  qed
qed

lemma check_chain_rule:
  "check_chain None cps names = [] \<longleftrightarrow> names = [] \<and> chain_rule cps"
proof (cases cps)
  case Nil
  then show ?thesis by (simp add: chain_rule_def)
next
  case (Cons cp cps')
  show ?thesis
  proof (cases "checkpoint_ok cp")
    case True
    then show ?thesis
      using check_chain_next [OF True] check_link_root by (auto simp: Cons chain_rule_def)
  next
    case False
    with check_chain_ok [of None cp cps' names] show ?thesis by (auto simp: Cons chain_rule_def)
  qed
qed

end
