(* ===== verification/TraceSpec.thy ===== *)
theory TraceSpec
  imports TraceRules
begin

section \<open>What an accepted trace guarantees\<close>

text \<open>
  The equivalence of \<open>validate_trace\<close> with the rules of \<open>TraceRules\<close>, and what it gives a reader
  of an accepted trace: effects were approved, completions rest on evidence, checkpoints form one
  chain. Then when the validator raises, and what the digest check lets through.
\<close>

lemma check_totals_clean:
  "check_totals (clean_state sc rs) = [] \<longleftrightarrow>
     sorted_wrt (<) (map sequence_of rs) \<and> distinct (map (\<lambda>r. text_of r ''record_id'') rs) \<and>
     chain_rule (of_kind ''checkpoint'' rs)"
proof -
  let ?ids = "map (\<lambda>r. text_of r ''record_id'') rs"
  have ids: "length rs = length (remdups ?ids) \<longleftrightarrow> distinct ?ids"
    by (metis length_map length_remdups_eq remdups_id_iff_distinct)
  show ?thesis
    by (simp add: check_totals_def Let_def check_chain_rule clean_state_def not_strictly_increasing_iff
        ids conj_ac del: distinct_map)
qed

lemma check_totals_violations: "check_totals st = [] \<Longrightarrow> v_violations st = []"
  by (auto simp: check_totals_def Let_def dest!: check_chain_names)

lemma accepted_iff:
  "validate_trace d = Inr [] \<longleftrightarrow>
     (\<exists>s rs. py_get d ''scope'' = PDict s \<and> py_get d ''records'' = PList (map PDict rs) \<and>
        trace_rules (scope_of s) rs)"
proof -
  have "check_records sc vs = Inr st \<and> check_totals st = [] \<longleftrightarrow>
      (\<exists>rs. vs = map PDict rs \<and> trace_rules sc rs \<and> st = clean_state sc rs)" for sc vs st
    using check_records_clean [of sc vs st] check_totals_violations [of st]
    by (auto simp: check_totals_clean trace_rules_def record_rules_iff)
  moreover have "sort (remdups names) = [] \<longleftrightarrow> names = []" for names :: "string list"
    by (metis remdups_eq_nil_iff set_empty set_sort)
  ultimately have run: "bind_result (check_records sc vs) (\<lambda>st. Inr (sort (remdups (check_totals st)))) = Inr [] \<longleftrightarrow>
      (\<exists>rs. vs = map PDict rs \<and> trace_rules sc rs)" for sc vs
    by (auto simp: bind_result_Inr_iff)
  show ?thesis
    by (cases "py_get d ''scope''"; cases "py_get d ''records''") (simp_all add: validate_trace_def run)
qed

subsection \<open>Consequences of the rules\<close>

lemma rules_record: "trace_rules sc rs \<Longrightarrow> i < length rs \<Longrightarrow> record_rule sc (take i rs) (rs ! i)"
  by (simp add: trace_rules_def)

lemma record_rule_kinds:
  assumes "record_rule sc earlier r"
  shows "kind_is ''runtime_event'' r \<Longrightarrow> event_rule sc earlier r"
    and "kind_is ''checkpoint'' r \<Longrightarrow> py_get r ''run_id'' = sc_run_id sc"
    and "binds r \<Longrightarrow> in_scope sc r \<and> binding_rule sc earlier r"
    and "kind_is ''effect'' r \<Longrightarrow> effect_rule earlier"
    and "kind_is ''provider_evidence'' r \<Longrightarrow> in_scope sc r \<and> evidence_rule sc earlier r"
    and "kind_is ''reconciliation_completion'' r \<Longrightarrow> in_scope sc r \<and> completion_rule sc earlier r"
    and "identified r"
  using assms by (auto simp: record_rule_def record_rule_by_def kind_is_def binds_def)

lemma in_take: "j < i \<Longrightarrow> i \<le> length xs \<Longrightarrow> xs ! j \<in> set (take i xs)"
  by (auto simp: in_set_conv_nth)

lemma find_append_None: "find P xs = None \<Longrightarrow> find P (xs @ ys) = find P ys"
  by (induction xs) (auto split: if_splits)

lemma find_take: "find P (take i xs) = Some y \<Longrightarrow> find P xs = Some y"
  by (induction xs arbitrary: i) (auto simp: take_Cons' split: if_splits)

lemma binding_of_first:
  assumes rules: "trace_rules sc rs" and r: "i < length rs" "binds (rs ! i)"
    and f: "find binds rs = Some f"
  shows "text_of f ''tool'' = text_of (rs ! i) ''tool''"
    and "text_of f ''payload_sha256'' = text_of (rs ! i) ''payload_sha256''"
    and "fingerprint_of sc f = fingerprint_of sc (rs ! i)"
proof -
  have b: "binding_rule sc (take i rs) (rs ! i)"
    using record_rule_kinds(3) [OF rules_record [OF rules r(1)] r(2)] by simp
  have "text_of f ''tool'' = text_of (rs ! i) ''tool'' \<and> text_of f ''payload_sha256'' = text_of (rs ! i) ''payload_sha256''"
  proof (cases "find binds (take i rs)")
    case None
    have "find binds rs = find binds (take i rs @ rs ! i # drop (Suc i) rs)"
      using r(1) by (simp add: id_take_nth_drop [symmetric])
    also have "\<dots> = Some (rs ! i)"
      using None r(2) by (simp add: find_append_None)
    finally show ?thesis using f by simp
  next
    case (Some g)
    with find_take [OF Some] f b show ?thesis by (simp add: binding_rule_def)
  qed
  then show "text_of f ''tool'' = text_of (rs ! i) ''tool''"
    "text_of f ''payload_sha256'' = text_of (rs ! i) ''payload_sha256''"
    "fingerprint_of sc f = fingerprint_of sc (rs ! i)" by (simp_all add: fingerprint_of_def)
qed

lemma bindings_agree:
  assumes "trace_rules sc rs" "i < length rs" "binds (rs ! i)" "j < length rs" "binds (rs ! j)"
  shows "text_of (rs ! i) ''tool'' = text_of (rs ! j) ''tool''"
    and "text_of (rs ! i) ''payload_sha256'' = text_of (rs ! j) ''payload_sha256''"
    and "fingerprint_of sc (rs ! i) = fingerprint_of sc (rs ! j)"
proof -
  obtain f where "find binds rs = Some f"
    using assms(2,3) by (cases "find binds rs") (auto simp: find_None_iff)
  then show "text_of (rs ! i) ''tool'' = text_of (rs ! j) ''tool''"
    "text_of (rs ! i) ''payload_sha256'' = text_of (rs ! j) ''payload_sha256''"
    "fingerprint_of sc (rs ! i) = fingerprint_of sc (rs ! j)"
    using binding_of_first [OF assms(1-3)] binding_of_first [OF assms(1,4,5)] by metis+
qed

lemma bound_effect:
  assumes "trace_rules sc rs" "i < length rs" "binds (rs ! i)"
  shows "py_get (rs ! i) ''effect_sha256'' = PStr (fingerprint_of sc (rs ! i))"
  using record_rule_kinds(3) [OF rules_record [OF assms(1,2)] assms(3)] by (simp add: binding_rule_def)

lemma named_effect:
  assumes "trace_rules sc rs" "i < length rs" "names_effect sc (take i rs) (rs ! i)"
    and "j < i" "binds (rs ! j)"
  shows "py_get (rs ! i) ''effect_sha256'' = PStr (fingerprint_of sc (rs ! j))"
proof -
  have "rs ! j \<in> set (take i rs)" using assms(2,4) by (auto simp: in_set_conv_nth)
  then obtain f where f: "find binds (take i rs) = Some f"
    using assms(5) by (cases "find binds (take i rs)") (auto simp: find_None_iff)
  then have "py_get (rs ! i) ''effect_sha256'' = PStr (fingerprint_of sc f)"
    using assms(3) by (simp add: names_effect_def)
  moreover have "fingerprint_of sc f = fingerprint_of sc (rs ! j)"
    using binding_of_first(3) [OF assms(1) _ assms(5) find_take [OF f]] assms(2,4) by simp
  ultimately show ?thesis by simp
qed

text \<open>Accepted traces by position: the trace is a list of dicts that follows the rules.\<close>

lemma accepted_records:
  assumes "validate_trace d = Inr []" "py_get d ''records'' = PList vs"
  obtains s rs where "py_get d ''scope'' = PDict s" "vs = map PDict rs" "trace_rules (scope_of s) rs"
  using assms by (auto simp: accepted_iff)

subsection \<open>A concrete trace\<close>

text \<open>The shape of the first baseline trace: retry after absence, then reconcile.\<close>

definition sample_scope :: items where
  "sample_scope =
     [(''run_id'', PStr ''run-42''), (''turn_id'', PStr ''turn''),
      (''provider'', PStr ''p''), (''operation_id'', PStr ''op-17'')]"

definition sample_effect :: string where
  "sample_effect = effect_fingerprint ''p'' ''op-17'' ''record_note'' (sha256_text ''note'')"

definition sample_approval :: items where
  "sample_approval =
    [(''record_id'', PStr ''r1''), (''sequence'', PInt 1), (''kind'', PStr ''approval''),
     (''provider'', PStr ''p''), (''operation_id'', PStr ''op-17''), (''tool'', PStr ''record_note''),
     (''payload_sha256'', PStr (sha256_text ''note'')), (''effect_sha256'', PStr sample_effect),
     (''decision'', PStr ''approved'')]"

definition sample_root :: items where
  "sample_root =
    [(''record_id'', PStr ''r2''), (''sequence'', PInt 2), (''kind'', PStr ''checkpoint''),
     (''run_id'', PStr ''run-42''), (''checkpoint_id'', PStr ''cp-0''), (''parent_checkpoint_id'', PNone),
     (''checkpoint_sequence'', PInt 0), (''completed_count'', PInt 0),
     (''plan_sha256'', PStr (sha256_text ''plan''))]"

definition sample_write :: items where
  "sample_write =
    [(''record_id'', PStr ''r3''), (''sequence'', PInt 3), (''kind'', PStr ''effect''),
     (''provider'', PStr ''p''), (''operation_id'', PStr ''op-17''), (''tool'', PStr ''record_note''),
     (''payload_sha256'', PStr (sha256_text ''note'')), (''effect_sha256'', PStr sample_effect),
     (''idempotency_key'', PStr ''idem'')]"

definition sample_next :: items where
  "sample_next =
    [(''record_id'', PStr ''r4''), (''sequence'', PInt 5), (''kind'', PStr ''checkpoint''),
     (''run_id'', PStr ''run-42''), (''checkpoint_id'', PStr ''cp-1''), (''parent_checkpoint_id'', PStr ''cp-0''),
     (''checkpoint_sequence'', PInt 1), (''completed_count'', PInt 1),
     (''plan_sha256'', PStr (sha256_text ''plan''))]"

definition sample_evidence :: items where
  "sample_evidence =
    [(''record_id'', PStr ''r5''), (''sequence'', PInt 7), (''kind'', PStr ''provider_evidence''),
     (''provider'', PStr ''p''), (''operation_id'', PStr ''op-17''), (''evidence_id'', PStr ''ev-4''),
     (''revision'', PInt 4), (''readback'', PStr ''present''), (''effect_sha256'', PStr sample_effect)]"

definition sample_completion :: items where
  "sample_completion =
    [(''record_id'', PStr ''r6''), (''sequence'', PInt 8), (''kind'', PStr ''reconciliation_completion''),
     (''provider'', PStr ''p''), (''operation_id'', PStr ''op-17''), (''evidence_id'', PStr ''ev-4''),
     (''revision'', PInt 4), (''effect_sha256'', PStr sample_effect)]"

definition sample_records :: "items list" where
  "sample_records =
    [sample_approval, sample_root, sample_write, sample_next, sample_evidence, sample_completion]"

definition sample_trace :: items where
  "sample_trace = [(''trace_id'', PStr ''sample''), (''scope'', PDict sample_scope),
                   (''records'', PList (map PDict sample_records))]"

lemmas get_of = arg_cong [of _ _ py_get, THEN fun_cong]
lemmas sample_defs = get_of [OF sample_approval_def] get_of [OF sample_root_def]
  get_of [OF sample_write_def] get_of [OF sample_next_def] get_of [OF sample_evidence_def]
  get_of [OF sample_completion_def] py_get_Cons

lemma sample_scope_values: "scope_of sample_scope = \<lparr>sc_run_id = PStr ''run-42'', sc_turn_id = PStr ''turn'',
     sc_provider = PStr ''p'', sc_operation_id = PStr ''op-17''\<rparr>"
  by (simp add: scope_of_def sample_scope_def py_get_def)

lemma sample_kinds [simp]:
  "kind_is k sample_approval \<longleftrightarrow> k = ''approval''" "kind_is k sample_root \<longleftrightarrow> k = ''checkpoint''"
  "kind_is k sample_write \<longleftrightarrow> k = ''effect''" "kind_is k sample_next \<longleftrightarrow> k = ''checkpoint''"
  "kind_is k sample_evidence \<longleftrightarrow> k = ''provider_evidence''"
  "kind_is k sample_completion \<longleftrightarrow> k = ''reconciliation_completion''"
  by (auto simp: sample_defs kind_is_def)

lemma sample_decisions [simp]:
  "decided d sample_approval \<longleftrightarrow> d = ''approved''" "\<not> decided d sample_root" "\<not> decided d sample_write"
  "\<not> decided d sample_next" "\<not> decided d sample_evidence" "\<not> decided d sample_completion"
  by (auto simp: decided_def) (simp_all add: sample_defs)

lemma sample_binds [simp]:
  "binds sample_approval" "\<not> binds sample_root" "binds sample_write" "\<not> binds sample_next"
  "\<not> binds sample_evidence" "\<not> binds sample_completion"
  by (simp_all add: binds_def)

lemma sample_identified:
  "identified sample_approval" "identified sample_root" "identified sample_write"
  "identified sample_next" "identified sample_evidence" "identified sample_completion"
  by (simp_all add: identified_def not_int_from_def not_text_def sample_defs)

lemma sample_fingerprint:
  "fingerprint_of (scope_of sample_scope) sample_approval = sample_effect"
  "fingerprint_of (scope_of sample_scope) sample_write = sample_effect"
  by (simp_all add: sample_scope_values fingerprint_of_def text_of_def sample_defs sample_effect_def)

lemma sample_in_scope:
  "in_scope (scope_of sample_scope) sample_approval" "in_scope (scope_of sample_scope) sample_write"
  "in_scope (scope_of sample_scope) sample_evidence" "in_scope (scope_of sample_scope) sample_completion"
  by (simp_all add: sample_scope_values in_scope_def sample_defs)

lemma sample_bindings:
  "binding_rule (scope_of sample_scope) [] sample_approval"
  "binding_rule (scope_of sample_scope) [sample_approval, sample_root] sample_write"
  unfolding binding_rule_def sample_fingerprint
  by (simp_all add: sample_defs not_text_def text_of_def)

lemma sample_evidence_rules:
  "evidence_rule (scope_of sample_scope) [sample_approval, sample_root, sample_write, sample_next] sample_evidence"
  "completion_rule (scope_of sample_scope)
     [sample_approval, sample_root, sample_write, sample_next, sample_evidence] sample_completion"
  by (simp_all add: evidence_rule_def completion_rule_def names_effect_def sample_fingerprint)
    (simp_all add: sample_defs not_text_def text_of_def not_int_from_def readback_states_def revision_of_def)

lemma sample_rules: "trace_rules (scope_of sample_scope) sample_records"
proof -
  have "\<forall>i < length sample_records. record_rule (scope_of sample_scope) (take i sample_records) (sample_records ! i)"
    using sample_identified sample_in_scope sample_bindings sample_evidence_rules
    by (simp add: sample_records_def All_less_Suc2 record_rule_def record_rule_by_def effect_rule_def)
      (simp add: sample_defs sample_scope_values decisions_def)
  moreover have "chain_rule (of_kind ''checkpoint'' sample_records)"
    by (simp add: sample_records_def chain_rule_def checkpoint_ok_def root_checkpoint_def linked_def)
      (simp add: sample_defs count_of_def not_text_def)
  moreover have "sorted_wrt (<) (map sequence_of sample_records)"
    "distinct (map (\<lambda>r. text_of r ''record_id'') sample_records)"
    by (simp_all add: sample_records_def sequence_of_def text_of_def sample_defs)
  ultimately show ?thesis
    by (simp add: trace_rules_def scope_ok_def sample_scope_values not_text_def)
qed

lemma sample_accepted: "validate_trace sample_trace = Inr []"
  unfolding accepted_iff
  by (intro exI [of _ sample_scope] exI [of _ sample_records])
    (simp add: sample_trace_def py_get_Cons sample_rules)

subsection \<open>Properties of accepted traces\<close>

text \<open>
  C2: \<open>validate_trace\<close> reports no violation exactly when the trace follows the schema's cross-record
  rules, read as a predicate on the list of its records: scope and identities, event identity,
  approval and effect binding, prior approval without denial, one checkpoint chain, ordered provider
  evidence, and one completion backed by the latest evidence.
\<close>

theorem accepted_trace_follows_rules:
  "validate_trace d = Inr [] \<longleftrightarrow>
     (\<exists>s rs. py_get d ''scope'' = PDict s \<and> py_get d ''records'' = PList (map PDict rs) \<and>
        trace_rules (scope_of s) rs)"
  by (rule accepted_iff)

text \<open>
  C3: In an accepted trace every effect has an earlier approval, in the scope's operation, of exactly
  its tool and payload; both carry the fingerprint of that operation; and no denial precedes it.
\<close>

theorem accepted_effects_were_approved:
  assumes "validate_trace d = Inr []" and records: "py_get d ''records'' = PList vs"
    and i: "i < length vs" and v: "vs ! i = PDict r" and k: "kind_is ''effect'' r"
  shows "\<exists>s. py_get d ''scope'' = PDict s \<and> in_scope (scope_of s) r \<and>
    py_get r ''effect_sha256'' = PStr (fingerprint_of (scope_of s) r) \<and>
    (\<exists>j < i. \<exists>a. vs ! j = PDict a \<and> decided ''approved'' a \<and> in_scope (scope_of s) a \<and>
       text_of a ''tool'' = text_of r ''tool'' \<and>
       text_of a ''payload_sha256'' = text_of r ''payload_sha256'' \<and>
       py_get a ''effect_sha256'' = py_get r ''effect_sha256'') \<and>
    (\<forall>j < i. \<forall>a. vs ! j = PDict a \<longrightarrow> \<not> decided ''denied'' a)"
proof -
  from assms(1) records obtain s rs where s: "py_get d ''scope'' = PDict s" and vs: "vs = map PDict rs"
    and rules: "trace_rules (scope_of s) rs" by (rule accepted_records)
  have il: "i < length rs" and r: "rs ! i = r" using i v vs by simp_all
  have b: "binds (rs ! i)" using k r by (simp add: binds_def)
  note at_i = record_rule_kinds [OF rules_record [OF rules il]]
  obtain a where "a \<in> set (take i rs)" "decided ''approved'' a" and
    denied: "\<forall>a \<in> set (take i rs). \<not> decided ''denied'' a"
    using at_i(4) k r by (auto simp: effect_rule_def)
  then obtain j where j: "j < i" "j < length rs" "rs ! j = a"
    using il by (auto simp: in_set_conv_nth)
  have bj: "binds (rs ! j)" using \<open>decided ''approved'' a\<close> j(3) by (simp add: decided_def binds_def)
  have "\<not> decided ''denied'' (rs ! j')" if "j' < i" for j'
    using denied in_take [OF that, of rs] il by auto
  moreover have "in_scope (scope_of s) (rs ! j)"
    using record_rule_kinds(3) [OF rules_record [OF rules j(2)] bj] by simp
  ultimately show ?thesis
    using s vs r il j \<open>decided ''approved'' a\<close> at_i(3) [OF b] bindings_agree [OF rules j(2) bj il b]
      bound_effect [OF rules il b] bound_effect [OF rules j(2) bj]
    by (intro exI [of _ s]) (auto intro!: exI [of _ j])
qed

theorem accepted_effects_were_approved_witness:
  "\<exists>a. map PDict sample_records ! 0 = PDict a \<and> decided ''approved'' a"
proof -
  have "py_get sample_trace ''records'' = PList (map PDict sample_records)"
    by (simp add: sample_trace_def py_get_Cons)
  from accepted_effects_were_approved [OF sample_accepted this, of 2 sample_write]
  obtain j where "j < (2 :: nat)" "\<exists>a. map PDict sample_records ! j = PDict a \<and> decided ''approved'' a"
    by (auto simp: sample_records_def)
  then show ?thesis by (auto simp: sample_records_def less_Suc_eq numeral_2_eq_2)
qed

text \<open>
  C11: An accepted trace has at most one completion. It rests on an earlier readback of the same
  evidence id, which found the effect present, at the revision the completion names, the latest
  observed so far; and its effect is the fingerprint of every approval or effect before it.
\<close>

theorem accepted_completion_is_backed:
  assumes "validate_trace d = Inr []" and records: "py_get d ''records'' = PList vs"
    and i: "i < length vs" and v: "vs ! i = PDict r" and k: "kind_is ''reconciliation_completion'' r"
  shows "(\<exists>j < i. \<exists>e. vs ! j = PDict e \<and> kind_is ''provider_evidence'' e \<and>
       py_get e ''evidence_id'' = py_get r ''evidence_id'' \<and> py_get e ''readback'' = PStr ''present'' \<and>
       py_eq (py_get e ''revision'') (py_get r ''revision'') \<and>
       py_eq (py_get e ''effect_sha256'') (py_get r ''effect_sha256'') \<and>
       (\<forall>j' < i. \<forall>e'. vs ! j' = PDict e' \<longrightarrow> kind_is ''provider_evidence'' e' \<longrightarrow>
          revision_of e' \<le> revision_of e)) \<and>
    (\<forall>j < i. \<forall>a. vs ! j = PDict a \<longrightarrow> binds a \<longrightarrow>
       (\<exists>s. py_get d ''scope'' = PDict s \<and>
         py_get r ''effect_sha256'' = PStr (fingerprint_of (scope_of s) a))) \<and>
    (\<forall>j < length vs. j \<noteq> i \<longrightarrow> (\<forall>c. vs ! j = PDict c \<longrightarrow> \<not> kind_is ''reconciliation_completion'' c))"
proof -
  from assms(1) records obtain s rs where s: "py_get d ''scope'' = PDict s" and vs: "vs = map PDict rs"
    and rules: "trace_rules (scope_of s) rs" by (rule accepted_records)
  have il: "i < length rs" and r: "rs ! i = r" using i v vs by simp_all
  have completion: "completion_rule (scope_of s) (take i rs) (rs ! i)"
    if "i < length rs" "kind_is ''reconciliation_completion'' (rs ! i)" for i
    using record_rule_kinds(6) [OF rules_record [OF rules that(1)] that(2)] by simp
  have c: "completion_rule (scope_of s) (take i rs) (rs ! i)"
    using completion [OF il] k r by simp
  have alone: "\<not> kind_is ''reconciliation_completion'' (rs ! j)" if "j < i'" "i' < length rs"
    "kind_is ''reconciliation_completion'' (rs ! i')" for j i'
  proof -
    have "rs ! j \<in> set (take i' rs)" using that by (simp add: in_take)
    then show ?thesis using completion [OF that(2,3)] by (auto simp: completion_rule_def filter_empty_conv)
  qed
  have "\<not> kind_is ''reconciliation_completion'' (rs ! j)" if "j < length rs" "j \<noteq> i" for j
    using alone [of j i] alone [of i j] that il k r by (cases "j < i") auto
  moreover have "py_get (rs ! i) ''effect_sha256'' = PStr (fingerprint_of (scope_of s) (rs ! j))"
    if "j < i" "binds (rs ! j)" for j
    using named_effect [OF rules il _ that] c by (simp add: completion_rule_def)
  moreover obtain e where e: "e \<in> set (take i rs)" "kind_is ''provider_evidence'' e"
    "py_get (rs ! i) ''evidence_id'' = py_get e ''evidence_id''" "py_get e ''readback'' = PStr ''present''"
    "py_eq (py_get e ''revision'') (py_get (rs ! i) ''revision'')"
    "py_eq (py_get e ''effect_sha256'') (py_get (rs ! i) ''effect_sha256'')"
    and latest: "\<forall>e' \<in> set (take i rs). kind_is ''provider_evidence'' e' \<longrightarrow> revision_of e' \<le> revision_of e"
    using c by (auto simp: completion_rule_def)
  moreover obtain j where j: "j < i" "rs ! j = e" using e(1) il by (auto simp: in_set_conv_nth)
  moreover have "revision_of (rs ! j') \<le> revision_of e" if "j' < i" "kind_is ''provider_evidence'' (rs ! j')" for j'
    using latest in_take [OF that(1), of rs] that(2) il by auto
  ultimately show ?thesis using s vs r il by (auto intro!: exI [of _ j])
qed

theorem accepted_completion_is_backed_witness:
  "map PDict sample_records ! 4 = PDict sample_evidence \<and>
   \<not> kind_is ''reconciliation_completion'' sample_evidence"
proof -
  have "py_get sample_trace ''records'' = PList (map PDict sample_records)"
    by (simp add: sample_trace_def py_get_Cons)
  moreover have "5 < length (map PDict sample_records)"
    "map PDict sample_records ! 5 = PDict sample_completion"
    "kind_is ''reconciliation_completion'' sample_completion"
    by (simp_all add: sample_records_def)
  ultimately have "\<forall>j < length (map PDict sample_records). j \<noteq> 5 \<longrightarrow>
      (\<forall>c. map PDict sample_records ! j = PDict c \<longrightarrow> \<not> kind_is ''reconciliation_completion'' c)"
    using accepted_completion_is_backed [OF sample_accepted] by blast
  from this [rule_format, of 4 sample_evidence] show ?thesis
    by (simp add: sample_records_def)
qed

lemma chain_position:
  "chain_rule (xs @ cp # ys) \<Longrightarrow>
     as_int (py_get cp ''checkpoint_sequence'') = Some (int (length xs)) \<and>
     py_get cp ''parent_checkpoint_id'' = (if xs = [] then PNone else py_get (last xs) ''checkpoint_id'') \<and>
     (xs \<noteq> [] \<longrightarrow> py_get cp ''plan_sha256'' = py_get (last xs) ''plan_sha256'' \<and>
        count_of (last xs) ''completed_count'' \<le> count_of cp ''completed_count'')"
proof (induction xs arbitrary: cp ys rule: rev_induct)
  case Nil
  then show ?case by (auto simp: chain_rule_def root_checkpoint_def count_of_def checkpoint_ok_def)
next
  case (snoc x xs)
  have "as_int (py_get x ''checkpoint_sequence'') = Some (int (length xs))"
    using snoc.IH [of x "cp # ys"] snoc.prems by simp
  moreover have "linked x cp" "checkpoint_ok cp"
    using snoc.prems by (auto simp: chain_rule_def successively_append_iff)
  ultimately show ?case
    by (auto simp: linked_def count_of_def checkpoint_ok_def)
qed

lemma chain_progress:
  assumes "chain_rule cps" "k < length cps"
  shows "py_get (cps ! k) ''plan_sha256'' = py_get (cps ! 0) ''plan_sha256'' \<and>
    (\<forall>j \<le> k. count_of (cps ! j) ''completed_count'' \<le> count_of (cps ! k) ''completed_count'')"
  using assms(2)
proof (induction k)
  case 0
  then show ?case by simp
next
  case (Suc k)
  have "chain_rule (take (Suc k) cps @ cps ! Suc k # drop (Suc (Suc k)) cps)"
    using assms(1) Suc.prems by (simp add: id_take_nth_drop [symmetric])
  moreover have "last (take (Suc k) cps) = cps ! k" "take (Suc k) cps \<noteq> []"
    using Suc.prems by (auto simp: take_Suc_conv_app_nth)
  ultimately have "py_get (cps ! Suc k) ''plan_sha256'' = py_get (cps ! k) ''plan_sha256''"
    "count_of (cps ! k) ''completed_count'' \<le> count_of (cps ! Suc k) ''completed_count''"
    using chain_position by fastforce+
  with Suc.IH Suc.prems show ?case by (auto simp: le_Suc_eq)
qed

text \<open>
  C24: The checkpoints of an accepted trace are one chain: the k-th has sequence number k and the run
  of the scope, names the one before it as parent (the first names none), and has the plan of the
  first; and progress never decreases along the trace.
\<close>

theorem accepted_checkpoints_form_chain:
  assumes "validate_trace d = Inr []" and records: "py_get d ''records'' = PList vs"
    and cps: "cps = of_kind ''checkpoint'' (map dict_of vs)" and k: "k < length cps"
  shows "as_int (py_get (cps ! k) ''checkpoint_sequence'') = Some (int k) \<and>
    (\<exists>s. py_get d ''scope'' = PDict s \<and> py_get (cps ! k) ''run_id'' = py_get s ''run_id'') \<and>
    py_get (cps ! k) ''parent_checkpoint_id'' =
      (if k = 0 then PNone else py_get (cps ! (k - 1)) ''checkpoint_id'') \<and>
    py_get (cps ! k) ''plan_sha256'' = py_get (cps ! 0) ''plan_sha256'' \<and>
    (\<forall>j \<le> k. count_of (cps ! j) ''completed_count'' \<le> count_of (cps ! k) ''completed_count'')"
proof -
  from assms(1) records obtain s rs where s: "py_get d ''scope'' = PDict s" and vs: "vs = map PDict rs"
    and rules: "trace_rules (scope_of s) rs" by (rule accepted_records)
  have cps': "cps = of_kind ''checkpoint'' rs" by (simp add: cps vs comp_def dict_of_def)
  then have chain: "chain_rule cps" using rules by (simp add: trace_rules_def)
  have "chain_rule (take k cps @ cps ! k # drop (Suc k) cps)"
    using chain k by (simp add: id_take_nth_drop [symmetric])
  note position = chain_position [OF this]
  have "last (take k cps) = cps ! (k - 1)" if "k \<noteq> 0"
    using k that by (cases k) (auto simp: take_Suc_conv_app_nth)
  moreover have "cps ! k \<in> set rs \<and> kind_is ''checkpoint'' (cps ! k)"
    using nth_mem [OF k] by (simp add: cps')
  then obtain i where "i < length rs" "rs ! i = cps ! k" "kind_is ''checkpoint'' (rs ! i)"
    by (metis in_set_conv_nth)
  then have "py_get (cps ! k) ''run_id'' = py_get s ''run_id''"
    using record_rule_kinds(2) [OF rules_record [OF rules], of i] by (simp add: scope_of_def)
  ultimately show ?thesis
    using position chain_progress [OF chain k] s k by auto
qed

theorem accepted_checkpoints_form_chain_witness:
  "py_get sample_next ''parent_checkpoint_id'' = py_get sample_root ''checkpoint_id''"
proof -
  have records: "py_get sample_trace ''records'' = PList (map PDict sample_records)"
    by (simp add: sample_trace_def py_get_Cons)
  have cps: "[sample_root, sample_next] = of_kind ''checkpoint'' (map dict_of (map PDict sample_records))"
    by (simp add: sample_records_def dict_of_def)
  from accepted_checkpoints_form_chain [OF sample_accepted records cps, of 1]
  show ?thesis by simp
qed

subsection \<open>Outcomes of the validator\<close>

definition hashable_fields :: "items \<Rightarrow> bool" where
  "hashable_fields r \<longleftrightarrow>
     hashable (py_get r ''kind'') \<and>
     (kind_is ''runtime_event'' r \<longrightarrow> hashable (py_get r ''event_kind'')) \<and>
     (kind_is ''approval'' r \<longrightarrow> hashable (py_get r ''decision'')) \<and>
     (kind_is ''provider_evidence'' r \<longrightarrow> hashable (py_get r ''readback''))"

lemma member_of_outcome:
  "returns (bind_result (member_of v names) f) \<longleftrightarrow>
     hashable v \<and> returns (f (is_str v \<and> str_of v \<in> set names))"
  "raises c (bind_result (member_of v names) f) \<longleftrightarrow>
     (if hashable v then raises c (f (is_str v \<and> str_of v \<in> set names)) else c = TypeError)"
  by (auto simp: member_of_def)

lemma record_kinds_str: "is_str v \<and> str_of v \<in> set record_kinds \<longleftrightarrow> v \<in> PStr ` set record_kinds"
  by (cases v) auto

lemma check_record_returns:
  "returns (check_record sc st (i, v)) \<longleftrightarrow> (case as_items v of None \<Rightarrow> True | Some r \<Rightarrow> hashable_fields r)"
proof (cases "as_items v")
  case None
  then show ?thesis by (simp add: check_record_def)
next
  case (Some r)
  have "returns (check_by_kind sc r st') \<longleftrightarrow>
      (kind_is ''runtime_event'' r \<longrightarrow> hashable (py_get r ''event_kind'')) \<and>
      (kind_is ''approval'' r \<longrightarrow> hashable (py_get r ''decision'')) \<and>
      (kind_is ''provider_evidence'' r \<longrightarrow> hashable (py_get r ''readback''))" for st'
    by (simp add: check_by_kind_def Let_def kind_is_def check_runtime_event_def check_approval_def
        check_evidence_def member_of_outcome)
  moreover have "kind_is k r \<Longrightarrow> k \<in> set record_kinds \<Longrightarrow> py_get r ''kind'' \<in> PStr ` set record_kinds" for k
    by (simp add: kind_is_def)
  moreover have "{''runtime_event'', ''approval'', ''provider_evidence''} \<subseteq> set record_kinds"
    by (simp add: record_kinds_def)
  ultimately show ?thesis
    using Some by (auto simp: check_record_def Let_def member_of_outcome record_kinds_str hashable_fields_def)
qed

lemma check_record_raises:
  "raises c (check_record sc st (i, v)) \<Longrightarrow> c = TypeError"
  by (auto simp: check_record_def check_by_kind_def Let_def check_runtime_event_def check_approval_def
      check_evidence_def member_of_outcome split: option.splits if_splits)

lemma run_records_outcome:
  "returns (run_steps (check_record sc) st (enumerate n vs)) \<longleftrightarrow> (\<forall>r. PDict r \<in> set vs \<longrightarrow> hashable_fields r)"
  "raises c (run_steps (check_record sc) st (enumerate n vs)) \<Longrightarrow> c = TypeError"
proof (induction vs arbitrary: n st)
  case (Cons v vs)
  {
    case 1
    have "(case as_items v of None \<Rightarrow> True | Some r \<Rightarrow> hashable_fields r) \<longleftrightarrow>
        (\<forall>r. v = PDict r \<longrightarrow> hashable_fields r)" by (cases v) auto
    with Cons.IH(1) check_record_returns [of sc st n v] show ?case
      by (cases "check_record sc st (n, v)") auto
  next
    case 2
    with Cons.IH(2) check_record_raises [of c sc st n v] show ?case
      by (cases "check_record sc st (n, v)") auto
  }
qed simp_all

lemma validate_trace_cases:
  obtains (early) w where "validate_trace d = Inr [w]"
      "\<not> (\<exists>s vs. py_get d ''scope'' = PDict s \<and> py_get d ''records'' = PList vs)"
  | (run) s vs where "py_get d ''scope'' = PDict s" "py_get d ''records'' = PList vs"
      "validate_trace d = bind_result (check_records (scope_of s) vs)
         (\<lambda>st. Inr (sort (remdups (check_totals st))))"
proof (cases "as_items (py_get d ''scope'')")
  case None
  then have "\<not> (\<exists>s. py_get d ''scope'' = PDict s)" by auto
  with None show ?thesis using early [of "''scope_missing_or_invalid''"] by (simp add: validate_trace_def)
next
  case (Some s)
  then have s: "py_get d ''scope'' = PDict s" by (cases "py_get d ''scope''") auto
  show ?thesis
  proof (cases "as_list (py_get d ''records'')")
    case None
    then have "\<not> (\<exists>vs. py_get d ''records'' = PList vs)" by auto
    with None s show ?thesis using early [of "''records_missing_or_invalid''"] by (simp add: validate_trace_def)
  next
    case (Some vs)
    then have "py_get d ''records'' = PList vs" by (cases "py_get d ''records''") auto
    with s show ?thesis using run by (simp add: validate_trace_def)
  qed
qed

lemma validate_trace_outcomes:
  "(returns (validate_trace d) \<longleftrightarrow>
      (\<forall>s vs r. py_get d ''scope'' = PDict s \<and> py_get d ''records'' = PList vs \<and> PDict r \<in> set vs \<longrightarrow>
         hashable_fields r)) \<and>
   (\<not> returns (validate_trace d) \<longrightarrow> raises TypeError (validate_trace d)) \<and>
   (\<forall>vs. validate_trace d = Inr vs \<longrightarrow> sorted vs \<and> distinct vs)"
proof (cases d rule: validate_trace_cases)
  case (early w)
  then show ?thesis by auto
next
  case (run s vs)
  show ?thesis
  proof (cases "check_records (scope_of s) vs")
    case (Inl e)
    have "\<not> (\<forall>r. PDict r \<in> set vs \<longrightarrow> hashable_fields r)"
      using run_records_outcome(1) [of "scope_of s" "check_scope (scope_of s)" 0 vs] Inl
      by (simp add: check_records_def)
    moreover have "raises TypeError (check_records (scope_of s) vs)"
      using run_records_outcome(2) [of "fst e" "scope_of s" "check_scope (scope_of s)" 0 vs] Inl
      by (cases e) (simp add: check_records_def)
    ultimately show ?thesis using run Inl by (cases e) simp
  next
    case (Inr st)
    have "\<forall>r. PDict r \<in> set vs \<longrightarrow> hashable_fields r"
      using run_records_outcome(1) [of "scope_of s" "check_scope (scope_of s)" 0 vs] Inr
      by (simp add: check_records_def)
    then show ?thesis using run Inr by simp
  qed
qed

text \<open>
  C26: \<open>validate_trace\<close> returns exactly when the closed-vocabulary fields of every record can be
  hashed; on a list or dict in such a field it raises \<open>TypeError\<close>, and it raises nothing else. What
  it returns is sorted and without repetitions.
\<close>

theorem validate_trace_outcome:
  "(returns (validate_trace d) \<longleftrightarrow>
      (\<forall>s vs r. py_get d ''scope'' = PDict s \<and> py_get d ''records'' = PList vs \<and> PDict r \<in> set vs \<longrightarrow>
         hashable_fields r)) \<and>
   (\<not> returns (validate_trace d) \<longrightarrow> raises TypeError (validate_trace d)) \<and>
   (\<forall>vs. validate_trace d = Inr vs \<longrightarrow> sorted vs \<and> distinct vs)"
  by (rule validate_trace_outcomes)

definition unhashable_trace :: items where
  "unhashable_trace = [(''scope'', PDict sample_scope), (''records'', PList [PDict [(''kind'', PList [])]])]"

theorem validate_trace_outcome_witness: "raises TypeError (validate_trace unhashable_trace)"
proof -
  have "py_get unhashable_trace ''scope'' = PDict sample_scope"
    "py_get unhashable_trace ''records'' = PList [PDict [(''kind'', PList [])]]"
    by (simp_all add: unhashable_trace_def py_get_Cons)
  moreover have "\<not> hashable_fields [(''kind'', PList [])]" by (simp add: hashable_fields_def py_get_Cons)
  ultimately show ?thesis using validate_trace_outcome [of unhashable_trace] by auto
qed

text \<open>
  C34: The digest check accepts every SHA-256 digest that \<open>hashlib\<close> prints, but also text that is the
  digest of nothing: the prefix \<open>0x\<close> with 62 digits.
\<close>

theorem digest_check_is_lax:
  assumes "length h = 62" "set h \<subseteq> hex_digit ` {..<16}"
  shows "is_sha256 (PStr (sha256_text t)) \<and> is_sha256 (PStr (''0x'' @ h)) \<and> sha256_text t \<noteq> ''0x'' @ h"
proof -
  have "CHR ''x'' \<notin> set (sha256_text t)"
    using set_sha256_hex [of "encode t"] hex_digit_char(5) [of "CHR ''x''"]
    unfolding sha256_text_def by blast
  then have "sha256_text t \<noteq> ''0x'' @ h" by auto
  with is_sha256_prefixed [OF assms] show ?thesis by simp
qed

theorem digest_check_is_lax_witness: "is_sha256 (PStr (''0x'' @ replicate 62 (hex_digit 7)))"
  using digest_check_is_lax [of "replicate 62 (hex_digit 7)"] by auto

end
