(* ===== verification/TraceMutations.thy ===== *)
theory TraceMutations
  imports TraceSpec
begin

section \<open>Mutations and what the detector says of them\<close>

text \<open>
  \<open>apply_mutation\<close> yields a well-formed document or one of four exceptions, replacing is undone by
  replacing back, and a change of a protected field of an accepted trace is always detected. Then
  the metrics of a corpus.
\<close>

subsection \<open>Pointers\<close>

lemma split_on_plain: "sep \<notin> set xs \<Longrightarrow> split_on sep xs = [xs]"
  by (induction xs) auto

lemma split_on_append: "sep \<notin> set xs \<Longrightarrow> split_on sep (xs @ sep # ys) = xs # split_on sep ys"
  by (induction xs) auto

lemma replace_pair_plain: "a \<notin> set s \<Longrightarrow> replace_pair a b c s = s"
  by (induction a b c s rule: replace_pair.induct) auto

definition plain :: "string \<Rightarrow> bool" where
  "plain s \<longleftrightarrow> CHR ''/'' \<notin> set s \<and> CHR ''~'' \<notin> set s"

definition pointer_to :: "string list \<Rightarrow> string" where
  "pointer_to tokens = concat (map (\<lambda>t. CHR ''/'' # t) tokens)"

lemma split_pointer:
  "list_all plain (t # ts) \<Longrightarrow> split_on (CHR ''/'') (tl (pointer_to (t # ts))) = t # ts"
proof (induction ts arbitrary: t)
  case Nil
  then show ?case by (simp add: pointer_to_def plain_def split_on_plain)
next
  case (Cons u us)
  have "tl (pointer_to (t # u # us)) = t @ CHR ''/'' # tl (pointer_to (u # us))"
    by (simp add: pointer_to_def)
  with Cons show ?case by (simp add: plain_def split_on_append)
qed

lemma pointer_tokens_to:
  assumes "list_all plain (t # ts)" "t # ts \<noteq> [[]]"
  shows "pointer_tokens (pointer_to (t # ts)) = Inr (t # ts)"
proof -
  have "pointer_to (t # ts) \<noteq> []" "hd (pointer_to (t # ts)) = CHR ''/''"
    by (simp_all add: pointer_to_def)
  moreover have "map (\<lambda>token. replace_pair (CHR ''~'') (CHR ''0'') (CHR ''~'')
      (replace_pair (CHR ''~'') (CHR ''1'') (CHR ''/'') token)) (t # ts) = t # ts"
    using assms(1) by (intro map_idI) (auto simp: list_all_iff plain_def replace_pair_plain)
  ultimately show ?thesis
    using assms by (simp only: pointer_tokens_def split_pointer [OF assms(1)] Let_def) simp
qed

text \<open>Decimal text parses back.\<close>

lemma digit_char: "k < (10 :: nat) \<Longrightarrow> digit_value (char_of (48 + k)) = k"
  by (simp add: digit_value_def of_char_of)

lemma show_nat_chars: "c \<in> set (show_nat n) \<Longrightarrow> \<exists>k < (10 :: nat). c = char_of (48 + k)"
proof (induction n rule: show_nat.induct)
  case (1 n)
  show ?case
  proof (cases "n < 10")
    case True
    with 1(2) show ?thesis by (subst (asm) show_nat.simps) auto
  next
    case False
    with 1(2) have "c \<in> set (show_nat (n div 10)) \<or> c = char_of (48 + n mod 10)"
      by (subst (asm) show_nat.simps) auto
    with 1(1) [OF False] show ?thesis by (auto intro: exI [of _ "n mod 10"])
  qed
qed

lemma show_nat_value: "foldl (\<lambda>a c. 10 * a + digit_value c) 0 (show_nat n) = n"
proof (induction n rule: show_nat.induct)
  case (1 n)
  then show ?case by (subst show_nat.simps) (simp add: digit_char)
qed

lemma show_nat_nonempty: "show_nat n \<noteq> []"
  by (subst show_nat.simps) simp

lemma decimal_char:
  assumes "c \<in> set (show_nat n)"
  shows "is_digit 10 c" "c \<noteq> CHR ''_''" "\<not> int_space c" "c \<noteq> CHR ''-''" "c \<noteq> CHR ''+''"
    "c \<noteq> CHR ''/''" "c \<noteq> CHR ''~''"
proof -
  have "48 \<le> (of_char c :: nat) \<and> of_char c \<le> (57 :: nat)"
    using show_nat_chars [OF assms] by (auto simp: of_char_of)
  then show "is_digit 10 c" "c \<noteq> CHR ''_''" "\<not> int_space c" "c \<noteq> CHR ''-''" "c \<noteq> CHR ''+''"
    "c \<noteq> CHR ''/''" "c \<noteq> CHR ''~''"
    by (auto simp: is_digit_def digit_value_def int_space_def Let_def)
qed

lemma plain_show_nat: "plain (show_nat n)"
  using decimal_char(6,7) by (auto simp: plain_def)

lemma py_int_show_nat:
  assumes "length (show_nat n) \<le> 4300"
  shows "py_int (show_nat n) = Inr (int n)"
proof -
  note first = hd_in_set [OF show_nat_nonempty [of n]]
  have "parse_int 10 (show_nat n) = Some (int (foldl (\<lambda>a c. 10 * a + digit_value c) 0 (show_nat n)))"
    using decimal_char(1,2) decimal_char(3-5) [OF first] assms
    by (intro parse_plain show_nat_nonempty) (auto simp: drop_prefix_def)
  then show ?thesis by (simp add: py_int_def show_nat_value)
qed

lemma list_index_nat: "i < length xs \<Longrightarrow> list_index xs (int i) = Some i"
  by (simp add: list_index_def)

subsection \<open>Shape of the result\<close>

text \<open>The exceptions that \<open>verify_protocol.py\<close> expects of a mutation.\<close>

definition mutation_error :: "exn_class \<Rightarrow> bool" where
  "mutation_error c \<longleftrightarrow> c \<in> {KeyError, TypeError, ValueError, IndexError}"

lemma wf_set_item: "wf_items d \<Longrightarrow> wf_doc v \<Longrightarrow> wf_items (set_item k v d)"
  by (auto simp: wf_items_iff set_item_def)

lemma wf_del_item: "wf_items d \<Longrightarrow> wf_items (del_item k d)"
  by (auto simp: wf_items_iff del_item_def)

lemma distinct_del_item: "distinct (map fst d) \<Longrightarrow> distinct (map fst (del_item k d))"
  unfolding del_item_def by (rule distinct_map_filter)

lemma wf_list_update: "wf_list xs \<Longrightarrow> wf_doc v \<Longrightarrow> wf_list (xs[j := v])"
  by (auto simp: wf_list_iff dest!: set_update_subset_insert [THEN subsetD])

definition keeps_wf :: "(pyval \<Rightarrow> pyval result) \<Rightarrow> bool" where
  "keeps_wf change \<longleftrightarrow> (\<forall>v w. wf_doc v \<longrightarrow> change v = Inr w \<longrightarrow> wf_doc w)"

definition is_dict :: "pyval \<Rightarrow> bool" where
  "is_dict v \<longleftrightarrow> as_items v \<noteq> None"

definition expected_errors :: "(pyval \<Rightarrow> pyval result) \<Rightarrow> bool" where
  "expected_errors change \<longleftrightarrow> (\<forall>v c. raises c (change v) \<longrightarrow> mutation_error c)"

definition keeps_dict :: "(pyval \<Rightarrow> pyval result) \<Rightarrow> bool" where
  "keeps_dict change \<longleftrightarrow> (\<forall>v w. is_dict v \<longrightarrow> change v = Inr w \<longrightarrow> is_dict w)"

lemma py_int_raises: "raises c (bind_result (py_int t) f) \<Longrightarrow>
    c = ValueError \<or> (\<exists>i. py_int t = Inr i \<and> raises c (f i))"
  by (auto simp: py_int_def split: option.splits)

lemma at_parent_wf: "keeps_wf change \<Longrightarrow> keeps_wf (at_parent ts change)"
proof (induction ts)
  case Nil
  then show ?case by (simp add: keeps_wf_def)
next
  case (Cons t ts)
  note IH = Cons.IH [OF Cons.prems, unfolded keeps_wf_def, rule_format]
  show ?case unfolding keeps_wf_def
  proof (intro allI impI)
    fix v w assume v: "wf_doc v" and w: "at_parent (t # ts) change v = Inr w"
    then show "wf_doc w"
    proof (cases v)
      case (PList xs)
      with w obtain i j x where "list_index xs i = Some j" "at_parent ts change (xs ! j) = Inr x"
        "w = PList (xs[j := x])" by (auto simp: bind_result_Inr_iff split: option.splits)
      moreover have "wf_doc (xs ! j)" using v PList list_index_Some [OF calculation(1)]
        by (simp add: wf_list_iff)
      ultimately show ?thesis using v PList IH wf_list_update by simp
    next
      case (PDict d)
      with w obtain x y where "map_of d t = Some x" "at_parent ts change x = Inr y"
        "w = PDict (set_item t y d)" by (auto simp: bind_result_Inr_iff split: option.splits)
      then show ?thesis using v PDict IH [of x y] wf_child [of d t x] wf_set_item by simp
    qed simp_all
  qed
qed

lemma at_parent_dict: "keeps_dict change \<Longrightarrow> keeps_dict (at_parent ts change)"
  by (cases ts) (auto simp: keeps_dict_def is_dict_def bind_result_Inr_iff
      split: pyval.splits option.splits)

lemma at_parent_errors: "expected_errors change \<Longrightarrow> expected_errors (at_parent ts change)"
proof (induction ts)
  case Nil
  then show ?case by (simp add: expected_errors_def)
next
  case (Cons t ts)
  note IH = Cons.IH [OF Cons.prems, unfolded expected_errors_def, rule_format]
  have bind: "raises c (bind_result (at_parent ts change x) (\<lambda>v. Inr (f v))) \<Longrightarrow> mutation_error c"
    for c x and f :: "pyval \<Rightarrow> pyval"
    using IH [of c x] by (cases "at_parent ts change x") auto
  show ?case unfolding expected_errors_def
  proof (intro allI impI)
    fix v c assume "raises c (at_parent (t # ts) change v)"
    then show "mutation_error c"
      by (cases v) (auto dest!: py_int_raises dest: bind [unfolded mutation_error_def]
          simp: mutation_error_def split: option.splits)
  qed
qed

lemma replace_child_wf: "wf_doc v \<Longrightarrow> keeps_wf (replace_child t v)"
  by (auto simp: keeps_wf_def replace_child_def bind_result_Inr_iff
      intro!: wf_list_update wf_set_item split: pyval.splits option.splits if_splits)

lemma remove_child_wf: "keeps_wf (remove_child t)"
proof -
  have "set (take j xs @ drop (Suc j) xs) \<subseteq> set xs" for j and xs :: "pyval list"
    by (auto dest: in_set_takeD in_set_dropD)
  then have "wf_list xs \<Longrightarrow> wf_list (take j xs @ drop (Suc j) xs)" for j xs
    unfolding wf_list_iff by blast
  then show ?thesis
    by (auto simp: keeps_wf_def remove_child_def bind_result_Inr_iff
        intro!: wf_del_item distinct_del_item split: pyval.splits option.splits if_splits)
qed

lemma child_dict: "keeps_dict (replace_child t v)" "keeps_dict (remove_child t)"
  by (auto simp: keeps_dict_def is_dict_def replace_child_def remove_child_def bind_result_Inr_iff
      split: pyval.splits option.splits if_splits)

lemma child_errors: "expected_errors (replace_child t v)" "expected_errors (remove_child t)"
  by (auto simp: expected_errors_def replace_child_def remove_child_def mutation_error_def
      dest!: py_int_raises split: pyval.splits option.splits if_splits)



lemma change_of_cases:
  assumes "\<And>v. map_of m ''value'' = Some v \<Longrightarrow> P (replace_child t v)" "P (remove_child t)"
    and "\<And>msg. P (\<lambda>_. raise ValueError msg)"
  shows "P (change_of m t)"
proof -
  have "change_of m t =
      (if py_get m ''operator'' = PStr ''replace'' then
         (case map_of m ''value'' of None \<Rightarrow> \<lambda>_. raise ValueError ''replace mutation requires value''
          | Some v \<Rightarrow> replace_child t v)
       else if py_get m ''operator'' = PStr ''remove'' then remove_child t
       else (\<lambda>_. raise ValueError ''unsupported mutation operator: ''))"
    by (auto simp: change_of_def fun_eq_iff split: option.splits)
  then show ?thesis using assms by (simp split: option.splits)
qed

text \<open>
  C32: A mutation of a well-formed trace by a well-formed value returns a well-formed object, or
  raises one of the four exceptions that the protocol verifier expects.
\<close>

theorem mutation_keeps_type:
  assumes "wf_doc (PDict d)" "wf_doc (PDict m)"
  shows "case apply_mutation d m of
      Inr doc \<Rightarrow> is_dict doc \<and> wf_doc doc
    | Inl (c, msg) \<Rightarrow> mutation_error c"
proof -
  have wf: "keeps_wf (change_of m t)" for t
    using assms(2) by (intro change_of_cases [where P = keeps_wf] remove_child_wf replace_child_wf wf_child)
      (auto simp: keeps_wf_def)
  have dict: "keeps_dict (change_of m t)" for t
    by (intro change_of_cases [where P = keeps_dict] child_dict) (auto simp: keeps_dict_def)
  have errors: "expected_errors (change_of m t)" for t
    by (intro change_of_cases [where P = expected_errors] child_errors)
      (auto simp: expected_errors_def mutation_error_def)
  have tokens: "raises c (pointer_tokens p) \<Longrightarrow> mutation_error c" for c p
    by (auto simp: pointer_tokens_def Let_def mutation_error_def split: if_splits)
  show ?thesis
  proof (cases "apply_mutation d m")
    case (Inr doc)
    then obtain ts where "at_parent (butlast ts) (change_of m (last ts)) (PDict d) = Inr doc"
      by (auto simp: apply_mutation_def bind_result_Inr_iff split: if_splits)
    then have "wf_doc doc" "is_dict doc"
      using at_parent_wf [OF wf, of "butlast ts" "last ts", unfolded keeps_wf_def, rule_format, OF assms(1)]
        at_parent_dict [OF dict, of "butlast ts" "last ts", unfolded keeps_dict_def, rule_format, of "PDict d"]
      by (simp_all add: is_dict_def)
    then show ?thesis using Inr by simp
  next
    case (Inl e)
    obtain c msg where e: "e = (c, msg)" by (cases e)
    then have "raises c (apply_mutation d m)" using Inl by simp
    then have "mutation_error c"
    proof (cases "pointer_tokens (str_of (py_get m ''path''))")
      case (Inl e')
      with \<open>raises c (apply_mutation d m)\<close> tokens [of c "str_of (py_get m ''path'')"] show ?thesis
        by (cases e') (auto simp: apply_mutation_def mutation_error_def split: if_splits)
    next
      case (Inr ts)
      with \<open>raises c (apply_mutation d m)\<close>
        at_parent_errors [OF errors, of "butlast ts" "last ts", unfolded expected_errors_def, rule_format, of c "PDict d"]
      show ?thesis by (auto simp: apply_mutation_def mutation_error_def split: if_splits)
    qed
    then show ?thesis using Inl e by simp
  qed
qed

definition replacement :: "string \<Rightarrow> pyval \<Rightarrow> items" where
  "replacement path v = [(''operator'', PStr ''replace''), (''path'', PStr path), (''value'', v)]"

theorem mutation_keeps_type_witness:
  "case apply_mutation [(''scope'', PNone)] (replacement ''/scope/run_id'' (PInt 1)) of
     Inr doc \<Rightarrow> is_dict doc \<and> wf_doc doc | Inl (c, msg) \<Rightarrow> mutation_error c"
  by (rule mutation_keeps_type) (simp_all add: replacement_def)

subsection \<open>Replacing twice\<close>

lemma map_of_set_item_None: "map_of (set_item k v d) k' = None \<longleftrightarrow> map_of d k' = None"
  by (auto simp: map_of_set_item)

lemma replace_child_twice:
  "replace_child t v p = Inr q \<Longrightarrow> replace_child t w q = replace_child t w p"
  by (cases p) (auto simp: replace_child_def bind_result_Inr_iff map_of_set_item_None
      cong: list_index_cong split: option.splits if_splits)

lemma at_parent_twice:
  "at_parent ts (replace_child t v) p = Inr q \<Longrightarrow>
     at_parent ts (replace_child t w) q = at_parent ts (replace_child t w) p"
proof (induction ts arbitrary: p q)
  case Nil
  then show ?case using replace_child_twice by simp
next
  case (Cons u us)
  show ?case
  proof (cases p)
    case (PList xs)
    with Cons.prems obtain i j x where i: "py_int u = Inr i" "list_index xs i = Some j"
      "at_parent us (replace_child t v) (xs ! j) = Inr x" "q = PList (xs[j := x])"
      by (auto simp: bind_result_Inr_iff split: option.splits)
    moreover have "list_index (xs[j := x]) i = Some j" using i(2) list_index_cong [of "xs[j := x]" xs i] by simp
    ultimately show ?thesis
      using Cons.IH [OF i(3)] PList list_index_Some [OF i(2)] by simp
  next
    case (PDict d)
    with Cons.prems obtain x y where x: "map_of d u = Some x"
      "at_parent us (replace_child t v) x = Inr y" "q = PDict (set_item u y d)"
      by (auto simp: bind_result_Inr_iff split: option.splits)
    then show ?thesis using Cons.IH [OF x(2)] PDict by (simp add: map_of_set_item)
  qed (use Cons.prems in simp_all)
qed

lemma replace_child_same:
  assumes "wf_doc p" "replace_child t v p = Inr q"
  shows "\<exists>old. replace_child t old p = Inr p"
proof (cases p)
  case (PList xs)
  with assms(2) obtain i j where "py_int t = Inr i" "list_index xs i = Some j"
    by (auto simp: replace_child_def bind_result_Inr_iff split: option.splits)
  then show ?thesis using PList by (intro exI [of _ "xs ! j"]) (simp add: replace_child_def)
next
  case (PDict d)
  with assms obtain old where "map_of d t = Some old" "distinct (map fst d)"
    by (auto simp: replace_child_def split: if_splits)
  then show ?thesis using PDict by (intro exI [of _ old]) (simp add: replace_child_def set_item_same)
qed (use assms in \<open>simp_all add: replace_child_def\<close>)

lemma at_parent_same:
  "wf_doc p \<Longrightarrow> at_parent ts (replace_child t v) p = Inr q \<Longrightarrow>
     \<exists>old. at_parent ts (replace_child t old) p = Inr p"
proof (induction ts arbitrary: p q)
  case Nil
  then show ?case using replace_child_same by simp
next
  case (Cons u us)
  show ?case
  proof (cases p)
    case (PList xs)
    with Cons.prems obtain i j x where i: "py_int u = Inr i" "list_index xs i = Some j"
      "at_parent us (replace_child t v) (xs ! j) = Inr x"
      by (auto simp: bind_result_Inr_iff split: option.splits)
    moreover have "wf_doc (xs ! j)"
      using Cons.prems(1) PList list_index_Some [OF i(2)] by (simp add: wf_list_iff)
    ultimately obtain old where "at_parent us (replace_child t old) (xs ! j) = Inr (xs ! j)"
      using Cons.IH by blast
    with i PList show ?thesis by (intro exI [of _ old]) simp
  next
    case (PDict d)
    with Cons.prems obtain x y where x: "map_of d u = Some x"
      "at_parent us (replace_child t v) x = Inr y"
      by (auto simp: bind_result_Inr_iff split: option.splits)
    moreover have "wf_doc x" using Cons.prems(1) PDict wf_child [OF _ x(1)] by simp
    ultimately obtain old where "at_parent us (replace_child t old) x = Inr x"
      using Cons.IH by blast
    with x PDict Cons.prems(1) show ?thesis by (intro exI [of _ old]) (simp add: set_item_same)
  qed (use Cons.prems in simp_all)
qed

lemma apply_replacement:
  "apply_mutation d (replacement path v) =
     bind_result (pointer_tokens path) (\<lambda>ts. at_parent (butlast ts) (replace_child (last ts) v) (PDict d))"
proof -
  have "change_of (replacement path v) t = replace_child t v" for t
    by (auto simp: change_of_def replacement_def py_get_def fun_eq_iff)
  then show ?thesis by (simp add: apply_mutation_def) (simp add: replacement_def py_get_def)
qed

text \<open>
  Of two replacements at one path only the second counts, and every replacement that returned
  can be undone by another at the same path.
\<close>

theorem replacement_is_undone:
  assumes "wf_doc (PDict d)" and "apply_mutation d (replacement path v) = Inr (PDict d')"
  shows "apply_mutation d' (replacement path w) = apply_mutation d (replacement path w) \<and>
    (\<exists>old. apply_mutation d' (replacement path old) = Inr (PDict d))"
proof -
  from assms(2) obtain ts where ts: "pointer_tokens path = Inr ts"
    "at_parent (butlast ts) (replace_child (last ts) v) (PDict d) = Inr (PDict d')"
    by (auto simp: apply_replacement bind_result_Inr_iff)
  note twice = at_parent_twice [OF ts(2)]
  obtain old where "at_parent (butlast ts) (replace_child (last ts) old) (PDict d) = Inr (PDict d)"
    using at_parent_same [OF assms(1) ts(2)] by blast
  with twice have "apply_mutation d' (replacement path old) = Inr (PDict d)"
    by (simp add: apply_replacement ts(1))
  with twice [of w] show ?thesis by (auto simp: apply_replacement ts(1))
qed

theorem replacement_is_undone_witness:
  "\<exists>old. apply_mutation [(''scope'', PBool True)] (replacement ''/scope'' old) = Inr (PDict [(''scope'', PNone)])"
proof -
  have step: "apply_mutation [(''scope'', PNone)] (replacement ''/scope'' (PBool True)) =
      Inr (PDict [(''scope'', PBool True)])" by code_simp
  have wf: "wf_doc (PDict [(''scope'', PNone)])" by simp
  show ?thesis using replacement_is_undone [OF wf step, of PNone] by (rule conjunct2)
qed

subsection \<open>Grafts\<close>

text \<open>Fields whose value the rest of an accepted trace determines.\<close>

definition protected_fields :: "string \<Rightarrow> string list" where
  "protected_fields kind =
     (if kind = ''runtime_event'' then [''run_id'', ''turn_id'']
      else if kind = ''checkpoint'' then [''run_id'', ''parent_checkpoint_id'', ''checkpoint_sequence'']
      else if kind = ''approval'' \<or> kind = ''effect'' then [''operation_id'', ''provider'', ''effect_sha256'']
      else if kind = ''provider_evidence'' then [''operation_id'', ''provider'']
      else if kind = ''reconciliation_completion'' then [''operation_id'', ''provider'', ''revision'']
      else [])"

lemma py_get_set_item:
  "py_get (set_item k v d) k' = (if k' = k \<and> map_of d k \<noteq> None then v else py_get d k')"
  by (auto simp: py_get_def map_of_set_item split: option.splits)

lemma rules_evidence_sound: "trace_rules sc rs \<Longrightarrow> i \<le> length rs \<Longrightarrow> evidence_sound (take i rs)"
proof (induction i)
  case 0
  then show ?case by simp
next
  case (Suc i)
  then have "record_rule_by (effect_rule (take i rs)) sc (take i rs) (rs ! i)"
    using rules_record [of sc rs i] by (simp add: record_rule_def)
  from evidence_sound_snoc [OF _ this] Suc show ?case by (simp add: take_Suc_conv_app_nth)
qed

lemma py_eq_same_int: "as_int v = Some n \<Longrightarrow> as_int w = Some n \<Longrightarrow> py_eq v w"
  by (cases v; cases w) auto

lemma checkpoint_fields:
  assumes "trace_rules sc rs" "i < length rs" "kind_is ''checkpoint'' (rs ! i)"
  shows "as_int (py_get (rs ! i) ''checkpoint_sequence'') = Some (int (length (of_kind ''checkpoint'' (take i rs))))"
    and "py_get (rs ! i) ''parent_checkpoint_id'' =
      (if of_kind ''checkpoint'' (take i rs) = [] then PNone
       else py_get (last (of_kind ''checkpoint'' (take i rs))) ''checkpoint_id'')"
proof -
  have "of_kind ''checkpoint'' rs = of_kind ''checkpoint'' (take i rs @ rs ! i # drop (Suc i) rs)"
    using assms(2) by (simp add: id_take_nth_drop [symmetric])
  then have "chain_rule (of_kind ''checkpoint'' (take i rs) @ rs ! i # of_kind ''checkpoint'' (drop (Suc i) rs))"
    using assms(1,3) by (simp add: trace_rules_def)
  from chain_position [OF this] show
    "as_int (py_get (rs ! i) ''checkpoint_sequence'') = Some (int (length (of_kind ''checkpoint'' (take i rs))))"
    "py_get (rs ! i) ''parent_checkpoint_id'' =
      (if of_kind ''checkpoint'' (take i rs) = [] then PNone
       else py_get (last (of_kind ''checkpoint'' (take i rs))) ''checkpoint_id'')" by simp_all
qed

lemma completion_revision:
  assumes "trace_rules sc rs" "i < length rs" "kind_is ''reconciliation_completion'' (rs ! i)"
    and e: "e \<in> set (evidence_in (take i rs))" "py_get (rs ! i) ''evidence_id'' = py_get e ''evidence_id''"
  shows "as_number (py_get (rs ! i) ''revision'') = Some (of_int (revision_of e))"
proof -
  have sound: "evidence_sound (take i rs)" using rules_evidence_sound [OF assms(1)] assms(2) by simp
  obtain e' where e': "e' \<in> set (evidence_in (take i rs))"
    "py_get (rs ! i) ''evidence_id'' = py_get e' ''evidence_id''"
    "py_eq (py_get e' ''revision'') (py_get (rs ! i) ''revision'')"
    using record_rule_kinds(6) [OF rules_record [OF assms(1,2)] assms(3)]
    by (auto simp: completion_rule_def)
  have "e' = e"
  proof (rule inj_onD)
    show "inj_on (\<lambda>e. text_of e ''evidence_id'') (set (evidence_in (take i rs)))"
      using sound by (simp add: evidence_sound_def distinct_map)
  qed (use e e' in \<open>simp_all add: text_of_def\<close>)
  moreover have "as_int (py_get e' ''revision'') = Some (revision_of e')"
    using sound e'(1) by (simp add: evidence_sound_def)
  ultimately show ?thesis using e'(3) by (cases "py_get e' ''revision''") auto
qed

text \<open>One field changed: the trace before and after, both following the rules.\<close>

definition grafted :: "scope \<Rightarrow> items list \<Rightarrow> nat \<Rightarrow> string \<Rightarrow> pyval \<Rightarrow> items \<Rightarrow> bool" where
  "grafted sc rs i name v r' \<longleftrightarrow>
     i < length rs \<and> trace_rules sc rs \<and> trace_rules sc (rs[i := r']) \<and>
     r' = set_item name v (rs ! i) \<and> map_of (rs ! i) name \<noteq> None \<and>
     name \<notin> {''kind'', ''tool'', ''payload_sha256'', ''evidence_id''}"

lemma graftedD:
  assumes "grafted sc rs i name v r'"
  shows "i < length rs" "trace_rules sc rs" "trace_rules sc (rs[i := r'])"
    and "py_get r' name = v" and "n \<noteq> name \<Longrightarrow> py_get r' n = py_get (rs ! i) n"
    and "kind_is k r' = kind_is k (rs ! i)" and "binds r' = binds (rs ! i)"
    and "fingerprint_of sc r' = fingerprint_of sc (rs ! i)"
    and "py_get r' ''evidence_id'' = py_get (rs ! i) ''evidence_id''"
    and "record_rule sc (take i rs) (rs ! i)" "record_rule sc (take i rs) r'"
proof -
  show i: "i < length rs" and rules: "trace_rules sc rs" "trace_rules sc (rs[i := r'])"
    using assms unfolding grafted_def by blast+
  from assms have r': "r' = set_item name v (rs ! i)" "map_of (rs ! i) name \<noteq> None"
    and name: "name \<noteq> ''kind''" "name \<noteq> ''tool''" "name \<noteq> ''payload_sha256''" "name \<noteq> ''evidence_id''"
    by (simp_all add: grafted_def)
  show "py_get r' name = v" using r' by (simp add: py_get_set_item)
  have same: "py_get r' n = py_get (rs ! i) n" if "n \<noteq> name" for n
    using that r' by (simp add: py_get_set_item)
  then show "n \<noteq> name \<Longrightarrow> py_get r' n = py_get (rs ! i) n" .
  show kind: "kind_is k r' = kind_is k (rs ! i)" for k using name same by (simp add: kind_is_def)
  then show "binds r' = binds (rs ! i)" by (simp add: binds_def)
  show "fingerprint_of sc r' = fingerprint_of sc (rs ! i)"
    using name same by (simp add: fingerprint_of_def text_of_def)
  show "py_get r' ''evidence_id'' = py_get (rs ! i) ''evidence_id''" using name same by simp
  show "record_rule sc (take i rs) (rs ! i)" using rules_record [OF rules(1) i] .
  show "record_rule sc (take i rs) r'" using rules_record [OF rules(2), of i] i by simp
qed

lemma scope_texts:
  assumes "trace_rules sc rs"
  obtains a b c e where "sc_run_id sc = PStr a" "sc_turn_id sc = PStr b" "sc_provider sc = PStr c"
    "sc_operation_id sc = PStr e"
proof -
  have "scope_ok sc" using assms by (simp add: trace_rules_def)
  then show ?thesis using that by (rule scope_ok_texts)
qed

lemma graft_event:
  assumes g: "grafted sc rs i name v r'" and k: "kind_is ''runtime_event'' (rs ! i)"
    and name: "name = ''run_id'' \<or> name = ''turn_id''"
  shows "py_eq (py_get (rs ! i) name) v"
proof -
  note d = graftedD [OF g]
  obtain a b c e where sc: "sc_run_id sc = PStr a" "sc_turn_id sc = PStr b" "sc_provider sc = PStr c"
    "sc_operation_id sc = PStr e" using d(2) by (rule scope_texts)
  have "event_rule sc (take i rs) (rs ! i)" "event_rule sc (take i rs) r'"
    using record_rule_kinds(1) [OF d(10)] record_rule_kinds(1) [OF d(11)] k d(6) by simp_all
  then show ?thesis using name d(4) sc unfolding event_rule_def by auto
qed

lemma graft_run:
  assumes g: "grafted sc rs i ''run_id'' v r'" and k: "kind_is ''checkpoint'' (rs ! i)"
  shows "py_eq (py_get (rs ! i) ''run_id'') v"
proof -
  note d = graftedD [OF g]
  obtain a b c e where sc: "sc_run_id sc = PStr a" "sc_turn_id sc = PStr b" "sc_provider sc = PStr c"
    "sc_operation_id sc = PStr e" using d(2) by (rule scope_texts)
  show ?thesis
    using record_rule_kinds(2) [OF d(10)] record_rule_kinds(2) [OF d(11)] k d(4,6) sc by simp
qed

lemma graft_scope:
  assumes g: "grafted sc rs i name v r'" and name: "name = ''operation_id'' \<or> name = ''provider''"
    and k: "binds (rs ! i) \<or> kind_is ''provider_evidence'' (rs ! i) \<or> kind_is ''reconciliation_completion'' (rs ! i)"
  shows "py_eq (py_get (rs ! i) name) v"
proof -
  note d = graftedD [OF g]
  obtain a b c e where sc: "sc_run_id sc = PStr a" "sc_turn_id sc = PStr b" "sc_provider sc = PStr c"
    "sc_operation_id sc = PStr e" using d(2) by (rule scope_texts)
  have "in_scope sc r" if "record_rule sc (take i rs) r"
    "binds r \<or> kind_is ''provider_evidence'' r \<or> kind_is ''reconciliation_completion'' r" for r
    using record_rule_kinds(3,5,6) [OF that(1)] that(2) by blast
  from this [OF d(10)] this [OF d(11)] have "in_scope sc (rs ! i)" "in_scope sc r'"
    using k d(6,7) by simp_all
  then show ?thesis using name d(4) sc unfolding in_scope_def by auto
qed

lemma graft_effect:
  assumes g: "grafted sc rs i ''effect_sha256'' v r'" and b: "binds (rs ! i)"
  shows "py_eq (py_get (rs ! i) ''effect_sha256'') v"
proof -
  note d = graftedD [OF g]
  have "binding_rule sc (take i rs) (rs ! i)" "binding_rule sc (take i rs) r'"
    using record_rule_kinds(3) [OF d(10)] record_rule_kinds(3) [OF d(11)] b d(7) by simp_all
  then show ?thesis using d(4,8) by (simp add: binding_rule_def)
qed

lemma graft_sequence:
  assumes g: "grafted sc rs i ''checkpoint_sequence'' v r'" and k: "kind_is ''checkpoint'' (rs ! i)"
  shows "py_eq (py_get (rs ! i) ''checkpoint_sequence'') v"
proof -
  note d = graftedD [OF g]
  have "kind_is ''checkpoint'' (rs[i := r'] ! i)" using k d(1,6) by simp
  from checkpoint_fields(1) [OF d(3) _ this] checkpoint_fields(1) [OF d(2,1) k] d(1,4)
  show ?thesis by (auto intro: py_eq_same_int)
qed

lemma graft_parent:
  assumes g: "grafted sc rs i ''parent_checkpoint_id'' v r'" and k: "kind_is ''checkpoint'' (rs ! i)"
  shows "py_eq (py_get (rs ! i) ''parent_checkpoint_id'') v"
proof -
  note d = graftedD [OF g]
  let ?cps = "of_kind ''checkpoint'' (take i rs)"
  have "kind_is ''checkpoint'' (rs[i := r'] ! i)" using k d(1,6) by simp
  from checkpoint_fields(2) [OF d(3) _ this] d(1,4)
  have v: "v = (if ?cps = [] then PNone else py_get (last ?cps) ''checkpoint_id'')" by simp
  note old = checkpoint_fields(2) [OF d(2,1) k]
  show ?thesis
  proof (cases "?cps = []")
    case True
    then show ?thesis using v old by simp
  next
    case False
    then have "last ?cps \<in> set (of_kind ''checkpoint'' rs)"
      using last_in_set [OF False] by (auto dest: in_set_takeD)
    then have "\<not> not_text (py_get (last ?cps) ''checkpoint_id'')"
      using d(2) unfolding trace_rules_def chain_rule_def checkpoint_ok_def by blast
    then show ?thesis using v old False by (auto simp: not_text_iff)
  qed
qed

lemma graft_revision:
  assumes g: "grafted sc rs i ''revision'' v r'" and k: "kind_is ''reconciliation_completion'' (rs ! i)"
  shows "py_eq (py_get (rs ! i) ''revision'') v"
proof -
  note d = graftedD [OF g]
  have k': "kind_is ''reconciliation_completion'' (rs[i := r'] ! i)" using k d(1,6) by simp
  obtain e where e: "e \<in> set (evidence_in (take i rs))"
    "py_get (rs ! i) ''evidence_id'' = py_get e ''evidence_id''"
    using record_rule_kinds(6) [OF d(10) k] by (auto simp: completion_rule_def)
  have "as_number (py_get (rs ! i) ''revision'') = Some (of_int (revision_of e))"
    by (rule completion_revision [OF d(2,1) k e])
  moreover have "as_number v = Some (of_int (revision_of e))"
    using completion_revision [OF d(3) _ k', of e] e d(1,4,9) by simp
  ultimately show ?thesis by (simp add: py_eq_number)
qed

lemma protected_field_determined:
  assumes g: "grafted sc rs i name v r'"
    and field: "name \<in> set (protected_fields k)" and k: "kind_is k (rs ! i)"
  shows "py_eq (py_get (rs ! i) name) v"
proof -
  have "protected_fields k \<noteq> []" using field by auto
  then have "k = ''runtime_event'' \<or> k = ''checkpoint'' \<or> (k = ''approval'' \<or> k = ''effect'') \<or>
      k = ''provider_evidence'' \<or> k = ''reconciliation_completion''"
    unfolding protected_fields_def by presburger
  then show ?thesis
  proof (elim disjE)
    assume "k = ''runtime_event''"
    with field k show ?thesis by (intro graft_event [OF g]) (simp_all add: protected_fields_def)
  next
    assume "k = ''checkpoint''"
    with field k have "kind_is ''checkpoint'' (rs ! i)"
      "name = ''run_id'' \<or> name = ''parent_checkpoint_id'' \<or> name = ''checkpoint_sequence''"
      by (simp_all add: protected_fields_def)
    with g show ?thesis by (elim disjE) (simp_all add: graft_run graft_parent graft_sequence)
  next
    assume "k = ''provider_evidence''"
    with field k show ?thesis by (intro graft_scope [OF g]) (simp_all add: protected_fields_def)
  next
    assume "k = ''reconciliation_completion''"
    with field k have "kind_is ''reconciliation_completion'' (rs ! i)"
      "name = ''revision'' \<or> (name = ''operation_id'' \<or> name = ''provider'')"
      by (auto simp add: protected_fields_def)
    with g show ?thesis using graft_revision graft_scope [OF g] by (elim disjE) simp_all
  next
    assume a: "k = ''approval''"
    with k have b: "binds (rs ! i)" by (simp add: binds_def)
    from a field have "name = ''effect_sha256'' \<or> (name = ''operation_id'' \<or> name = ''provider'')"
      by (auto simp add: protected_fields_def)
    with g b show ?thesis using graft_effect graft_scope [OF g] by (elim disjE) simp_all
  next
    assume a: "k = ''effect''"
    with k have b: "binds (rs ! i)" by (simp add: binds_def)
    from a field have "name = ''effect_sha256'' \<or> (name = ''operation_id'' \<or> name = ''provider'')"
      by (auto simp add: protected_fields_def)
    with g b show ?thesis using graft_effect graft_scope [OF g] by (elim disjE) simp_all
  qed
qed

lemma set_records:
  assumes "py_get d ''records'' = PList vs"
  shows "map_of d ''records'' = Some (PList vs)"
  using assms by (simp add: py_get_def split: option.splits)

lemma graft_document:
  assumes records: "py_get d ''records'' = PList vs" and i: "i < length vs" "vs ! i = PDict r"
    and name: "map_of r name \<noteq> None" "plain name" and short: "length (show_nat i) \<le> 4300"
  shows "apply_mutation d (replacement (pointer_to [''records'', show_nat i, name]) v) =
    Inr (PDict (set_item ''records'' (PList (vs[i := PDict (set_item name v r)])) d))"
proof -
  have "pointer_tokens (pointer_to [''records'', show_nat i, name]) = Inr [''records'', show_nat i, name]"
    using name(2) plain_show_nat by (intro pointer_tokens_to) (simp_all add: plain_def)
  then show ?thesis
    using set_records [OF records] i name(1)
    by (simp add: apply_replacement py_int_show_nat [OF short] list_index_nat replace_child_def)
qed

lemma protected_names:
  assumes "name \<in> set (protected_fields k)"
  shows "plain name" "name \<notin> {''kind'', ''tool'', ''payload_sha256'', ''evidence_id''}"
    "name \<notin> {''kind'', ''event_kind'', ''decision'', ''readback''}"
proof -
  have "name \<in> set [''run_id'', ''turn_id'', ''parent_checkpoint_id'', ''checkpoint_sequence'',
      ''operation_id'', ''provider'', ''effect_sha256'', ''revision'']"
    using assms by (auto simp: protected_fields_def split: if_splits)
  moreover have "list_all (\<lambda>name. plain name \<and> name \<notin> {''kind'', ''tool'', ''payload_sha256'', ''evidence_id''} \<and>
      name \<notin> {''kind'', ''event_kind'', ''decision'', ''readback''})
      [''run_id'', ''turn_id'', ''parent_checkpoint_id'', ''checkpoint_sequence'',
      ''operation_id'', ''provider'', ''effect_sha256'', ''revision'']"
    by (simp add: plain_def)
  ultimately show "plain name" "name \<notin> {''kind'', ''tool'', ''payload_sha256'', ''evidence_id''}"
    "name \<notin> {''kind'', ''event_kind'', ''decision'', ''readback''}"
    unfolding list_all_iff by blast+
qed

lemma hashable_fields_set_item:
  "name \<notin> {''kind'', ''event_kind'', ''decision'', ''readback''} \<Longrightarrow>
     hashable_fields (set_item name v r) = hashable_fields r"
proof -
  assume name: "name \<notin> {''kind'', ''event_kind'', ''decision'', ''readback''}"
  have "py_get (set_item name v r) k = py_get r k" if "k \<noteq> name" for k
    using that by (simp add: py_get_set_item)
  then have "py_get (set_item name v r) k = py_get r k"
    if "k \<in> {''kind'', ''event_kind'', ''decision'', ''readback''}" for k
    using name that by metis
  then show ?thesis by (simp add: hashable_fields_def kind_is_def)
qed

text \<open>
  C12: Changing a protected field of any record of an accepted trace to a different value is always
  detected: the mutation applies, and the validator returns violations for the result. Protected are
  the scope fields, the parent and number of a checkpoint, the fingerprint of an approval or effect,
  and the revision of a completion.
\<close>

theorem graft_is_detected:
  assumes accepted: "validate_trace d = Inr []" and records: "py_get d ''records'' = PList vs"
    and i: "i < length vs" "vs ! i = PDict r" and k: "kind_is k r"
    and field: "name \<in> set (protected_fields k)" "map_of r name \<noteq> None"
    and changed: "\<not> py_eq (py_get r name) v" and short: "length (show_nat i) \<le> 4300"
  shows "\<exists>d' violations.
    apply_mutation d (replacement (pointer_to [''records'', show_nat i, name]) v) = Inr (PDict d') \<and>
    validate_trace d' = Inr violations \<and> violations \<noteq> []"
proof -
  let ?r = "set_item name v r"
  let ?d = "set_item ''records'' (PList (vs[i := PDict ?r])) d"
  from accepted records obtain s rs where s: "py_get d ''scope'' = PDict s" and vs: "vs = map PDict rs"
    and rules: "trace_rules (scope_of s) rs" by (rule accepted_records)
  note names = protected_names [OF field(1)]
  have get: "py_get ?d ''scope'' = PDict s" "py_get ?d ''records'' = PList (vs[i := PDict ?r])"
    using s records set_records [OF records] by (simp_all add: py_get_set_item)
  have "hashable_fields x" if "PDict x \<in> set vs" for x
    using validate_trace_outcomes [of d] accepted s records that by simp
  moreover from this have "hashable_fields ?r"
    using i nth_mem [OF i(1)] hashable_fields_set_item [OF names(3)] by simp
  ultimately have "\<forall>x. PDict x \<in> set (vs[i := PDict ?r]) \<longrightarrow> hashable_fields x"
    using set_update_subset_insert [of vs i "PDict ?r"] by blast
  then have "returns (validate_trace ?d)"
    using validate_trace_outcomes [of ?d] get by simp
  then obtain violations where violations: "validate_trace ?d = Inr violations"
    by (auto simp: returns_iff)
  have "violations \<noteq> []"
  proof
    assume "violations = []"
    with violations have "validate_trace ?d = Inr []" by simp
    then obtain s' rs' where s': "py_get ?d ''scope'' = PDict s'"
      and rs': "vs[i := PDict ?r] = map PDict rs'" and rules': "trace_rules (scope_of s') rs'"
      using get(2) by (rule accepted_records)
    have "map PDict rs' = map PDict (rs[i := ?r])" using rs' vs by (simp add: map_update)
    then have "rs' = rs[i := ?r]" by (simp add: inj_map_eq_map inj_def)
    with rules' rules i s' get(1) vs field(2) names(2)
    have "grafted (scope_of s) rs i name v ?r" by (simp add: grafted_def)
    from protected_field_determined [OF this field(1)] k i vs changed show False by simp
  qed
  with violations graft_document [OF records i field(2) names(1) short] show ?thesis by blast
qed

theorem graft_is_detected_witness:
  "\<exists>d' violations.
    apply_mutation sample_trace (replacement (pointer_to [''records'', show_nat 2, ''effect_sha256'']) (PStr [])) =
      Inr (PDict d') \<and> validate_trace d' = Inr violations \<and> violations \<noteq> []"
proof -
  have records: "py_get sample_trace ''records'' = PList (map PDict sample_records)"
    by (simp add: sample_trace_def py_get_Cons)
  have "is_sha256 (PStr sample_effect)" by (simp add: sample_effect_def)
  then have "sample_effect \<noteq> []" by (auto simp: is_sha256.simps(1))
  then have changed: "\<not> py_eq (py_get sample_write ''effect_sha256'') (PStr [])"
    by (simp add: sample_defs)
  have field: "''effect_sha256'' \<in> set (protected_fields ''effect'')" "map_of sample_write ''effect_sha256'' \<noteq> None"
    by (simp_all add: protected_fields_def sample_write_def)
  have at: "2 < length (map PDict sample_records)" "map PDict sample_records ! 2 = PDict sample_write"
    by (simp_all add: sample_records_def)
  have k: "kind_is ''effect'' sample_write" by simp
  have short: "length (show_nat 2) \<le> 4300" by (subst show_nat.simps) simp
  show ?thesis by (rule graft_is_detected [OF sample_accepted records at k field changed short])
qed

subsection \<open>Corpus metrics\<close>

lemma count_rejected_le: "count_rejected rs \<le> length rs"
  by (simp add: count_rejected_def)

lemma count_rejected_0: "count_rejected rs = 0 \<longleftrightarrow> (\<forall>r \<in> set rs. tr_verdict r)"
  by (auto simp: count_rejected_def filter_empty_conv)

lemma clean_result_verdict:
  "clean_result t = Inr r \<Longrightarrow> tr_verdict r \<longleftrightarrow> validate_trace (dict_of t) = Inr []"
  by (auto simp: clean_result_def bind_result_Inr_iff)

lemma mutation_result_verdict:
  "mutation_result by_id m = Inr r \<Longrightarrow> tr_verdict r \<longleftrightarrow> tr_violations r \<noteq> []"
  by (auto simp: mutation_result_def bind_result_Inr_iff)

lemma accept_ratio:
  assumes "ratio (n - k) n = Inr q" "k \<le> n"
  shows "n \<noteq> 0" "0 \<le> q" "q \<le> 1" "q = 1 \<longleftrightarrow> k = 0"
proof -
  show n: "n \<noteq> 0" using assms(1) by (auto simp: ratio_def split: if_splits)
  then have q: "q = of_nat (n - k) / of_nat n" using assms(1) by (simp add: ratio_def)
  show "0 \<le> q" by (simp add: q)
  show "q \<le> 1" using n by (simp add: q field_simps)
  show "q = 1 \<longleftrightarrow> k = 0" using n assms(2) by (auto simp: q field_simps)
qed

lemma corpus_metrics_facts:
  assumes "evaluate_trace_corpus b m = Inr rep"
  shows "\<exists>traces mutations. py_get b ''traces'' = PList traces \<and> py_get m ''mutations'' = PList mutations \<and>
    traces \<noteq> [] \<and> mutations \<noteq> [] \<and>
    cm_clean_trace_count (cr_metrics rep) = length traces \<and>
    cm_mutation_count (cr_metrics rep) = length mutations \<and>
    0 \<le> cm_clean_trace_accept_rate (cr_metrics rep) \<and> cm_clean_trace_accept_rate (cr_metrics rep) \<le> 1 \<and>
    0 \<le> cm_mutation_detection_rate (cr_metrics rep) \<and> cm_mutation_detection_rate (cr_metrics rep) \<le> 1 \<and>
    (cm_clean_trace_accept_rate (cr_metrics rep) = 1 \<longleftrightarrow>
       (\<forall>t \<in> set traces. validate_trace (dict_of t) = Inr [])) \<and>
    (cm_mutation_detection_rate (cr_metrics rep) = 1 \<longleftrightarrow>
       (\<forall>r \<in> set (cr_mutation_results rep). tr_violations r \<noteq> [])) \<and>
    cm_detector_error_count (cr_metrics rep) = 0"
proof -
  from assms obtain traces mutations where
    lists: "as_list (py_get b ''traces'') = Some traces" "as_list (py_get m ''mutations'') = Some mutations"
    by (auto simp: evaluate_trace_corpus_def split: option.splits)
  with assms obtain by_id clean mutated metrics where
    clean: "map_result clean_result traces = Inr clean"
    and mutated: "map_result (mutation_result by_id) mutations = Inr mutated"
    and metrics: "corpus_summary clean mutated = Inr metrics"
    and rep: "rep = \<lparr>cr_clean_results = clean, cr_mutation_results = mutated, cr_metrics = metrics\<rparr>"
    by (auto simp: evaluate_trace_corpus_def bind_result_Inr_iff)
  from metrics obtain q p where q: "ratio (length clean - count_rejected clean) (length clean) = Inr q"
    and p: "ratio (length mutated - count_rejected mutated) (length mutated) = Inr p"
    and m: "cm_clean_trace_count metrics = length clean" "cm_mutation_count metrics = length mutated"
      "cm_clean_trace_accept_rate metrics = q" "cm_mutation_detection_rate metrics = p"
      "cm_detector_error_count metrics = 0"
    by (auto simp: corpus_summary_def Let_def bind_result_Inr_iff)
  note q' = accept_ratio [OF q count_rejected_le] and p' = accept_ratio [OF p count_rejected_le]
  have lengths: "length clean = length traces" "length mutated = length mutations"
    using clean mutated by (simp_all add: map_result_length)
  have "validate_trace (dict_of (traces ! i)) = Inr [] \<longleftrightarrow> tr_verdict (clean ! i)" if "i < length traces" for i
    using clean_result_verdict [OF map_result_nth [OF clean that]] by simp
  then have "(\<forall>t \<in> set traces. validate_trace (dict_of t) = Inr []) \<longleftrightarrow> (\<forall>r \<in> set clean. tr_verdict r)"
    using lengths(1) by (simp add: all_set_conv_all_nth)
  moreover have "tr_verdict (mutated ! i) \<longleftrightarrow> tr_violations (mutated ! i) \<noteq> []" if "i < length mutations" for i
    using mutation_result_verdict [OF map_result_nth [OF mutated that]] .
  then have "(\<forall>r \<in> set mutated. tr_verdict r) \<longleftrightarrow> (\<forall>r \<in> set mutated. tr_violations r \<noteq> [])"
    using lengths(2) by (simp add: all_set_conv_all_nth)
  moreover have "py_get b ''traces'' = PList traces" "py_get m ''mutations'' = PList mutations"
    using lists by (cases "py_get b ''traces''"; cases "py_get m ''mutations''"; simp)+
  ultimately show ?thesis
    using q' p' m lengths by (auto simp: rep count_rejected_0)
qed

text \<open>
  C33: When a corpus is evaluated, neither list was empty, one result per trace and per mutation is
  reported, both rates lie between 0 and 1, the accept rate is 1 exactly when every trace was
  accepted and the detection rate exactly when every mutation drew violations; and the count of
  detector errors is 0 in every report.
\<close>

theorem corpus_metrics_bounds:
  assumes "evaluate_trace_corpus b m = Inr rep"
  shows "\<exists>traces mutations. py_get b ''traces'' = PList traces \<and> py_get m ''mutations'' = PList mutations \<and>
    traces \<noteq> [] \<and> mutations \<noteq> [] \<and>
    cm_clean_trace_count (cr_metrics rep) = length traces \<and>
    cm_mutation_count (cr_metrics rep) = length mutations \<and>
    0 \<le> cm_clean_trace_accept_rate (cr_metrics rep) \<and> cm_clean_trace_accept_rate (cr_metrics rep) \<le> 1 \<and>
    0 \<le> cm_mutation_detection_rate (cr_metrics rep) \<and> cm_mutation_detection_rate (cr_metrics rep) \<le> 1 \<and>
    (cm_clean_trace_accept_rate (cr_metrics rep) = 1 \<longleftrightarrow>
       (\<forall>t \<in> set traces. validate_trace (dict_of t) = Inr [])) \<and>
    (cm_mutation_detection_rate (cr_metrics rep) = 1 \<longleftrightarrow>
       (\<forall>r \<in> set (cr_mutation_results rep). tr_violations r \<noteq> [])) \<and>
    cm_detector_error_count (cr_metrics rep) = 0"
  using assms by (rule corpus_metrics_facts)

definition sample_corpus :: items where
  "sample_corpus = [(''traces'', PList [PDict [(''trace_id'', PStr ''t'')]])]"

definition sample_mutations :: items where
  "sample_mutations =
     [(''mutations'', PList [PDict ((''id'', PStr ''m'') # (''base_trace_id'', PStr ''t'') #
        replacement ''/trace_id'' PNone)])]"

theorem corpus_metrics_bounds_witness:
  "\<exists>rep. evaluate_trace_corpus sample_corpus sample_mutations = Inr rep \<and>
     cm_clean_trace_accept_rate (cr_metrics rep) \<le> 1 \<and> cm_clean_trace_accept_rate (cr_metrics rep) \<noteq> 1"
proof -
  have v: "validate_trace [(''trace_id'', x)] = Inr [''scope_missing_or_invalid'']" for x
    by (simp add: validate_trace_def py_get_Cons)
  have "returns (evaluate_trace_corpus sample_corpus sample_mutations)" by code_simp
  then obtain rep where rep: "evaluate_trace_corpus sample_corpus sample_mutations = Inr rep"
    by (auto simp: returns_iff)
  have "py_get sample_corpus ''traces'' = PList [PDict [(''trace_id'', PStr ''t'')]]"
    by (simp add: sample_corpus_def py_get_Cons)
  with corpus_metrics_bounds [OF rep] v show ?thesis using rep by (auto simp: dict_of_def)
qed

end
