(* ===== verification/Evaluation.thy ===== *)
theory Evaluation
  imports Documents Digest Simulator Effects Approvals Durable Reconciliation Lineage Recovery
begin

section \<open>The reliability evaluation (\<open>evaluation.py\<close>)\<close>

text \<open>
  The eleven frozen scenarios drive the modules end to end; a manifest names which to run, and the
  summary counts them. A scenario gets a fresh temporary directory, so its SQLite files are new; the
  directory's path is an argument. A restarted store is opened again on the same file.
\<close>

subsection \<open>Running operations in sequence\<close>

definition andthen :: "('db, 'a) txn \<Rightarrow> ('a \<Rightarrow> ('db, 'b) txn) \<Rightarrow> ('db, 'b) txn" where
  "andthen m f db = (case m db of (Inl e, db') \<Rightarrow> (Inl e, db') | (Inr x, db') \<Rightarrow> f x db')"

definition give :: "'a result \<Rightarrow> ('db, 'a) txn" where
  "give r db = (r, db)"

text \<open>\<open>try: m; blocked = False except c: blocked = True\<close>; no class caught here has subclasses.\<close>

definition blocked_by :: "exn_class \<Rightarrow> ('db, 'a) txn \<Rightarrow> ('db, bool) txn" where
  "blocked_by c m db =
     (case m db of
        (Inl e, db') \<Rightarrow> if fst e = c then (Inr True, db') else (Inl e, db')
      | (Inr x, db') \<Rightarrow> (Inr False, db'))"

text \<open>An operation on one of two files.\<close>

definition on_first :: "('d, 'a) txn \<Rightarrow> ('d \<times> 'e, 'a) txn" where
  "on_first m dbs = (case m (fst dbs) of (r, d) \<Rightarrow> (r, (d, snd dbs)))"

definition on_second :: "('e, 'a) txn \<Rightarrow> ('d \<times> 'e, 'a) txn" where
  "on_second m dbs = (case m (snd dbs) of (r, e) \<Rightarrow> (r, (fst dbs, e)))"

lemmas sequencing = andthen_def give_def blocked_by_def on_first_def on_second_def

subsection \<open>Scenario results\<close>

record ScenarioResult =
  sr_scenario_id :: string
  sr_passed :: bool
  sr_safety_applicable :: bool
  sr_safety_passed :: "bool option"
  sr_convergence_applicable :: bool
  sr_convergence_passed :: "bool option"
  sr_fail_closed_applicable :: bool
  sr_fail_closed_passed :: "bool option"
  sr_duplicate_effect_violations :: int
  sr_detail :: string

definition scenario_result ::
  "string \<Rightarrow> bool \<Rightarrow> bool option \<Rightarrow> bool option \<Rightarrow> bool option \<Rightarrow> int \<Rightarrow> string \<Rightarrow> ScenarioResult" where
  "scenario_result scenario_id passed safety convergence fail_closed violations detail =
     \<lparr>sr_scenario_id = scenario_id, sr_passed = passed,
      sr_safety_applicable = (safety \<noteq> None), sr_safety_passed = safety,
      sr_convergence_applicable = (convergence \<noteq> None), sr_convergence_passed = convergence,
      sr_fail_closed_applicable = (fail_closed \<noteq> None), sr_fail_closed_passed = fail_closed,
      sr_duplicate_effect_violations = violations, sr_detail = detail\<rparr>"

subsection \<open>The pure scenarios\<close>

definition stale_child_completion_scoped :: "ScenarioResult result" where
  "stale_child_completion_scoped =
     (let initial = new_run_state ''parent'' ''parent-turn'';
          events =
            [\<lparr>ev_sequence = 1, ev_run_id = ''parent'', ev_turn_id = ''parent-turn'', ev_kind = OUTPUT, ev_payload = ''partial''\<rparr>,
             \<lparr>ev_sequence = 2, ev_run_id = ''child'', ev_turn_id = ''child-turn'', ev_kind = COMPLETED, ev_payload = ''child-final''\<rparr>,
             \<lparr>ev_sequence = 3, ev_run_id = ''parent'', ev_turn_id = ''parent-turn'', ev_kind = COMPLETED, ev_payload = ''parent-final''\<rparr>] in
      bind_result (replay events initial ''scoped'') (\<lambda>sim.
        let state = sim_state sim;
            ok = terminal state \<and> \<not> failed state \<and> out_text state = ''parent-final'' \<and>
                 accepted_events state = [1, 3] \<and> ignored_events state = [2] in
        Inr (scenario_result ''stale_child_completion_scoped'' ok (Some ok) (Some ok) None 0
          ''foreign child completion is ignored and the parent reaches its own terminal state'')))"

definition lost_ack_retry_idempotency :: "ScenarioResult result" where
  "lost_ack_retry_idempotency =
     (let requests =
            [\<lparr>er_sequence = 1, er_operation_id = ''write:plan'', er_tool = ''write_file'', er_payload = ''plan-v1''\<rparr>,
             \<lparr>er_sequence = 2, er_operation_id = ''write:plan'', er_tool = ''write_file'', er_payload = ''plan-v1''\<rparr>] in
      bind_result (replay_effects requests ''idempotent'') (\<lambda>res.
        let ok = length (applied res) = 1 \<and> length (duplicates res) = 1 in
        Inr (scenario_result ''lost_ack_retry_idempotency'' ok (Some ok) (Some ok) None
          (if ok then 0 else max 0 (int (length (applied res)) - 1))
          ''exact replay is suppressed by the stable operation identity'')))"

definition terminal_conflict_fails_closed :: "ScenarioResult result" where
  "terminal_conflict_fails_closed =
     (let initial = new_run_state ''parent'' ''turn'';
          events =
            [\<lparr>ev_sequence = 1, ev_run_id = ''parent'', ev_turn_id = ''turn'', ev_kind = COMPLETED, ev_payload = ''answer''\<rparr>,
             \<lparr>ev_sequence = 2, ev_run_id = ''parent'', ev_turn_id = ''turn'', ev_kind = FAILED, ev_payload = ''late-failure''\<rparr>] in
      bind_result (fst (blocked_by TerminalStateConflict (give (replay events initial ''scoped'')) ())) (\<lambda>blocked.
        Inr (scenario_result ''terminal_conflict_fails_closed'' blocked (Some blocked) None (Some blocked) 0
          ''incompatible same-turn terminal outcomes are rejected instead of last-write-wins'')))"

definition approval_mutation_fails_closed :: "ScenarioResult result" where
  "approval_mutation_fails_closed =
     (let events =
            [\<lparr>ap_sequence = 1, ap_action = REQUESTED, ap_operation_id = ''write:plan'', ap_tool = ''write_file'', ap_payload = ''plan-v1''\<rparr>,
             \<lparr>ap_sequence = 2, ap_action = APPROVED, ap_operation_id = ''write:plan'', ap_tool = ''write_file'', ap_payload = ''plan-v1''\<rparr>,
             \<lparr>ap_sequence = 3, ap_action = EXECUTE, ap_operation_id = ''write:plan'', ap_tool = ''write_file'', ap_payload = ''plan-v2''\<rparr>] in
      bind_result (fst (blocked_by ApprovalConflict (give (replay_approval events)) ())) (\<lambda>blocked.
        Inr (scenario_result ''approval_mutation_fails_closed'' blocked (Some blocked) None (Some blocked) 0
          ''approval is bound to the exact operation, tool, and payload'')))"

subsection \<open>The scenarios on files\<close>

definition durable_restart_exact_replay :: "string \<Rightarrow> ScenarioResult result" where
  "durable_restart_exact_replay directory =
     (let database = directory @ ''/sandbox.sqlite3'' in
      fst (
        andthen (give (mk_LocalOperation (PStr ''op-1'') (PStr ''record_note'') (PStr ''safe-local-note''))) (\<lambda>operation.
        andthen (open_sandbox database) (\<lambda>_.
        andthen (request operation) (\<lambda>_.
        andthen (decide operation ''approved'') (\<lambda>_.
        andthen (execute operation no_checkpoint) (\<lambda>first_apply.
        andthen (open_sandbox database) (\<lambda>_.
        andthen (execute operation no_checkpoint) (\<lambda>second_apply.
        andthen list_notes (\<lambda>rows.
          let ok = first_apply \<and> \<not> second_apply \<and> rows = [(''op-1'', ''safe-local-note'')] in
          give (Inr (scenario_result ''durable_restart_exact_replay'' ok (Some ok) (Some ok) None
            (if ok then 0 else max 0 (int (length rows) - 1))
            ''file-backed completion survives restart and exact replay does not repeat the local effect''))))))))))
        new_sandbox_file))"

definition stale_checkpoint_lineage_fails_closed :: "string \<Rightarrow> ScenarioResult result" where
  "stale_checkpoint_lineage_fails_closed directory =
     fst (
       andthen (give (mk_RecoveryOperation (PStr ''op-1'') (PStr ''edit'') (PStr ''one''))) (\<lambda>op1.
       andthen (give (mk_RecoveryOperation (PStr ''op-2'') (PStr ''test'') (PStr ''two''))) (\<lambda>op2.
       andthen (give (mk_RecoveryOperation (PStr ''op-3'') (PStr ''publish'') (PStr ''three''))) (\<lambda>op3.
       let operations = [op1, op2, op3] in
       andthen (open_recovery (directory @ ''/recovery.sqlite3'')) (\<lambda>_.
       andthen (start (PStr ''run-1'') operations (PStr ''start'')) (\<lambda>initial.
       andthen (advance initial (PStr ''after-one'') (PInt 1)) (\<lambda>after_one.
       andthen (advance after_one (PStr ''after-two'') (PInt 2)) (\<lambda>after_two.
       andthen (blocked_by StaleCheckpoint (resume after_one operations)) (\<lambda>blocked.
       andthen (resume after_two operations) (\<lambda>remaining.
         let converged = map ro_operation_id remaining = [''op-3'']; ok = blocked \<and> converged in
         give (Inr (scenario_result ''stale_checkpoint_lineage_fails_closed'' ok (Some blocked)
           (Some converged) (Some blocked) 0
           ''stale checkpoint replay is rejected and recovery resumes only from the current lineage'')))))))))))
       new_recovery_file)"

definition present_evidence :: "ExternalOperation \<Rightarrow> int \<Rightarrow> ProviderEvidence" where
  "present_evidence op revision =
     \<lparr>pe_provider = xo_provider op, pe_operation_id = xo_operation_id op, pe_readback = PRESENT,
      pe_observed_tool = Some (xo_tool op), pe_observed_payload = Some (xo_payload op),
      pe_readback_revision = Some revision, pe_idempotency_key = None,
      pe_idempotency_effect_sha256 = None\<rparr>"

definition absent_evidence :: "ExternalOperation \<Rightarrow> int \<Rightarrow> ProviderEvidence" where
  "absent_evidence op revision =
     \<lparr>pe_provider = xo_provider op, pe_operation_id = xo_operation_id op, pe_readback = ABSENT,
      pe_observed_tool = None, pe_observed_payload = None,
      pe_readback_revision = Some revision, pe_idempotency_key = Some (xo_operation_id op),
      pe_idempotency_effect_sha256 = Some (effect_sha256 op)\<rparr>"

definition scenario_operation :: "string \<Rightarrow> ExternalOperation result" where
  "scenario_operation operation_id =
     mk_ExternalOperation (PStr ''provider-a'') (PStr operation_id) (PStr ''create_record'') (PStr ''payload-v1'')"

definition provider_present_suppresses_retry :: "ScenarioResult result" where
  "provider_present_suppresses_retry =
     bind_result (scenario_operation ''op-1'') (\<lambda>op.
     bind_result (mk_ProviderEvidence (present_evidence op 5)) (\<lambda>evidence.
     bind_result (reconcile_lost_ack op evidence) (\<lambda>decision.
       let ok = rd_action decision = ''accept_remote_commit'' \<and> \<not> rd_should_retry decision in
       Inr (scenario_result ''provider_present_suppresses_retry'' ok (Some ok) (Some ok) None 0
         ''authoritative PRESENT readback accepts the committed effect instead of replaying it''))))"

definition stale_readback_revision_fails_closed :: "ScenarioResult result" where
  "stale_readback_revision_fails_closed =
     bind_result (scenario_operation ''op-1'') (\<lambda>op.
     bind_result (mk_ProviderEvidence (absent_evidence op 4)) (\<lambda>evidence.
     bind_result (reconcile_lost_ack op evidence) (\<lambda>decision.
     bind_result (fst (blocked_by StaleProviderReadback
         (andthen (give (mk_VersionedProviderState 5 [op])) (\<lambda>state.
            give (apply_conditional_retry op decision state))) ())) (\<lambda>blocked.
       Inr (scenario_result ''stale_readback_revision_fails_closed'' blocked (Some blocked) None (Some blocked) 0
         ''revision drift invalidates old absence evidence before a retry can commit'')))))"

definition restart_evidence_supersedes_retry :: "string \<Rightarrow> ScenarioResult result" where
  "restart_evidence_supersedes_retry directory =
     (let database = directory @ ''/evidence.sqlite3'' in
      fst (
        andthen (give (scenario_operation ''op-1'')) (\<lambda>op.
        andthen (open_lineage database) (\<lambda>_.
        andthen (give (mk_ProviderEvidence (absent_evidence op 4))) (\<lambda>absent.
        andthen (record_evidence op (PStr ''absent-4'') absent) (\<lambda>old.
        andthen (open_lineage database) (\<lambda>_.
        andthen (give (mk_ProviderEvidence (present_evidence op 5))) (\<lambda>present.
        andthen (record_evidence op (PStr ''present-5'') present) (\<lambda>current.
        andthen (blocked_by SupersededReconciliationDecision
            (andthen (give (mk_VersionedProviderState 4 [])) (\<lambda>state.
               apply_retry op (rr_evidence_id old) (rr_decision old) state))) (\<lambda>blocked.
          let converged = rr_revision current = 5 \<and> \<not> rd_should_retry (rr_decision current);
              ok = blocked \<and> converged in
          give (Inr (scenario_result ''restart_evidence_supersedes_retry'' ok (Some blocked)
            (Some converged) (Some blocked) 0
            ''newer provider evidence durably supersedes pre-restart retry authority''))))))))))
        new_lineage_file))"

definition repeated_lost_ack_converges :: "string \<Rightarrow> ScenarioResult result" where
  "repeated_lost_ack_converges directory =
     (let database = directory @ ''/evidence.sqlite3'' in
      fst (
        andthen (give (scenario_operation ''op-loop'')) (\<lambda>op.
        andthen (open_lineage database) (\<lambda>_.
        andthen (give (mk_ProviderEvidence (absent_evidence op 4))) (\<lambda>absent.
        andthen (record_evidence op (PStr ''absent-4'') absent) (\<lambda>retry.
        andthen (give (mk_VersionedProviderState 4 [])) (\<lambda>state.
        andthen (apply_retry op (rr_evidence_id retry) (rr_decision retry) state) (\<lambda>provider.
        andthen (open_lineage database) (\<lambda>_.
        andthen (give (mk_ProviderEvidence (present_evidence op 5))) (\<lambda>present.
        andthen (record_evidence op (PStr ''present-5'') present) (\<lambda>current.
        andthen (mark_reconciled op (rr_evidence_id current) (rr_decision current)) (\<lambda>completion.
        andthen (blocked_by SupersededReconciliationDecision
            (apply_retry op (rr_evidence_id retry) (rr_decision retry) provider)) (\<lambda>blocked.
          let effect_count = length (vp_effects provider);
              converged = rc_revision completion = 5 \<and> effect_count = 1;
              ok = blocked \<and> converged in
          give (Inr (scenario_result ''repeated_lost_ack_converges'' ok (Some (blocked \<and> effect_count = 1))
            (Some converged) (Some blocked) (max 0 (int effect_count - 1))
            ''fresh PRESENT evidence closes a lost-ack loop and supersedes stale retry authority'')))))))))))))
        new_lineage_file))"

definition competing_retry_authorities_converge :: "string \<Rightarrow> ScenarioResult result" where
  "competing_retry_authorities_converge directory =
     fst (
       andthen (give (scenario_operation ''op-race'')) (\<lambda>op.
       andthen (on_first (open_provider (directory @ ''/provider.sqlite3''))) (\<lambda>_.
       andthen (on_first (read_operation op)) (\<lambda>readback.
       andthen (on_second (open_lineage (directory @ ''/evidence.sqlite3''))) (\<lambda>_.
       andthen (on_second (record_evidence op (PStr ''absent-0'') readback)) (\<lambda>retry.
       andthen (on_first (conditional_apply op (rr_decision retry))) (\<lambda>first.
       andthen (blocked_by StaleProviderReadback
           (on_first (conditional_apply op (rr_decision retry)))) (\<lambda>stale_blocked.
       andthen (on_first (read_operation op)) (\<lambda>present.
       andthen (on_second (record_evidence op (PStr ''present-1'') present)) (\<lambda>current.
       andthen (on_second (mark_reconciled op (rr_evidence_id current) (rr_decision current))) (\<lambda>completion.
       andthen (on_first (snapshot (PStr (xo_provider op)))) (\<lambda>final.
         let effect_count = length (vp_effects final);
             converged = vp_revision first = 1 \<and> vp_revision final = 1 \<and> rc_revision completion = 1 \<and>
               \<not> rd_should_retry (rr_decision current) \<and> effect_count = 1;
             ok = stale_blocked \<and> converged in
         give (Inr (scenario_result ''competing_retry_authorities_converge'' ok
           (Some (stale_blocked \<and> effect_count = 1)) (Some converged) (Some stale_blocked)
           (max 0 (int effect_count - 1))
           ''one revision-bound retry commits and stale competing authority is rejected before convergence'')))))))))))))
       (new_provider_file, new_lineage_file))"

subsection \<open>Runners, summary and manifest\<close>

definition scenario_runners :: "(string \<times> (string \<Rightarrow> ScenarioResult result)) list" where
  "scenario_runners =
     [(''stale_child_completion_scoped'', \<lambda>_. stale_child_completion_scoped),
      (''lost_ack_retry_idempotency'', \<lambda>_. lost_ack_retry_idempotency),
      (''terminal_conflict_fails_closed'', \<lambda>_. terminal_conflict_fails_closed),
      (''approval_mutation_fails_closed'', \<lambda>_. approval_mutation_fails_closed),
      (''durable_restart_exact_replay'', durable_restart_exact_replay),
      (''stale_checkpoint_lineage_fails_closed'', stale_checkpoint_lineage_fails_closed),
      (''provider_present_suppresses_retry'', \<lambda>_. provider_present_suppresses_retry),
      (''stale_readback_revision_fails_closed'', \<lambda>_. stale_readback_revision_fails_closed),
      (''restart_evidence_supersedes_retry'', restart_evidence_supersedes_retry),
      (''repeated_lost_ack_converges'', repeated_lost_ack_converges),
      (''competing_retry_authorities_converge'', competing_retry_authorities_converge)]"

record evaluation_metrics =
  em_scenario_count :: nat
  em_scenario_passed :: nat
  em_scenario_pass_rate :: rat
  em_safety_applicable :: nat
  em_safety_passed :: nat
  em_safety_pass_rate :: rat
  em_convergence_applicable :: nat
  em_convergence_passed :: nat
  em_convergence_pass_rate :: rat
  em_fail_closed_applicable :: nat
  em_fail_closed_passed :: nat
  em_fail_closed_pass_rate :: rat
  em_duplicate_effect_violations :: int
  em_all_scenarios_passed :: bool

text \<open>\<open>a / b if b else 1.0\<close>, as an exact quotient.\<close>

definition rate_or_one :: "nat \<Rightarrow> nat \<Rightarrow> rat" where
  "rate_or_one a b = (if b = 0 then 1 else of_nat a / of_nat b)"

definition count_if :: "('a \<Rightarrow> bool) \<Rightarrow> 'a list \<Rightarrow> nat" where
  "count_if p xs = length (filter p xs)"

definition summarize_results :: "ScenarioResult list \<Rightarrow> evaluation_metrics result" where
  "summarize_results results =
     (if results = [] then raise ValueError ''evaluation requires at least one scenario result''
      else
        let safety = filter sr_safety_applicable results;
            convergence = filter sr_convergence_applicable results;
            fail_closed = filter sr_fail_closed_applicable results;
            passed_count = count_if sr_passed results;
            safety_passed = count_if (\<lambda>r. sr_safety_passed r = Some True) safety;
            convergence_passed = count_if (\<lambda>r. sr_convergence_passed r = Some True) convergence;
            fail_closed_passed = count_if (\<lambda>r. sr_fail_closed_passed r = Some True) fail_closed in
        Inr \<lparr>em_scenario_count = length results,
             em_scenario_passed = passed_count,
             em_scenario_pass_rate = of_nat passed_count / of_nat (length results),
             em_safety_applicable = length safety,
             em_safety_passed = safety_passed,
             em_safety_pass_rate = rate_or_one safety_passed (length safety),
             em_convergence_applicable = length convergence,
             em_convergence_passed = convergence_passed,
             em_convergence_pass_rate = rate_or_one convergence_passed (length convergence),
             em_fail_closed_applicable = length fail_closed,
             em_fail_closed_passed = fail_closed_passed,
             em_fail_closed_pass_rate = rate_or_one fail_closed_passed (length fail_closed),
             em_duplicate_effect_violations = sum_list (map sr_duplicate_effect_violations results),
             em_all_scenarios_passed = (passed_count = length results)\<rparr>)"

definition check_applicability :: "string \<Rightarrow> items \<Rightarrow> ScenarioResult \<Rightarrow> ScenarioResult result" where
  "check_applicability scenario_id item res =
     (case filter (\<lambda>(key, applicable). py_get item key \<noteq> PBool applicable)
             [(''safety_required'', sr_safety_applicable res),
              (''convergence_required'', sr_convergence_applicable res),
              (''fail_closed_required'', sr_fail_closed_applicable res)] of
        [] \<Rightarrow> Inr res
      | (key, applicable) # _ \<Rightarrow>
          raise RuntimeError (''scenario applicability mismatch for '' @ scenario_id @ '': '' @ key))"

text \<open>One fixture of the manifest, run in the \<open>n\<close>-th temporary directory.\<close>

definition run_fixture :: "(pyval \<Rightarrow> string) \<Rightarrow> (nat \<Rightarrow> string) \<Rightarrow> nat \<times> pyval \<Rightarrow> ScenarioResult result" where
  "run_fixture repr directories fixture =
     (case as_items (snd fixture) of
        None \<Rightarrow> raise TypeError ''each scenario fixture must be an object''
      | Some item \<Rightarrow>
          let scenario_id = py_str repr (get_or item ''id'' (PStr []));
              runner_name = py_str repr (get_or item ''runner'' (PStr [])) in
          (case map_of scenario_runners runner_name of
             None \<Rightarrow> raise ValueError (''unknown frozen scenario runner: '' @ runner_name)
           | Some runner \<Rightarrow>
               bind_result (runner (directories (fst fixture))) (\<lambda>res.
                 if sr_scenario_id res \<noteq> scenario_id
                 then raise RuntimeError (''scenario identity mismatch: fixture='' @ quoted scenario_id @
                        '' runner='' @ quoted (sr_scenario_id res))
                 else check_applicability scenario_id item res)))"

definition run_scenario_manifest ::
  "(pyval \<Rightarrow> string) \<Rightarrow> (nat \<Rightarrow> string) \<Rightarrow> items \<Rightarrow> ScenarioResult list result" where
  "run_scenario_manifest repr directories manifest =
     (case as_list (py_get manifest ''scenarios'') of
        None \<Rightarrow> raise TypeError ''scenario manifest must contain a scenarios list''
      | Some scenarios \<Rightarrow> map_result (run_fixture repr directories) (enumerate 0 scenarios))"

record evaluation_report =
  ev_protocol_id :: pyval
  ev_scenario_manifest_sha256 :: pyval
  ev_scenario_results :: "ScenarioResult list"
  ev_metrics :: evaluation_metrics
  ev_claim_boundary :: pyval

text \<open>
  \<open>evaluate\<close>, with the two files as they were read: both parsed documents, and the bytes of the
  manifest for its digest.
\<close>

definition evaluate ::
  "(pyval \<Rightarrow> string) \<Rightarrow> (nat \<Rightarrow> string) \<Rightarrow> items \<Rightarrow> items \<Rightarrow> 8 word list \<Rightarrow> evaluation_report result" where
  "evaluate repr directories protocol manifest scenario_bytes =
     (if py_get protocol ''status'' \<noteq> PStr ''frozen_unexecuted''
      then raise ValueError ''aggregate execution requires the frozen_unexecuted protocol''
      else case as_items (py_get protocol ''scenario_manifest'') of
        None \<Rightarrow> raise TypeError ''protocol scenario_manifest is missing''
      | Some frozen_manifest \<Rightarrow>
          if py_get frozen_manifest ''sha256'' \<noteq> PStr (sha256_hex scenario_bytes)
          then raise ValueError ''scenario manifest does not match the frozen SHA-256''
          else
            bind_result (run_scenario_manifest repr directories manifest) (\<lambda>results.
            bind_result (summarize_results results) (\<lambda>metrics.
            bind_result (member_item protocol ''protocol_id'') (\<lambda>protocol_id.
            bind_result (member_item frozen_manifest ''sha256'') (\<lambda>sha256.
            bind_result (member_item protocol ''claim_boundary'') (\<lambda>claim_boundary.
              Inr \<lparr>ev_protocol_id = protocol_id, ev_scenario_manifest_sha256 = sha256,
                   ev_scenario_results = results, ev_metrics = metrics,
                   ev_claim_boundary = claim_boundary\<rparr>))))))"

subsection \<open>What each scenario returns\<close>

lemma fresh_path [simp]:
  "d @ ''/sandbox.sqlite3'' \<noteq> '':memory:''" "d @ ''/recovery.sqlite3'' \<noteq> '':memory:''"
  "d @ ''/evidence.sqlite3'' \<noteq> '':memory:''" "d @ ''/provider.sqlite3'' \<noteq> '':memory:''"
  by (auto dest!: arg_cong [of _ _ rev])

definition clean_pass :: "string \<Rightarrow> ScenarioResult \<Rightarrow> bool" where
  "clean_pass name r \<longleftrightarrow>
     sr_scenario_id r = name \<and> sr_passed r \<and>
     sr_safety_applicable r \<and> sr_safety_passed r = Some True \<and>
     (sr_convergence_applicable r \<longrightarrow> sr_convergence_passed r = Some True) \<and>
     (sr_fail_closed_applicable r \<longrightarrow> sr_fail_closed_passed r = Some True) \<and>
     (sr_convergence_applicable r \<or> sr_fail_closed_applicable r) \<and>
     sr_duplicate_effect_violations r = 0"

definition passes :: "string \<Rightarrow> ScenarioResult result \<Rightarrow> bool" where
  "passes name res \<longleftrightarrow> (case res of Inl e \<Rightarrow> False | Inr r \<Rightarrow> clean_pass name r)"

lemma pass_result [simp]:
  "passes name (Inr (scenario_result name p s c f n detail)) \<longleftrightarrow>
     p \<and> s = Some True \<and> c \<in> {None, Some True} \<and> f \<in> {None, Some True} \<and> (c \<noteq> None \<or> f \<noteq> None) \<and> n = 0"
  by (auto simp: passes_def clean_pass_def scenario_result_def)

lemma stale_child_passes: "passes ''stale_child_completion_scoped'' stale_child_completion_scoped"
  by code_simp

lemma lost_ack_passes: "passes ''lost_ack_retry_idempotency'' lost_ack_retry_idempotency"
  by code_simp

lemma terminal_conflict_passes: "passes ''terminal_conflict_fails_closed'' terminal_conflict_fails_closed"
  by code_simp

lemma approval_mutation_passes: "passes ''approval_mutation_fails_closed'' approval_mutation_fails_closed"
  by code_simp

lemma durable_restart_passes: "passes ''durable_restart_exact_replay'' (durable_restart_exact_replay d)"
  by (simp add: durable_restart_exact_replay_def sequencing Let_def mk_LocalOperation_def blank_def py_strip_def
      py_isspace_def open_sandbox_def request_def decide_def execute_def execute_body_def list_notes_def
      transaction_def new_sandbox_file_def existing_def new_row_def select_key_def insert_row_def
      update_row_def)

lemma mk_scenario_operation: "i \<in> {''op-1'', ''op-loop'', ''op-race''} \<Longrightarrow> scenario_operation i =
    Inr \<lparr>xo_provider = ''provider-a'', xo_operation_id = i, xo_tool = ''create_record'', xo_payload = ''payload-v1''\<rparr>"
  by (auto simp: scenario_operation_def mk_ExternalOperation_def blank_def py_strip_def py_isspace_def)

lemma scenario_evidence:
  "0 \<le> n \<Longrightarrow> mk_ProviderEvidence (present_evidence op n) = Inr (present_evidence op n)"
  "0 \<le> n \<Longrightarrow> mk_ProviderEvidence (absent_evidence op n) = Inr (absent_evidence op n)"
  by (simp_all add: mk_ProviderEvidence_def present_evidence_def absent_evidence_def)

lemma scenario_decision:
  "reconcile_lost_ack op (present_evidence op n) = Inr accept_decision"
  "reconcile_lost_ack op (absent_evidence op n) = Inr (retry_decision n op)"
  by (simp_all add: reconcile_lost_ack_def present_evidence_def absent_evidence_def)

lemma provider_present_passes: "passes ''provider_present_suppresses_retry'' provider_present_suppresses_retry"
  by (simp add: provider_present_suppresses_retry_def mk_scenario_operation scenario_evidence scenario_decision)
    (simp add: accept_decision_def)

lemma stale_readback_passes: "passes ''stale_readback_revision_fails_closed'' stale_readback_revision_fails_closed"
  by (simp add: stale_readback_revision_fails_closed_def mk_scenario_operation scenario_evidence scenario_decision
      sequencing mk_VersionedProviderState_def apply_conditional_retry_def retry_decision_def)

lemma stale_checkpoint_passes:
  "passes ''stale_checkpoint_lineage_fails_closed'' (stale_checkpoint_lineage_fails_closed d)"
  by (simp add: stale_checkpoint_lineage_fails_closed_def sequencing Let_def mk_RecoveryOperation_def
      blank_def py_strip_def py_isspace_def open_recovery_def start_def start_txn_def advance_def
      advance_txn_def resume_def materialize_plan_def load_checkpoint_def checkpoint_from_row_def
      checkpoint_to_row_def insert_checkpoint_def slice_from_def transaction_def new_recovery_file_def
      select_key_def insert_row_def update_row_def fits_int64_def)

lemma evidence_revision [simp]:
  "pe_readback_revision (present_evidence op n) = Some n" "pe_readback_revision (absent_evidence op n) = Some n"
  by (simp_all add: present_evidence_def absent_evidence_def)

lemma accept_decision_fields [simp]:
  "rd_should_retry accept_decision = False" "rd_action accept_decision = ''accept_remote_commit''"
  "rd_retry_precondition_revision accept_decision = None" "accept_decision \<noteq> retry_decision n op"
  "retry_decision n op \<noteq> accept_decision"
  by (simp_all add: accept_decision_def retry_decision_def)

lemma retry_decision_fields [simp]:
  "rd_should_retry (retry_decision n op) = True" "rd_action (retry_decision n op) = ''retry_exact_operation''"
  "rd_retry_precondition_revision (retry_decision n op) = Some n"
  "rd_retry_effect_sha256 (retry_decision n op) = Some (effect_sha256 op)"
  by (simp_all add: retry_decision_def)

lemmas lineage_steps = open_lineage_def record_evidence_def scenario_decision not_nonempty_str_def
  blank_def py_strip_def py_isspace_def transaction_def record_candidate_def check_head_def write_head_def
  op_key_def fits_int64_def record_from_head mk_VersionedProviderState_def
  apply_retry_def assert_current_def current_head_def apply_conditional_retry_def mark_reconciled_def

lemma restart_evidence_passes:
  "passes ''restart_evidence_supersedes_retry'' (restart_evidence_supersedes_retry d)"
  by (simp add: restart_evidence_supersedes_retry_def sequencing Let_def mk_scenario_operation
      scenario_evidence lineage_steps new_lineage_file_def)

lemma repeated_lost_ack_passes:
  "passes ''repeated_lost_ack_converges'' (repeated_lost_ack_converges d)"
  by (simp add: repeated_lost_ack_converges_def sequencing Let_def mk_scenario_operation
      scenario_evidence lineage_steps new_lineage_file_def completion_from_row_def)

text \<open>The provider before and after the one write of the race.\<close>

definition provider_before :: "ExternalOperation \<Rightarrow> provider_db" where
  "provider_before op = \<lparr>provider_revisions = [(xo_provider op, 0)], provider_effects = []\<rparr>"

definition provider_after :: "ExternalOperation \<Rightarrow> provider_db" where
  "provider_after op =
     \<lparr>provider_revisions = [(xo_provider op, 1)],
      provider_effects = [((xo_provider op, xo_operation_id op), (xo_tool op, xo_payload op))]\<rparr>"

definition well_formed :: "ExternalOperation \<Rightarrow> bool" where
  "well_formed op \<longleftrightarrow>
     mk_ExternalOperation (PStr (xo_provider op)) (PStr (xo_operation_id op)) (PStr (xo_tool op))
       (PStr (xo_payload op)) = Inr op"

lemmas provider_steps = transaction_def snapshot_in_transaction_def insert_row_def provider_rows_def
  mk_VersionedProviderState_def select_key_def provider_before_def provider_after_def well_formed_def

lemma race_read_before:
  "read_operation op new_provider_file = (Inr (absent_evidence op 0), provider_before op)"
  by (simp add: read_operation_def provider_steps new_provider_file_def mk_ProviderEvidence_def absent_evidence_def)

lemma race_first_write:
  "conditional_apply op (retry_decision 0 op) (provider_before op) =
     (Inr \<lparr>vp_revision = 1, vp_effects = [op]\<rparr>, provider_after op)"
  by (simp add: conditional_apply_def apply_conditional_retry_def provider_steps update_row_def fits_int64_def)

lemma race_second_write:
  "well_formed op \<Longrightarrow> conditional_apply op (retry_decision 0 op) (provider_after op) =
     (raise StaleProviderReadback
        ''provider revision changed after the absence readback; retry must be reconciled again'',
      provider_after op)"
  by (simp add: conditional_apply_def apply_conditional_retry_def provider_steps)

lemma race_read_after:
  "well_formed op \<Longrightarrow> read_operation op (provider_after op) = (Inr (present_evidence op 1), provider_after op)"
  by (simp add: read_operation_def provider_steps mk_ProviderEvidence_def present_evidence_def)

lemma race_snapshot:
  "well_formed op \<Longrightarrow> \<not> blank (xo_provider op) \<Longrightarrow>
     snapshot (PStr (xo_provider op)) (provider_after op) =
       (Inr \<lparr>vp_revision = 1, vp_effects = [op]\<rparr>, provider_after op)"
  by (simp add: snapshot_def provider_steps)

lemma competing_retry_passes:
  "passes ''competing_retry_authorities_converge'' (competing_retry_authorities_converge d)"
proof -
  let ?op = "\<lparr>xo_provider = ''provider-a'', xo_operation_id = ''op-race'',
    xo_tool = ''create_record'', xo_payload = ''payload-v1''\<rparr>"
  have wf: "well_formed ?op" "\<not> blank (xo_provider ?op)"
    by (simp_all add: well_formed_def mk_ExternalOperation_def blank_def py_strip_def py_isspace_def)
  have "scenario_operation ''op-race'' = Inr ?op" by (simp add: mk_scenario_operation)
  then show ?thesis
    using race_read_before [of ?op] race_first_write [of ?op] race_second_write [OF wf(1)]
      race_read_after [OF wf(1)] race_snapshot [OF wf]
    by (simp add: competing_retry_authorities_converge_def sequencing Let_def
        lineage_steps new_lineage_file_def completion_from_row_def open_provider_def)
qed

subsection \<open>Properties\<close>

text \<open>Every runner of the table reports its own identity and passes, in any temporary directory.\<close>

lemma runner_passes: "map_of scenario_runners name = Some runner \<Longrightarrow> passes name (runner d)"
proof -
  assume "map_of scenario_runners name = Some runner"
  then have "(name, runner) \<in> set scenario_runners" by (rule map_of_SomeD)
  then show ?thesis
    unfolding scenario_runners_def
    by (auto simp: stale_child_passes lost_ack_passes terminal_conflict_passes approval_mutation_passes
      durable_restart_passes stale_checkpoint_passes provider_present_passes stale_readback_passes
      restart_evidence_passes repeated_lost_ack_passes competing_retry_passes)
qed

lemma count_if_le: "count_if p xs \<le> length xs"
  by (simp add: count_if_def)

lemma count_if_all: "count_if p xs = length xs \<longleftrightarrow> (\<forall>x \<in> set xs. p x)"
  unfolding count_if_def by (metis filter_id_conv length_filter_less less_irrefl filter_True)

lemma rate_bounds: "a \<le> b \<Longrightarrow> 0 \<le> rate_or_one a b \<and> rate_or_one a b \<le> 1"
  by (simp add: rate_or_one_def field_simps)

lemma rate_one: "a \<le> b \<Longrightarrow> rate_or_one a b = 1 \<longleftrightarrow> a = b"
  by (auto simp: rate_or_one_def field_simps)

lemma rate_of_count:
  "0 \<le> rate_or_one (count_if p xs) (length xs)" "rate_or_one (count_if p xs) (length xs) \<le> 1"
  "rate_or_one (count_if p xs) (length xs) = 1 \<longleftrightarrow> (\<forall>x \<in> set xs. p x)"
  using rate_bounds [OF count_if_le, of p xs] rate_one [OF count_if_le, of p xs]
  by (simp_all add: count_if_all)

text \<open>The metrics of a nonempty list of results.\<close>

lemma summarize_rates:
  assumes "summarize_results results = Inr m"
  shows "results \<noteq> []" "em_scenario_count m = length results"
    "em_scenario_pass_rate m = rate_or_one (count_if sr_passed results) (length results)"
    "em_safety_pass_rate m =
       rate_or_one (count_if (\<lambda>r. sr_safety_passed r = Some True) (filter sr_safety_applicable results))
         (length (filter sr_safety_applicable results))"
    "em_convergence_pass_rate m =
       rate_or_one (count_if (\<lambda>r. sr_convergence_passed r = Some True) (filter sr_convergence_applicable results))
         (length (filter sr_convergence_applicable results))"
    "em_fail_closed_pass_rate m =
       rate_or_one (count_if (\<lambda>r. sr_fail_closed_passed r = Some True) (filter sr_fail_closed_applicable results))
         (length (filter sr_fail_closed_applicable results))"
    "em_duplicate_effect_violations m = sum_list (map sr_duplicate_effect_violations results)"
    "em_all_scenarios_passed m \<longleftrightarrow> count_if sr_passed results = length results"
    "em_scenario_passed m = count_if sr_passed results"
proof -
  show ne: "results \<noteq> []" using assms by (auto simp: summarize_results_def)
  note m = assms [unfolded summarize_results_def Let_def, simplified ne if_False sum.inject, symmetric]
  show "em_scenario_count m = length results"
    "em_scenario_pass_rate m = rate_or_one (count_if sr_passed results) (length results)"
    "em_safety_pass_rate m =
       rate_or_one (count_if (\<lambda>r. sr_safety_passed r = Some True) (filter sr_safety_applicable results))
         (length (filter sr_safety_applicable results))"
    "em_convergence_pass_rate m =
       rate_or_one (count_if (\<lambda>r. sr_convergence_passed r = Some True) (filter sr_convergence_applicable results))
         (length (filter sr_convergence_applicable results))"
    "em_fail_closed_pass_rate m =
       rate_or_one (count_if (\<lambda>r. sr_fail_closed_passed r = Some True) (filter sr_fail_closed_applicable results))
         (length (filter sr_fail_closed_applicable results))"
    "em_duplicate_effect_violations m = sum_list (map sr_duplicate_effect_violations results)"
    "em_all_scenarios_passed m \<longleftrightarrow> count_if sr_passed results = length results"
    "em_scenario_passed m = count_if sr_passed results"
    unfolding m using ne by (simp_all add: rate_or_one_def)
qed

text \<open>
  The summary of any nonempty list of results has every rate between 0 and 1; a pass rate of 1
  means that every scenario passed, which is the flag's meaning too; and the empty list raises.
\<close>

theorem summary_bounds:
  "(returns (summarize_results results) \<longleftrightarrow> results \<noteq> []) \<and>
   (raises ValueError (summarize_results results) \<longleftrightarrow> results = []) \<and>
   (\<forall>m. summarize_results results = Inr m \<longrightarrow>
      em_scenario_passed m \<le> em_scenario_count m \<and>
      0 \<le> em_scenario_pass_rate m \<and> em_scenario_pass_rate m \<le> 1 \<and>
      0 \<le> em_safety_pass_rate m \<and> em_safety_pass_rate m \<le> 1 \<and>
      0 \<le> em_convergence_pass_rate m \<and> em_convergence_pass_rate m \<le> 1 \<and>
      0 \<le> em_fail_closed_pass_rate m \<and> em_fail_closed_pass_rate m \<le> 1 \<and>
      (em_scenario_pass_rate m = 1 \<longleftrightarrow> (\<forall>r \<in> set results. sr_passed r)) \<and>
      (em_all_scenarios_passed m \<longleftrightarrow> (\<forall>r \<in> set results. sr_passed r)) \<and>
      (em_safety_pass_rate m = 1 \<longleftrightarrow>
         (\<forall>r \<in> set results. sr_safety_applicable r \<longrightarrow> sr_safety_passed r = Some True)))"
proof -
  have "em_scenario_passed m \<le> em_scenario_count m \<and>
      0 \<le> em_scenario_pass_rate m \<and> em_scenario_pass_rate m \<le> 1 \<and>
      0 \<le> em_safety_pass_rate m \<and> em_safety_pass_rate m \<le> 1 \<and>
      0 \<le> em_convergence_pass_rate m \<and> em_convergence_pass_rate m \<le> 1 \<and>
      0 \<le> em_fail_closed_pass_rate m \<and> em_fail_closed_pass_rate m \<le> 1 \<and>
      (em_scenario_pass_rate m = 1 \<longleftrightarrow> (\<forall>r \<in> set results. sr_passed r)) \<and>
      (em_all_scenarios_passed m \<longleftrightarrow> (\<forall>r \<in> set results. sr_passed r)) \<and>
      (em_safety_pass_rate m = 1 \<longleftrightarrow>
         (\<forall>r \<in> set results. sr_safety_applicable r \<longrightarrow> sr_safety_passed r = Some True))"
    if "summarize_results results = Inr m" for m
    by (auto simp: summarize_rates [OF that] rate_of_count count_if_le count_if_all)
  then show ?thesis by (auto simp: summarize_results_def Let_def)
qed

theorem summary_bounds_witness:
  "\<exists>m. summarize_results [scenario_result ''a'' True (Some True) None None 0 '''',
                          scenario_result ''b'' False (Some False) None None 1 ''''] = Inr m \<and>
       em_scenario_pass_rate m \<le> 1 \<and> em_scenario_pass_rate m \<noteq> 1"
proof -
  let ?rs = "[scenario_result ''a'' True (Some True) None None 0 '''',
              scenario_result ''b'' False (Some False) None None 1 '''']"
  obtain m where m: "summarize_results ?rs = Inr m" by (simp add: summarize_results_def Let_def)
  then show ?thesis using summary_bounds [of ?rs] by (auto simp: scenario_result_def)
qed

lemma clean_pass_summary:
  assumes "\<forall>r \<in> set results. clean_pass (sr_scenario_id r) r" and m: "summarize_results results = Inr m"
  shows "em_scenario_pass_rate m = 1 \<and> em_safety_pass_rate m = 1 \<and> em_convergence_pass_rate m = 1 \<and>
    em_fail_closed_pass_rate m = 1 \<and> em_duplicate_effect_violations m = 0 \<and> em_all_scenarios_passed m"
proof -
  have "sum_list (map sr_duplicate_effect_violations results) = 0"
    using assms(1) by (induction results) (auto simp: clean_pass_def)
  then show ?thesis
    using assms(1) by (simp add: summarize_rates [OF m] rate_of_count count_if_all clean_pass_def)
qed

lemma check_applicability_Inr:
  "check_applicability i item res = Inr r \<longleftrightarrow>
     r = res \<and> py_get item ''safety_required'' = PBool (sr_safety_applicable res) \<and>
     py_get item ''convergence_required'' = PBool (sr_convergence_applicable res) \<and>
     py_get item ''fail_closed_required'' = PBool (sr_fail_closed_applicable res)"
  by (auto simp: check_applicability_def)

definition matches_fixture :: "(pyval \<Rightarrow> string) \<Rightarrow> items \<Rightarrow> ScenarioResult \<Rightarrow> bool" where
  "matches_fixture repr item r \<longleftrightarrow>
     py_str repr (get_or item ''id'' (PStr [])) = sr_scenario_id r \<and>
     py_str repr (get_or item ''runner'' (PStr [])) = sr_scenario_id r \<and>
     py_get item ''safety_required'' = PBool (sr_safety_applicable r) \<and>
     py_get item ''convergence_required'' = PBool (sr_convergence_applicable r) \<and>
     py_get item ''fail_closed_required'' = PBool (sr_fail_closed_applicable r)"

lemma run_fixture_Inr:
  assumes "run_fixture repr dirs (n, v) = Inr r"
  obtains item where "v = PDict item" "matches_fixture repr item r" "clean_pass (sr_scenario_id r) r"
proof -
  from assms obtain item where item: "as_items v = Some item"
    by (auto simp: run_fixture_def split: option.splits)
  then have v: "v = PDict item" by (cases v) auto
  with assms obtain runner res where run: "map_of scenario_runners (py_str repr (get_or item ''runner'' (PStr []))) = Some runner"
    "runner (dirs n) = Inr res" and r: "sr_scenario_id res = py_str repr (get_or item ''id'' (PStr []))"
    "check_applicability (py_str repr (get_or item ''id'' (PStr []))) item res = Inr r"
    by (auto simp: run_fixture_def Let_def bind_result_Inr_iff split: option.splits if_splits)
  have "clean_pass (py_str repr (get_or item ''runner'' (PStr []))) res"
    using runner_passes [OF run(1), of "dirs n"] run(2) by (simp add: passes_def)
  then show ?thesis
    using that [OF v] r by (simp add: check_applicability_Inr matches_fixture_def clean_pass_def)
qed

lemma run_manifest_Inr:
  assumes "map_result (run_fixture repr dirs) (enumerate n vs) = Inr results"
  shows "\<exists>fixtures. vs = map PDict fixtures \<and> list_all2 (matches_fixture repr) fixtures results \<and>
    (\<forall>r \<in> set results. clean_pass (sr_scenario_id r) r)"
  using assms
proof (induction vs arbitrary: n results)
  case Nil
  then show ?case by simp
next
  case (Cons v vs)
  then obtain r rs where r: "run_fixture repr dirs (n, v) = Inr r" and rs: "results = r # rs"
    "map_result (run_fixture repr dirs) (enumerate (Suc n) vs) = Inr rs"
    by (auto simp: bind_result_Inr_iff)
  from r obtain item where "v = PDict item" "matches_fixture repr item r" "clean_pass (sr_scenario_id r) r"
    by (rule run_fixture_Inr)
  moreover from Cons.IH [OF rs(2)] obtain fixtures where "vs = map PDict fixtures"
    "list_all2 (matches_fixture repr) fixtures rs" "\<forall>r \<in> set rs. clean_pass (sr_scenario_id r) r" by blast
  ultimately show ?case using rs(1) by (intro exI [of _ "item # fixtures"]) simp
qed

lemma evaluation_report_facts:
  assumes "evaluate repr directories protocol manifest bytes = Inr report"
  shows "py_get protocol ''status'' = PStr ''frozen_unexecuted'' \<and>
    ev_scenario_manifest_sha256 report = PStr (sha256_hex bytes) \<and>
    (\<exists>fixtures. py_get manifest ''scenarios'' = PList (map PDict fixtures) \<and> fixtures \<noteq> [] \<and>
       list_all2 (matches_fixture repr) fixtures (ev_scenario_results report)) \<and>
    em_scenario_pass_rate (ev_metrics report) = 1 \<and> em_safety_pass_rate (ev_metrics report) = 1 \<and>
    em_convergence_pass_rate (ev_metrics report) = 1 \<and> em_fail_closed_pass_rate (ev_metrics report) = 1 \<and>
    em_duplicate_effect_violations (ev_metrics report) = 0"
proof -
  from assms have status: "py_get protocol ''status'' = PStr ''frozen_unexecuted''"
    by (auto simp: evaluate_def split: if_splits)
  with assms obtain frozen where frozen: "as_items (py_get protocol ''scenario_manifest'') = Some frozen"
    by (auto simp: evaluate_def split: option.splits)
  with assms status have sha: "py_get frozen ''sha256'' = PStr (sha256_hex bytes)"
    by (auto simp: evaluate_def split: if_splits)
  with assms status frozen obtain results metrics p s c where
    run: "run_scenario_manifest repr directories manifest = Inr results"
    and metrics: "summarize_results results = Inr metrics"
    and s: "member_item frozen ''sha256'' = Inr s"
    and report: "report = \<lparr>ev_protocol_id = p, ev_scenario_manifest_sha256 = s, ev_scenario_results = results,
      ev_metrics = metrics, ev_claim_boundary = c\<rparr>"
    by (auto simp: evaluate_def bind_result_Inr_iff)
  have "s = PStr (sha256_hex bytes)" using s sha by (auto simp: member_item_def py_get_def split: option.splits)
  moreover from run obtain vs where vs: "as_list (py_get manifest ''scenarios'') = Some vs"
    "map_result (run_fixture repr directories) (enumerate 0 vs) = Inr results"
    by (auto simp: run_scenario_manifest_def split: option.splits)
  moreover from vs(1) have "py_get manifest ''scenarios'' = PList vs"
    by (cases "py_get manifest ''scenarios''") auto
  moreover from run_manifest_Inr [OF vs(2)] obtain fixtures where "vs = map PDict fixtures"
    "list_all2 (matches_fixture repr) fixtures results"
    and clean: "\<forall>r \<in> set results. clean_pass (sr_scenario_id r) r" by blast
  moreover have "results \<noteq> []" using summarize_rates(1) [OF metrics] .
  ultimately show ?thesis
    using status report clean_pass_summary [OF clean metrics] by auto
qed

text \<open>
  C25: An evaluation that returns a report had a frozen protocol whose pinned digest is that of the
  manifest's bytes; it reports one result per fixture, in order, with the fixture's identity and
  dimensions; and every rate it reports is 1, with no duplicate effect, whichever scenarios the
  manifest selects.
\<close>

theorem evaluation_report_is_clean:
  assumes "evaluate repr directories protocol manifest bytes = Inr report"
  shows "py_get protocol ''status'' = PStr ''frozen_unexecuted'' \<and>
    ev_scenario_manifest_sha256 report = PStr (sha256_hex bytes) \<and>
    (\<exists>fixtures. py_get manifest ''scenarios'' = PList (map PDict fixtures) \<and> fixtures \<noteq> [] \<and>
       list_all2 (matches_fixture repr) fixtures (ev_scenario_results report)) \<and>
    em_scenario_pass_rate (ev_metrics report) = 1 \<and> em_safety_pass_rate (ev_metrics report) = 1 \<and>
    em_convergence_pass_rate (ev_metrics report) = 1 \<and> em_fail_closed_pass_rate (ev_metrics report) = 1 \<and>
    em_duplicate_effect_violations (ev_metrics report) = 0"
  using assms by (rule evaluation_report_facts)

definition sample_protocol :: items where
  "sample_protocol =
     [(''status'', PStr ''frozen_unexecuted''), (''scenario_manifest'', PDict [(''sha256'', PStr (sha256_hex []))]),
      (''protocol_id'', PStr ''p''), (''claim_boundary'', PNone)]"

definition sample_manifest :: items where
  "sample_manifest =
     [(''scenarios'', PList [PDict [(''id'', PStr ''lost_ack_retry_idempotency''),
         (''runner'', PStr ''lost_ack_retry_idempotency''), (''safety_required'', PBool True),
         (''convergence_required'', PBool True), (''fail_closed_required'', PBool False)]])]"

lemma sample_report:
  "\<exists>report. evaluate (\<lambda>_. []) (\<lambda>_. ''/tmp'') sample_protocol sample_manifest [] = Inr report"
proof -
  have lost_ack: "lost_ack_retry_idempotency =
      Inr (scenario_result ''lost_ack_retry_idempotency'' True (Some True) (Some True) None 0
        ''exact replay is suppressed by the stable operation identity'')"
    by code_simp
  have "map_of scenario_runners ''lost_ack_retry_idempotency'' = Some (\<lambda>_. lost_ack_retry_idempotency)"
    by (simp add: scenario_runners_def)
  then have run: "run_scenario_manifest (\<lambda>_. []) (\<lambda>_. ''/tmp'') sample_manifest =
      Inr [scenario_result ''lost_ack_retry_idempotency'' True (Some True) (Some True) None 0
        ''exact replay is suppressed by the stable operation identity'']"
    by (simp add: run_scenario_manifest_def sample_manifest_def py_get_def run_fixture_def get_or_def
        py_str_def lost_ack check_applicability_def scenario_result_def)
  then have "returns (evaluate (\<lambda>_. []) (\<lambda>_. ''/tmp'') sample_protocol sample_manifest [])"
    by (simp add: evaluate_def sample_protocol_def py_get_def summarize_results_def Let_def member_item_def)
  then show ?thesis by (simp add: returns_iff)
qed

theorem evaluation_report_is_clean_witness:
  "\<exists>report. evaluate (\<lambda>_. []) (\<lambda>_. ''/tmp'') sample_protocol sample_manifest [] = Inr report \<and>
     em_scenario_pass_rate (ev_metrics report) = 1"
proof -
  obtain report where "evaluate (\<lambda>_. []) (\<lambda>_. ''/tmp'') sample_protocol sample_manifest [] = Inr report"
    using sample_report by blast
  with evaluation_report_is_clean [OF this] show ?thesis by blast
qed

end
