(* ===== verification/ReleaseGate.thy ===== *)
theory ReleaseGate
  imports Documents Digest
begin

section \<open>The combined release gate\<close>

text \<open>
  \<open>evals/release_gate_v1/evaluate.py\<close>: whether the pinned publications of the two evaluations
  together allow a release. What the script takes from outside is an \<open>environment\<close>: the files
  below the repository root, the Git objects, the JSON parser and the processes it starts.
\<close>

subsection \<open>What the scripts see of the world\<close>

text \<open>
  \<open>files\<close> gives the bytes of \<open>repo / path\<close> when that is a regular file; \<open>blobs\<close> what
  \<open>git show commit:path\<close> prints when it succeeds; \<open>exit_code\<close> the return code of a Python process
  that runs the file. Reading JSON ends in a value, in an exception that the scripts catch
  (\<open>Inr None\<close>: \<open>JSONDecodeError\<close>), or in one that they do not
  (\<open>UnicodeDecodeError\<close>, a \<open>ValueError\<close>).
\<close>

record environment =
  files :: "string \<Rightarrow> 8 word list option"
  blobs :: "string \<Rightarrow> string \<Rightarrow> 8 word list option"
  read_json :: "8 word list \<Rightarrow> pyval option result"
  exit_code :: "string \<Rightarrow> int"

definition is_file :: "environment \<Rightarrow> string \<Rightarrow> bool" where
  "is_file env path \<longleftrightarrow> files env path \<noteq> None"

definition file_sha256 :: "environment \<Rightarrow> string \<Rightarrow> string" where
  "file_sha256 env path = (case files env path of None \<Rightarrow> [] | Some bytes \<Rightarrow> sha256_hex bytes)"

subsection \<open>One source\<close>

record source_report =
  sv_source_id :: string
  sv_passed :: bool
  sv_checks :: "(string \<times> bool) list"
  sv_errors :: "string list"

text \<open>
  The loop state of \<open>evaluate_source\<close>: the checks in the order of their assignment and the errors.
  Nearly every check is \<open>checks[name] = ok\<close> followed by \<open>if not ok: errors.append(error)\<close>.
\<close>

record checklist =
  c_checks :: "(string \<times> bool) list"
  c_errors :: "string list"

definition note_check :: "string \<Rightarrow> bool \<Rightarrow> string \<Rightarrow> checklist \<Rightarrow> checklist" where
  "note_check name ok error st =
     \<lparr>c_checks = c_checks st @ [(name, ok)], c_errors = flag (\<not> ok) error (c_errors st)\<rparr>"

definition check_blob_identity :: "environment \<Rightarrow> string \<Rightarrow> string \<Rightarrow> string \<Rightarrow> bool \<times> string" where
  "check_blob_identity env commit path expected_sha256 =
     (case blobs env commit path of
        None \<Rightarrow> (False, ''pinned_git_blob_missing'')
      | Some payload \<Rightarrow>
          if sha256_hex payload \<noteq> expected_sha256 then (False, ''pinned_git_blob_sha256_mismatch'')
          else (True, ''ok''))"

definition source_identities :: "items \<Rightarrow> (string \<times> pyval \<times> pyval \<times> pyval) list" where
  "source_identities source =
     [(''protocol'', py_get source ''freeze_commit_sha'', py_get source ''protocol_path'',
        py_get source ''protocol_sha256''),
      (''result'', py_get source ''result_commit_sha'', py_get source ''result_path'',
        py_get source ''result_sha256''),
      (''result_verifier'', py_get source ''result_commit_sha'', py_get source ''result_verifier_path'',
        py_get source ''result_verifier_sha256'')]"

definition check_identity_of :: "environment \<Rightarrow> string \<times> pyval \<times> pyval \<times> pyval \<Rightarrow> checklist \<Rightarrow> checklist" where
  "check_identity_of env identity st =
     (case identity of (label, commit, relpath, expected_sha) \<Rightarrow>
        if not_text commit \<or> not_text relpath \<or> not_text expected_sha
        then note_check (label @ ''_identity_complete'') False (label @ ''_identity_incomplete'') st
        else
          let path = str_of relpath; expected = str_of expected_sha;
              st = note_check (label @ ''_present'') (is_file env path) (label @ ''_missing'') st in
          if \<not> is_file env path then st
          else
            let st = note_check (label @ ''_current_sha256_matches'') (file_sha256 env path = expected)
                       (label @ ''_current_sha256_mismatch'') st;
                (blob_ok, blob_error) = check_blob_identity env (str_of commit) path expected in
            note_check (label @ ''_pinned_commit_sha256_matches'') blob_ok (label @ ''_'' @ blob_error) st)"

text \<open>The publication itself: a file that is not a JSON object is no result.\<close>

definition load_result :: "environment \<Rightarrow> items \<Rightarrow> items option result" where
  "load_result env source =
     (case py_get source ''result_path'' of
        PStr path \<Rightarrow>
          (case files env path of
             None \<Rightarrow> Inr None
           | Some bytes \<Rightarrow>
               bind_result (read_json env bytes) (\<lambda>loaded.
                 Inr (case loaded of None \<Rightarrow> None | Some v \<Rightarrow> as_items v)))
      | _ \<Rightarrow> Inr None)"

definition check_pair :: "items \<Rightarrow> checklist \<Rightarrow> string \<times> pyval \<Rightarrow> checklist" where
  "check_pair res st pair =
     (case pair of (key, expected) \<Rightarrow>
        note_check (''result_'' @ key @ ''_matches'') (py_eq (py_get res key) expected)
          (''result_'' @ key @ ''_mismatch'') st)"

definition expected_pairs :: "items \<Rightarrow> (string \<times> pyval) list" where
  "expected_pairs source =
     [(''schema_version'', py_get source ''result_schema_version''),
      (''protocol_id'', py_get source ''protocol_id''),
      (''freeze_commit_sha'', py_get source ''freeze_commit_sha''),
      (''protocol_sha256'', py_get source ''protocol_sha256'')]"

definition gates_pass :: "pyval \<Rightarrow> bool" where
  "gates_pass gates =
     (case as_items gates of
        None \<Rightarrow> False
      | Some d \<Rightarrow>
          d \<noteq> [] \<and>
          list_all (\<lambda>(name, gate). case as_items gate of None \<Rightarrow> False | Some g \<Rightarrow> py_get g ''passed'' = PBool True) d)"

definition run_counts_ok :: "items \<Rightarrow> items \<Rightarrow> bool" where
  "run_counts_ok reproduction criteria =
     (case (as_int (py_get reproduction ''independent_runs_required''),
            as_int (py_get reproduction ''independent_runs_recorded''),
            as_int (py_get criteria ''minimum_source_independent_runs'')) of
        (Some required, Some recorded, Some minimum) \<Rightarrow> minimum \<le> required \<and> recorded = required
      | _ \<Rightarrow> False)"

definition check_reproduction :: "items \<Rightarrow> items \<Rightarrow> checklist \<Rightarrow> checklist" where
  "check_reproduction res criteria st =
     (case as_items (py_get res ''reproduction'') of
        None \<Rightarrow> note_check ''reproduction_object_present'' False ''reproduction_missing'' st
      | Some reproduction \<Rightarrow>
          let st = note_check ''reproduction_object_present'' True ''reproduction_missing'' st;
              count_ok = run_counts_ok reproduction criteria;
              byte_ok = (py_get reproduction ''normalized_output_byte_identical'' = PBool True);
              st = note_check ''source_independent_runs_satisfied'' count_ok
                     ''source_independent_runs_not_satisfied'' st in
          note_check ''source_normalized_output_byte_identical'' byte_ok
            ''source_normalized_output_not_byte_identical'' st)"

definition check_result :: "items \<Rightarrow> items \<Rightarrow> items option \<Rightarrow> checklist \<Rightarrow> checklist" where
  "check_result source criteria loaded st =
     (let st = note_check ''result_json_valid'' (loaded \<noteq> None) ''result_json_invalid'' st in
      case loaded of
        None \<Rightarrow> st
      | Some res \<Rightarrow>
          let st = foldl (check_pair res) st (expected_pairs source);
              st = note_check ''source_disposition_passes''
                     (py_eq (py_get res ''aggregate_disposition'') (py_get criteria ''required_source_disposition''))
                     ''source_disposition_not_release_ready'' st;
              st = note_check ''all_frozen_source_gates_pass'' (gates_pass (py_get res ''frozen_gates''))
                     ''frozen_source_gate_failure'' st in
          check_reproduction res criteria st)"

definition verifier_passes :: "environment \<Rightarrow> items \<Rightarrow> bool" where
  "verifier_passes env source =
     (case py_get source ''result_verifier_path'' of
        PStr path \<Rightarrow> is_file env path \<and> exit_code env path = 0
      | _ \<Rightarrow> False)"

text \<open>\<open>dict(sorted(checks.items()))\<close> and \<open>sorted(set(errors))\<close>.\<close>

definition source_result :: "string \<Rightarrow> checklist \<Rightarrow> source_report" where
  "source_result source_id st =
     \<lparr>sv_source_id = source_id, sv_passed = (c_errors st = []),
      sv_checks = sort_key fst (c_checks st), sv_errors = sort (remdups (c_errors st))\<rparr>"

definition evaluate_source ::
  "(pyval \<Rightarrow> string) \<Rightarrow> environment \<Rightarrow> items \<Rightarrow> items \<Rightarrow> source_report result" where
  "evaluate_source repr env criteria source =
     (let source_id = py_str repr (get_or source ''id'' (PStr ''unknown''));
          st = foldl (\<lambda>st identity. check_identity_of env identity st) \<lparr>c_checks = [], c_errors = []\<rparr>
                 (source_identities source) in
      bind_result (load_result env source) (\<lambda>loaded.
        let st = check_result source criteria loaded st;
            st = note_check ''source_result_verifier_passes'' (verifier_passes env source)
                   ''source_result_verifier_failed'' st in
        Inr (source_result source_id st)))"

subsection \<open>The whole manifest\<close>

record gate_report =
  gr_protocol_id :: pyval
  gr_evidence_set_id :: pyval
  gr_source_count :: nat
  gr_sources_passed :: nat
  gr_sources_failed :: nat
  gr_required_source_count_satisfied :: bool
  gr_source_results :: "source_report list"
  gr_release_ready :: bool

text \<open>\<open>for source in sources if isinstance(source, dict)\<close>\<close>

definition objects_of :: "pyval list \<Rightarrow> items list" where
  "objects_of vs = List.map_filter as_items vs"

definition gate_result :: "items \<Rightarrow> items \<Rightarrow> items \<Rightarrow> source_report list \<Rightarrow> gate_report" where
  "gate_result protocol evidence criteria results =
     (let count_ok = (as_int (py_get criteria ''required_source_count'') = Some (int (length results)));
          passed_count = length (filter sv_passed results) in
      \<lparr>gr_protocol_id = py_get protocol ''protocol_id'',
       gr_evidence_set_id = py_get evidence ''evidence_set_id'',
       gr_source_count = length results,
       gr_sources_passed = passed_count,
       gr_sources_failed = length results - passed_count,
       gr_required_source_count_satisfied = count_ok,
       gr_source_results = results,
       gr_release_ready = (count_ok \<and> passed_count = length results \<and> results \<noteq> [])\<rparr>)"

definition evaluate_manifest ::
  "(pyval \<Rightarrow> string) \<Rightarrow> environment \<Rightarrow> items \<Rightarrow> items \<Rightarrow> gate_report result" where
  "evaluate_manifest repr env protocol evidence =
     (case as_items (py_get protocol ''release_criteria'') of
        None \<Rightarrow> raise TypeError ''release_criteria must be an object''
      | Some criteria \<Rightarrow>
          (case as_list (py_get evidence ''sources'') of
             None \<Rightarrow> raise TypeError ''evidence sources must be a list''
           | Some sources \<Rightarrow>
               bind_result (map_result (evaluate_source repr env criteria) (objects_of sources)) (\<lambda>results.
                 Inr (gate_result protocol evidence criteria results))))"

subsection \<open>The scripts as processes\<close>

text \<open>A script that reads a JSON file, and the exit status of a script: 1 after an exception.\<close>

definition load_file :: "environment \<Rightarrow> string \<Rightarrow> pyval result" where
  "load_file env path =
     (case files env path of
        None \<Rightarrow> raise OSError ''No such file or directory''
      | Some bytes \<Rightarrow>
          bind_result (read_json env bytes) (\<lambda>loaded.
            case loaded of None \<Rightarrow> raise ValueError ''JSONDecodeError'' | Some v \<Rightarrow> Inr v))"

text \<open>\<open>v.get\<close> exists only on a dict.\<close>

definition mapping_of :: "pyval \<Rightarrow> items result" where
  "mapping_of v =
     (case as_items v of None \<Rightarrow> raise AttributeError ''object has no attribute get'' | Some d \<Rightarrow> Inr d)"

definition exit_status :: "int result \<Rightarrow> int" where
  "exit_status res = (case res of Inl e \<Rightarrow> 1 | Inr n \<Rightarrow> n)"

definition release_gate_main :: "(pyval \<Rightarrow> string) \<Rightarrow> environment \<Rightarrow> int result" where
  "release_gate_main repr env =
     bind_result (load_file env ''evals/release_gate_v1/PROTOCOL.json'') (\<lambda>protocol.
     bind_result (load_file env ''evals/release_gate_v1/EVIDENCE.json'') (\<lambda>evidence.
     bind_result (mapping_of protocol) (\<lambda>protocol.
     bind_result (mapping_of evidence) (\<lambda>evidence.
     bind_result (evaluate_manifest repr env protocol evidence) (\<lambda>report.
       Inr (if gr_release_ready report then 0 else 1))))))"

subsection \<open>What a source must be\<close>

text \<open>
  The conditions of the release gate's README, without checks and error lists: an artifact is
  pinned when the working tree and the named commit both hold it with the recorded digest.
\<close>

definition pinned :: "environment \<Rightarrow> pyval \<Rightarrow> pyval \<Rightarrow> pyval \<Rightarrow> bool" where
  "pinned env commit path sha \<longleftrightarrow>
     (\<exists>c p s current committed.
        commit = PStr c \<and> path = PStr p \<and> sha = PStr s \<and> c \<noteq> [] \<and> p \<noteq> [] \<and> s \<noteq> [] \<and>
        files env p = Some current \<and> blobs env c p = Some committed \<and>
        sha256_hex current = s \<and> sha256_hex committed = s)"

definition all_pinned :: "environment \<Rightarrow> items \<Rightarrow> bool" where
  "all_pinned env source \<longleftrightarrow>
     pinned env (py_get source ''freeze_commit_sha'') (py_get source ''protocol_path'')
       (py_get source ''protocol_sha256'') \<and>
     pinned env (py_get source ''result_commit_sha'') (py_get source ''result_path'')
       (py_get source ''result_sha256'') \<and>
     pinned env (py_get source ''result_commit_sha'') (py_get source ''result_verifier_path'')
       (py_get source ''result_verifier_sha256'')"

definition reproduced :: "items \<Rightarrow> items \<Rightarrow> bool" where
  "reproduced criteria res \<longleftrightarrow>
     (\<exists>reproduction runs minimum.
        py_get res ''reproduction'' = PDict reproduction \<and>
        as_int (py_get reproduction ''independent_runs_required'') = Some runs \<and>
        as_int (py_get reproduction ''independent_runs_recorded'') = Some runs \<and>
        as_int (py_get criteria ''minimum_source_independent_runs'') = Some minimum \<and> minimum \<le> runs \<and>
        py_get reproduction ''normalized_output_byte_identical'' = PBool True)"

definition all_gates_passed :: "items \<Rightarrow> bool" where
  "all_gates_passed res \<longleftrightarrow>
     (\<exists>gates. py_get res ''frozen_gates'' = PDict gates \<and> gates \<noteq> [] \<and>
        (\<forall>(name, gate) \<in> set gates. \<exists>g. gate = PDict g \<and> py_get g ''passed'' = PBool True))"

definition publication_qualifies :: "items \<Rightarrow> items \<Rightarrow> items \<Rightarrow> bool" where
  "publication_qualifies criteria source res \<longleftrightarrow>
     py_eq (py_get res ''schema_version'') (py_get source ''result_schema_version'') \<and>
     py_eq (py_get res ''protocol_id'') (py_get source ''protocol_id'') \<and>
     py_eq (py_get res ''freeze_commit_sha'') (py_get source ''freeze_commit_sha'') \<and>
     py_eq (py_get res ''protocol_sha256'') (py_get source ''protocol_sha256'') \<and>
     py_eq (py_get res ''aggregate_disposition'') (py_get criteria ''required_source_disposition'') \<and>
     all_gates_passed res \<and> reproduced criteria res"

definition source_qualifies :: "environment \<Rightarrow> items \<Rightarrow> items \<Rightarrow> bool" where
  "source_qualifies env criteria source \<longleftrightarrow>
     all_pinned env source \<and>
     (\<exists>res. load_result env source = Inr (Some res) \<and> publication_qualifies criteria source res) \<and>
     (\<exists>path. py_get source ''result_verifier_path'' = PStr path \<and> exit_code env path = 0)"

subsection \<open>The checklist implements the conditions\<close>

named_theorems clean_simps \<open>when a step of the checklist adds no error\<close>

lemma note_check_clean [clean_simps]: "c_errors (note_check name ok error st) = [] \<longleftrightarrow> ok \<and> c_errors st = []"
  by (auto simp: note_check_def flag_def)

lemma flag_clean: "flag b name names = [] \<longleftrightarrow> \<not> b \<and> names = []"
  by (simp add: flag_def)

lemma identity_step_clean [clean_simps]:
  "c_errors (check_identity_of env (label, commit, path, sha) st) = [] \<longleftrightarrow>
     pinned env commit path sha \<and> c_errors st = []"
proof (cases "not_text commit \<or> not_text path \<or> not_text sha")
  case True
  then have "\<not> pinned env commit path sha"
    by (auto simp: pinned_def not_text_def)
  with True show ?thesis by (simp add: check_identity_of_def clean_simps)
next
  case False
  then obtain c p s where "commit = PStr c" "path = PStr p" "sha = PStr s" "c \<noteq> []" "p \<noteq> []" "s \<noteq> []"
    using not_text_iff by metis
  with False show ?thesis
    by (cases "files env p"; cases "blobs env c p")
      (auto simp: check_identity_of_def clean_simps pinned_def is_file_def file_sha256_def
        check_blob_identity_def)
qed

lemma gates_pass_iff: "gates_pass (py_get res ''frozen_gates'') \<longleftrightarrow> all_gates_passed res"
proof (cases "py_get res ''frozen_gates''")
  case (PDict gates)
  have "(case as_items gate of None \<Rightarrow> False | Some g \<Rightarrow> py_get g ''passed'' = PBool True) \<longleftrightarrow>
      (\<exists>g. gate = PDict g \<and> py_get g ''passed'' = PBool True)" for gate
    by (cases gate) auto
  with PDict show ?thesis
    by (simp add: gates_pass_def all_gates_passed_def list_all_iff)
qed (simp_all add: gates_pass_def all_gates_passed_def)

lemma run_counts_iff:
  "run_counts_ok rep criteria \<longleftrightarrow>
     (\<exists>runs minimum. as_int (py_get rep ''independent_runs_required'') = Some runs \<and>
        as_int (py_get rep ''independent_runs_recorded'') = Some runs \<and>
        as_int (py_get criteria ''minimum_source_independent_runs'') = Some minimum \<and> minimum \<le> runs)"
  by (auto simp: run_counts_ok_def split: option.splits)

lemma check_reproduction_clean [clean_simps]:
  "c_errors (check_reproduction res criteria st) = [] \<longleftrightarrow> reproduced criteria res \<and> c_errors st = []"
proof (cases "py_get res ''reproduction''")
  case (PDict rep)
  then show ?thesis
    by (auto simp: check_reproduction_def clean_simps reproduced_def run_counts_iff Let_def)
qed (simp_all add: check_reproduction_def clean_simps reproduced_def)

lemma check_result_clean [clean_simps]:
  "c_errors (check_result source criteria loaded st) = [] \<longleftrightarrow>
     (\<exists>res. loaded = Some res \<and> publication_qualifies criteria source res) \<and> c_errors st = []"
  by (cases loaded)
    (auto simp: check_result_def clean_simps Let_def expected_pairs_def check_pair_def gates_pass_iff
      publication_qualifies_def)

lemma identities_clean:
  "c_errors (foldl (\<lambda>st identity. check_identity_of env identity st) st (source_identities source)) = [] \<longleftrightarrow>
     all_pinned env source \<and> c_errors st = []"
  by (auto simp: source_identities_def clean_simps all_pinned_def)

lemma verifier_passes_iff:
  assumes "all_pinned env source"
  shows "verifier_passes env source \<longleftrightarrow>
    (\<exists>path. py_get source ''result_verifier_path'' = PStr path \<and> exit_code env path = 0)"
  using assms by (auto simp: verifier_passes_def all_pinned_def pinned_def is_file_def)

lemma evaluate_source_passes:
  assumes "evaluate_source repr env criteria source = Inr rep"
  shows "sv_passed rep \<longleftrightarrow> source_qualifies env criteria source"
proof -
  obtain loaded where "load_result env source = Inr loaded"
    and rep: "rep = source_result (py_str repr (get_or source ''id'' (PStr ''unknown'')))
      (note_check ''source_result_verifier_passes'' (verifier_passes env source) ''source_result_verifier_failed''
        (check_result source criteria loaded
          (foldl (\<lambda>st identity. check_identity_of env identity st) \<lparr>c_checks = [], c_errors = []\<rparr>
            (source_identities source))))"
    using assms by (auto simp: evaluate_source_def bind_result_Inr_iff Let_def)
  then show ?thesis
    using verifier_passes_iff [of env source]
    by (auto simp: source_result_def clean_simps identities_clean source_qualifies_def)
qed

lemma evaluate_source_returns:
  "returns (evaluate_source repr env criteria source) \<longleftrightarrow> returns (load_result env source)"
  by (cases "load_result env source") (simp_all add: evaluate_source_def Let_def)

lemma evaluate_source_Inl:
  "evaluate_source repr env criteria source = Inl e \<Longrightarrow>
     \<exists>path bytes. files env path = Some bytes \<and> read_json env bytes = Inl e"
  by (auto simp: evaluate_source_def load_result_def Let_def bind_result_def
      split: pyval.splits option.splits sum.splits)

lemma objects_of_iff: "source \<in> set (objects_of sources) \<longleftrightarrow> PDict source \<in> set sources"
proof (induction sources)
  case (Cons v vs)
  then show ?case by (cases v) (auto simp: objects_of_def List.map_filter_simps)
qed (simp add: objects_of_def List.map_filter_simps)

lemma evaluate_manifest_Inr:
  "evaluate_manifest repr env protocol evidence = Inr rep \<longleftrightarrow>
     (\<exists>criteria sources results.
        py_get protocol ''release_criteria'' = PDict criteria \<and> py_get evidence ''sources'' = PList sources \<and>
        map_result (evaluate_source repr env criteria) (objects_of sources) = Inr results \<and>
        rep = gate_result protocol evidence criteria results)"
  by (cases "py_get protocol ''release_criteria''"; cases "py_get evidence ''sources''")
    (auto simp: evaluate_manifest_def bind_result_Inr_iff)

lemma ready_conditions:
  assumes "evaluate_manifest repr env protocol evidence = Inr rep"
  shows "gr_release_ready rep \<longleftrightarrow>
    (\<exists>criteria sources.
       py_get protocol ''release_criteria'' = PDict criteria \<and> py_get evidence ''sources'' = PList sources \<and>
       as_int (py_get criteria ''required_source_count'') = Some (int (length (objects_of sources))) \<and>
       objects_of sources \<noteq> [] \<and>
       (\<forall>source. PDict source \<in> set sources \<longrightarrow> source_qualifies env criteria source))"
proof -
  obtain criteria sources results where
    docs: "py_get protocol ''release_criteria'' = PDict criteria" "py_get evidence ''sources'' = PList sources"
    and results: "map_result (evaluate_source repr env criteria) (objects_of sources) = Inr results"
    and rep: "rep = gate_result protocol evidence criteria results"
    using assms unfolding evaluate_manifest_Inr by blast
  have "(\<forall>r \<in> set results. sv_passed r) \<longleftrightarrow> (\<forall>source \<in> set (objects_of sources). source_qualifies env criteria source)"
    using results evaluate_source_passes by (rule map_result_set)
  then have "length (filter sv_passed results) = length results \<longleftrightarrow>
      (\<forall>source. PDict source \<in> set sources \<longrightarrow> source_qualifies env criteria source)"
    by (auto simp: length_filter_all objects_of_iff)
  moreover have "length results = length (objects_of sources)"
    using results by (rule map_result_length)
  moreover from this have "results \<noteq> [] \<longleftrightarrow> objects_of sources \<noteq> []" by auto
  ultimately show ?thesis
    by (auto simp: rep gate_result_def Let_def docs)
qed

subsection \<open>When a release is ready\<close>

text \<open>
  C7: A manifest evaluation reports \<open>release_ready\<close> exactly when the manifest lists as many source
  objects as the criteria require, at least one, and every one of them qualifies: its three
  artifacts are pinned, its publication matches the recorded identities and the required
  disposition with all frozen gates passed and enough byte-identical runs, and its own verifier exits
  with 0.
\<close>

theorem release_ready_iff:
  assumes "evaluate_manifest repr env protocol evidence = Inr rep"
  shows "gr_release_ready rep \<longleftrightarrow>
    (\<exists>criteria sources.
       py_get protocol ''release_criteria'' = PDict criteria \<and> py_get evidence ''sources'' = PList sources \<and>
       as_int (py_get criteria ''required_source_count'') = Some (int (length (objects_of sources))) \<and>
       objects_of sources \<noteq> [] \<and>
       (\<forall>source. PDict source \<in> set sources \<longrightarrow> source_qualifies env criteria source))"
  using assms by (rule ready_conditions)

subsection \<open>A small repository\<close>

text \<open>Two artifacts of a source with their verifier, as the tests of the gate set them up.\<close>

definition sample_publication :: items where
  "sample_publication =
     [(''schema_version'', PStr ''synthetic.publication.v1''), (''protocol_id'', PStr ''synthetic-protocol''),
      (''freeze_commit_sha'', PStr ''freeze''), (''protocol_sha256'', PStr (sha256_hex [1])),
      (''aggregate_disposition'', PStr ''pass''),
      (''frozen_gates'', PDict [(''gate'', PDict [(''passed'', PBool True)])]),
      (''reproduction'', PDict [(''independent_runs_required'', PInt 2), (''independent_runs_recorded'', PInt 2),
         (''normalized_output_byte_identical'', PBool True)])]"

definition sample_source :: items where
  "sample_source =
     [(''id'', PStr ''synthetic''), (''protocol_id'', PStr ''synthetic-protocol''),
      (''freeze_commit_sha'', PStr ''freeze''), (''result_commit_sha'', PStr ''result''),
      (''protocol_path'', PStr ''protocol.json''), (''protocol_sha256'', PStr (sha256_hex [1])),
      (''result_path'', PStr ''result.json''), (''result_sha256'', PStr (sha256_hex [2])),
      (''result_schema_version'', PStr ''synthetic.publication.v1''),
      (''result_verifier_path'', PStr ''verify.py''), (''result_verifier_sha256'', PStr (sha256_hex [3]))]"

definition sample_files :: "string \<Rightarrow> 8 word list option" where
  "sample_files = map_of [(''protocol.json'', [1]), (''result.json'', [2]), (''verify.py'', [3])]"

definition sample_environment :: environment where
  "sample_environment =
     \<lparr>files = sample_files, blobs = (\<lambda>commit. sample_files),
      read_json = (\<lambda>bytes. Inr (Some (PDict sample_publication))), exit_code = (\<lambda>path. 0)\<rparr>"

definition sample_criteria :: items where
  "sample_criteria =
     [(''required_source_disposition'', PStr ''pass''), (''minimum_source_independent_runs'', PInt 2),
      (''required_source_count'', PInt 1)]"

definition sample_gate_protocol :: items where
  "sample_gate_protocol = [(''release_criteria'', PDict sample_criteria)]"

definition sample_gate_evidence :: items where
  "sample_gate_evidence = [(''sources'', PList [PDict sample_source])]"

lemma sha256_hex_nonempty [simp]: "sha256_hex bytes \<noteq> []"
  using length_sha256_hex [of bytes] by auto

lemma sample_load: "load_result sample_environment sample_source = Inr (Some sample_publication)"
  by (simp add: load_result_def py_get_def sample_source_def sample_environment_def sample_files_def)

lemma sample_pinned: "all_pinned sample_environment sample_source"
  by (simp add: all_pinned_def pinned_def py_get_def sample_source_def sample_environment_def sample_files_def)

lemma sample_publication_qualifies: "publication_qualifies sample_criteria sample_source sample_publication"
  by (simp add: publication_qualifies_def all_gates_passed_def reproduced_def py_get_def sample_publication_def
      sample_source_def sample_criteria_def)

lemma sample_qualifies: "source_qualifies sample_environment sample_criteria sample_source"
  by (simp add: source_qualifies_def sample_pinned sample_load sample_publication_qualifies)
    (simp add: py_get_def sample_source_def sample_environment_def)

lemma sample_documents:
  "py_get sample_gate_protocol ''release_criteria'' = PDict sample_criteria"
  "py_get sample_gate_evidence ''sources'' = PList [PDict sample_source]"
  "as_int (py_get sample_criteria ''required_source_count'') = Some 1"
  "objects_of [PDict sample_source] = [sample_source]"
  by (simp_all add: py_get_def sample_gate_protocol_def sample_gate_evidence_def sample_criteria_def objects_of_def
      List.map_filter_simps)

lemma sample_evaluates: "\<exists>rep. evaluate_manifest repr sample_environment sample_gate_protocol sample_gate_evidence = Inr rep"
  using evaluate_source_returns [of repr sample_environment sample_criteria sample_source]
  by (auto simp: evaluate_manifest_Inr sample_documents sample_load returns_iff)

theorem release_ready_iff_witness:
  "\<exists>rep. evaluate_manifest (\<lambda>v. []) sample_environment sample_gate_protocol sample_gate_evidence = Inr rep \<and>
     gr_release_ready rep"
proof -
  obtain rep where rep: "evaluate_manifest (\<lambda>v. []) sample_environment sample_gate_protocol sample_gate_evidence = Inr rep"
    using sample_evaluates by blast
  then show ?thesis
    using sample_qualifies by (auto simp: release_ready_iff [OF rep] sample_documents)
qed

text \<open>Two byte strings with one digest.\<close>

definition digest_collision :: "8 word list \<Rightarrow> 8 word list \<Rightarrow> bool" where
  "digest_collision a b \<longleftrightarrow> a \<noteq> b \<and> sha256_hex a = sha256_hex b"

definition same_bytes :: "environment \<Rightarrow> items \<Rightarrow> string \<Rightarrow> string \<Rightarrow> bool" where
  "same_bytes env source commit_field path_field \<longleftrightarrow>
     (\<exists>c p current committed.
        py_get source commit_field = PStr c \<and> py_get source path_field = PStr p \<and>
        files env p = Some current \<and> blobs env c p = Some committed \<and>
        (current = committed \<or> digest_collision current committed))"

lemma pinned_same_bytes:
  "pinned env (py_get source commit_field) (py_get source path_field) sha \<Longrightarrow>
     same_bytes env source commit_field path_field"
  by (auto simp: pinned_def same_bytes_def digest_collision_def)

lemma ready_source_qualifies:
  assumes "evaluate_manifest repr env protocol evidence = Inr rep" "gr_release_ready rep"
    and "py_get evidence ''sources'' = PList sources" "PDict source \<in> set sources"
  obtains criteria where "py_get protocol ''release_criteria'' = PDict criteria"
    "source_qualifies env criteria source"
proof -
  obtain criteria results where criteria: "py_get protocol ''release_criteria'' = PDict criteria"
    and results: "map_result (evaluate_source repr env criteria) (objects_of sources) = Inr results"
    and rep: "rep = gate_result protocol evidence criteria results"
    using assms(1) unfolding evaluate_manifest_Inr assms(3) by blast
  have "length (filter sv_passed results) = length results"
    using assms(2) by (simp add: rep gate_result_def Let_def)
  moreover have "(\<forall>r \<in> set results. sv_passed r) \<longleftrightarrow>
      (\<forall>source \<in> set (objects_of sources). source_qualifies env criteria source)"
    using results evaluate_source_passes by (rule map_result_set)
  ultimately have "source_qualifies env criteria source"
    using assms(4) by (simp add: length_filter_all objects_of_iff)
  with criteria show thesis by (rule that)
qed

text \<open>
  When a release is ready, the protocol, result and verifier of every source in the working tree
  are byte for byte those of the pinned commits, barring a SHA-256 collision.
\<close>

theorem ready_artifacts_are_committed:
  assumes "evaluate_manifest repr env protocol evidence = Inr rep" and "gr_release_ready rep"
    and "py_get evidence ''sources'' = PList sources" and "PDict source \<in> set sources"
  shows "same_bytes env source ''freeze_commit_sha'' ''protocol_path'' \<and>
    same_bytes env source ''result_commit_sha'' ''result_path'' \<and>
    same_bytes env source ''result_commit_sha'' ''result_verifier_path''"
proof -
  obtain criteria where "source_qualifies env criteria source"
    using assms by (rule ready_source_qualifies)
  then show ?thesis
    by (auto simp: source_qualifies_def all_pinned_def intro: pinned_same_bytes)
qed

theorem ready_artifacts_are_committed_witness:
  "same_bytes sample_environment sample_source ''result_commit_sha'' ''result_path''"
proof -
  obtain rep where rep: "evaluate_manifest (\<lambda>v. []) sample_environment sample_gate_protocol sample_gate_evidence = Inr rep"
    using sample_evaluates by blast
  have "gr_release_ready rep"
  proof -
    obtain results where r: "evaluate_source (\<lambda>v. []) sample_environment sample_criteria sample_source = Inr results"
      and "rep = gate_result sample_gate_protocol sample_gate_evidence sample_criteria [results]"
      using rep by (auto simp: evaluate_manifest_Inr sample_documents bind_result_Inr_iff)
    then show ?thesis
      using sample_qualifies evaluate_source_passes [OF r] by (simp add: gate_result_def Let_def sample_documents)
  qed
  from ready_artifacts_are_committed [OF rep this sample_documents(2)] show ?thesis by simp
qed

text \<open>
  The evaluation of a manifest returns exactly when the criteria are an object, the sources a
  list, and every existing result file of a source object can be read; otherwise it raises
  \<open>TypeError\<close> or what the JSON reader raised on a file of the repository.
\<close>

theorem evaluate_manifest_outcome:
  "(returns (evaluate_manifest repr env protocol evidence) \<longleftrightarrow>
      (\<exists>criteria sources.
         py_get protocol ''release_criteria'' = PDict criteria \<and> py_get evidence ''sources'' = PList sources \<and>
         (\<forall>source. PDict source \<in> set sources \<longrightarrow> returns (load_result env source)))) \<and>
   (\<forall>e. evaluate_manifest repr env protocol evidence = Inl e \<longrightarrow>
      fst e = TypeError \<or> (\<exists>path bytes. files env path = Some bytes \<and> read_json env bytes = Inl e))"
proof (cases "py_get protocol ''release_criteria''"; cases "py_get evidence ''sources''")
  fix criteria sources
  assume docs: "py_get protocol ''release_criteria'' = PDict criteria" "py_get evidence ''sources'' = PList sources"
  let ?m = "map_result (evaluate_source repr env criteria) (objects_of sources)"
  have run: "evaluate_manifest repr env protocol evidence =
      bind_result ?m (\<lambda>results. Inr (gate_result protocol evidence criteria results))"
    by (simp add: evaluate_manifest_def docs)
  have "returns ?m \<longleftrightarrow> (\<forall>source. PDict source \<in> set sources \<longrightarrow> returns (load_result env source))"
    by (auto simp: map_result_returns evaluate_source_returns objects_of_iff)
  moreover have "\<exists>path bytes. files env path = Some bytes \<and> read_json env bytes = Inl e" if "?m = Inl e" for e
    using map_result_Inl [OF that] evaluate_source_Inl by blast
  ultimately show ?thesis by (cases ?m) (auto simp: run docs)
qed (auto simp: evaluate_manifest_def)

theorem evaluate_manifest_outcome_witness:
  "returns (evaluate_manifest (\<lambda>v. []) sample_environment sample_gate_protocol sample_gate_evidence)"
  by (subst evaluate_manifest_outcome [THEN conjunct1]) (auto simp: sample_documents sample_load)

subsection \<open>The report of one source\<close>

text \<open>
  The names of all checks in the order of the code. Every run records some of them, in this order,
  so no assignment to the dict overwrites an earlier one.
\<close>

definition identity_checks :: "string \<Rightarrow> string list" where
  "identity_checks label =
     map (\<lambda>suffix. label @ suffix)
       [''_identity_complete'', ''_present'', ''_current_sha256_matches'', ''_pinned_commit_sha256_matches'']"

definition result_checks :: "string list" where
  "result_checks =
     [''result_json_valid'', ''result_schema_version_matches'', ''result_protocol_id_matches'',
      ''result_freeze_commit_sha_matches'', ''result_protocol_sha256_matches'', ''source_disposition_passes'',
      ''all_frozen_source_gates_pass'', ''reproduction_object_present'', ''source_independent_runs_satisfied'',
      ''source_normalized_output_byte_identical'']"

definition agrees :: "checklist \<Rightarrow> bool" where
  "agrees st \<longleftrightarrow> (c_errors st = [] \<longleftrightarrow> (\<forall>(name, ok) \<in> set (c_checks st). ok))"

definition check_names :: "checklist \<Rightarrow> string list" where
  "check_names st = map fst (c_checks st)"

lemma check_names_note [simp]: "check_names (note_check name ok error st) = check_names st @ [name]"
  by (simp add: check_names_def note_check_def)

lemma agrees_note [simp]: "agrees st \<Longrightarrow> agrees (note_check name ok error st)"
  by (auto simp: agrees_def note_check_def flag_def)

lemma agrees_identity [simp]: "agrees st \<Longrightarrow> agrees (check_identity_of env identity st)"
  by (auto simp: check_identity_of_def Let_def split: prod.splits)

lemma agrees_result [simp]: "agrees st \<Longrightarrow> agrees (check_result source criteria loaded st)"
  by (auto simp: check_result_def check_reproduction_def expected_pairs_def check_pair_def Let_def
      split: option.splits)

lemma names_identity:
  "\<exists>names. check_names (check_identity_of env (label, commit, path, sha) st) = check_names st @ names \<and>
     subseq names (identity_checks label)"
  by (auto simp: check_identity_of_def identity_checks_def Let_def split: prod.splits)

lemma names_result:
  "\<exists>names. check_names (check_result source criteria loaded st) = check_names st @ names \<and>
     subseq names result_checks"
  by (auto simp: check_result_def check_reproduction_def expected_pairs_def check_pair_def result_checks_def
      Let_def split: option.splits)

definition identity_names :: "string list" where
  "identity_names =
     identity_checks ''protocol'' @ identity_checks ''result'' @ identity_checks ''result_verifier''"

lemma names_identities:
  assumes "check_names st = []"
  shows "subseq (check_names (foldl (\<lambda>st identity. check_identity_of env identity st) st (source_identities source)))
    identity_names"
proof -
  define identity where "identity = check_identity_of env"
  have *: "\<exists>names. check_names (identity (label, commit, path, sha) st) = check_names st @ names \<and>
      subseq names (identity_checks label)" for label commit path sha st
    unfolding identity_def by (rule names_identity)
  have step: "subseq (check_names (identity (label, commit, path, sha) st)) (before @ identity_checks label)"
    if "subseq (check_names st) before" for label commit path sha st before
    using * [of label commit path sha st] that list_emb_append_mono by metis
  have "subseq (check_names st) []" by (simp add: assms)
  from step [OF step [OF step [OF this]]] show ?thesis
    by (simp add: source_identities_def identity_names_def identity_def)
qed

lemma names_distinct:
  "distinct ((identity_names @ result_checks) @ [''source_result_verifier_passes''])"
  by code_simp

lemma subseq_distinct: "subseq xs ys \<Longrightarrow> distinct ys \<Longrightarrow> distinct xs"
  by (auto simp: subseq_conv_nths distinct_nthsI)

lemma sort_remdups_Nil [simp]: "sort (remdups xs) = [] \<longleftrightarrow> xs = []"
  by (metis set_empty set_remdups set_sort)

lemma distinct_sort_key: "distinct (map fst (sort_key fst xs)) = distinct (map fst xs)"
  by (metis mset_eq_imp_distinct_iff mset_map mset_sort)

text \<open>
  The report of a source is consistent: it passes exactly when it lists no error, which is
  exactly when every check it lists is true; the checks are sorted by name, each name once, and the
  errors are sorted without repetition.
\<close>

theorem source_report_is_consistent:
  assumes "evaluate_source repr env criteria source = Inr rep"
  shows "(sv_passed rep \<longleftrightarrow> sv_errors rep = []) \<and>
    (sv_passed rep \<longleftrightarrow> (\<forall>(name, ok) \<in> set (sv_checks rep). ok)) \<and>
    sorted (map fst (sv_checks rep)) \<and> distinct (map fst (sv_checks rep)) \<and>
    sorted (sv_errors rep) \<and> distinct (sv_errors rep)"
proof -
  define identities where "identities =
    foldl (\<lambda>st identity. check_identity_of env identity st) \<lparr>c_checks = [], c_errors = []\<rparr> (source_identities source)"
  obtain loaded where rep: "rep = source_result (py_str repr (get_or source ''id'' (PStr ''unknown'')))
      (note_check ''source_result_verifier_passes'' (verifier_passes env source) ''source_result_verifier_failed''
        (check_result source criteria loaded identities))"
    using assms by (auto simp: evaluate_source_def bind_result_Inr_iff Let_def identities_def)
  define st where "st = note_check ''source_result_verifier_passes'' (verifier_passes env source)
    ''source_result_verifier_failed'' (check_result source criteria loaded identities)"
  have "agrees \<lparr>c_checks = [], c_errors = []\<rparr>" by (simp add: agrees_def)
  then have "agrees st" by (simp add: st_def identities_def source_identities_def)
  have "subseq (check_names identities) identity_names"
    unfolding identities_def by (rule names_identities) (simp add: check_names_def)
  moreover obtain names where "check_names (check_result source criteria loaded identities) = check_names identities @ names"
    and "subseq names result_checks"
    using names_result by blast
  ultimately have "subseq (check_names st) ((identity_names @ result_checks) @ [''source_result_verifier_passes''])"
    unfolding st_def check_names_note by (simp only: list_emb_append_mono subseq_order.order_refl)
  then have "distinct (check_names st)"
    using names_distinct subseq_distinct by blast
  with \<open>agrees st\<close> show ?thesis
    unfolding rep st_def [symmetric]
    by (auto simp: source_result_def agrees_def check_names_def distinct_sort_key)
qed

theorem source_report_is_consistent_witness:
  "\<exists>rep. evaluate_source (\<lambda>v. []) sample_environment sample_criteria sample_source = Inr rep \<and>
     sorted (map fst (sv_checks rep)) \<and> distinct (map fst (sv_checks rep))"
proof -
  obtain rep where "evaluate_source (\<lambda>v. []) sample_environment sample_criteria sample_source = Inr rep"
    using evaluate_source_returns [of "\<lambda>v. []" sample_environment sample_criteria sample_source]
    by (auto simp: sample_load returns_iff)
  with source_report_is_consistent [OF this] show ?thesis by blast
qed

end
