(* ===== verification/Publication.thy ===== *)
theory Publication
  imports ReleaseGate
begin

section \<open>Verifiers of published results\<close>

text \<open>
  The three \<open>verify_results.py\<close> scripts: does a published \<open>RESULTS.json\<close> say what the recorded runs
  and the frozen protocol say? Each has a function \<open>validate\<close>, which returns a list of error
  messages, and a \<open>main\<close>, which reads the files and exits with 0 when that list is empty.
\<close>

subsection \<open>Gates\<close>

text \<open>\<open>isinstance(v, (int, float)) and not isinstance(v, bool)\<close>\<close>

definition is_number :: "pyval \<Rightarrow> bool" where
  "is_number v = (case v of PInt n \<Rightarrow> True | PFloat q \<Rightarrow> True | _ \<Rightarrow> False)"

definition gate_passed :: "pyval \<Rightarrow> string \<Rightarrow> pyval \<Rightarrow> bool result" where
  "gate_passed actual operator threshold =
     (if operator = ''eq'' then Inr (py_eq actual threshold)
      else raise ValueError (''unsupported frozen gate operator: '' @ operator))"

definition derive_gate :: "items \<Rightarrow> string \<times> pyval \<Rightarrow> (string \<times> pyval) result" where
  "derive_gate metrics gate =
     (case gate of (name, described) \<Rightarrow>
      case as_items described of
        None \<Rightarrow> raise TypeError (''gate specification must be an object: '' @ name)
      | Some spec \<Rightarrow>
          let operator = py_get spec ''operator''; threshold = py_get spec ''threshold'';
              actual = py_get metrics name in
          if \<not> is_str operator then raise TypeError (''gate operator must be a string: '' @ name)
          else if \<not> is_number threshold then raise TypeError (''gate threshold must be numeric: '' @ name)
          else if \<not> is_number actual then raise TypeError (''result metric must be numeric: '' @ name)
          else
            bind_result (gate_passed actual (str_of operator) threshold) (\<lambda>passed.
              Inr (name, PDict [(''actual'', actual), (''operator'', operator), (''threshold'', threshold),
                                (''passed'', PBool passed)])))"

text \<open>
  The two evaluations have the same function but for the field of the protocol that holds the gates.
\<close>

definition derive_gate_results :: "string \<Rightarrow> items \<Rightarrow> items \<Rightarrow> items result" where
  "derive_gate_results field protocol metrics =
     (case as_items (py_get protocol field) of
        None \<Rightarrow> raise TypeError (''protocol '' @ field @ '' must be an object'')
      | Some gates \<Rightarrow> map_result (derive_gate metrics) (sort_key fst gates))"

definition derive_detection_gates :: "items \<Rightarrow> items \<Rightarrow> items result" where
  "derive_detection_gates = derive_gate_results ''detection_gates''"

definition derive_metric_gates :: "items \<Rightarrow> items \<Rightarrow> items result" where
  "derive_metric_gates = derive_gate_results ''metrics''"

text \<open>\<open>except (TypeError, ValueError) as exc: errors.append(str(exc)); derived = {}\<close>\<close>

definition gates_or_error :: "items result \<Rightarrow> string list \<Rightarrow> (string list \<times> items) result" where
  "gates_or_error derived errors =
     (case derived of
        Inr gates \<Rightarrow> Inr (errors, gates)
      | Inl (c, msg) \<Rightarrow> (if c \<in> {TypeError, ValueError} then Inr (errors @ [msg], []) else Inl (c, msg)))"

definition gate_entry_passed :: "string \<times> pyval \<Rightarrow> bool" where
  "gate_entry_passed entry \<longleftrightarrow> py_get (dict_of (snd entry)) ''passed'' = PBool True"

definition check_gates :: "(items \<Rightarrow> items result) \<Rightarrow> items \<Rightarrow> items \<Rightarrow> string list \<Rightarrow> string list result" where
  "check_gates derive results normalized errors =
     bind_result
       (case as_items (py_get normalized ''metrics'') of
          None \<Rightarrow> Inr (errors @ [''normalized run metrics are missing''], [])
        | Some metrics \<Rightarrow> gates_or_error (derive metrics) errors)
       (\<lambda>(errors, derived).
          let errors = flag (\<not> py_eq (py_get results ''frozen_gates'') (PDict derived))
                         ''published gate results differ from the frozen gate evaluation'' errors;
              disposition = (if derived \<noteq> [] \<and> list_all gate_entry_passed derived then ''pass'' else ''fail'') in
          Inr (flag (\<not> py_eq (py_get results ''aggregate_disposition'') (PStr disposition))
                 ''aggregate disposition differs from the frozen gate evaluation'' errors))"

subsection \<open>Recorded runs\<close>

definition byte_equal :: "8 word list list \<Rightarrow> bool" where
  "byte_equal payloads \<longleftrightarrow> payloads \<noteq> [] \<and> list_all (\<lambda>payload. payload = hd payloads) (tl payloads)"

text \<open>\<open>json.loads(run_payloads[0]) if run_payloads else {}\<close> with its handler.\<close>

definition normalized_run ::
  "environment \<Rightarrow> string \<Rightarrow> 8 word list list \<Rightarrow> string list \<Rightarrow> (string list \<times> pyval) result" where
  "normalized_run env message payloads errors =
     (case payloads of
        [] \<Rightarrow> Inr (errors, PDict [])
      | payload # _ \<Rightarrow>
          bind_result (read_json env payload) (\<lambda>loaded.
            Inr (case loaded of None \<Rightarrow> (errors @ [message], PDict []) | Some v \<Rightarrow> (errors, v))))"

definition run_path :: "string \<Rightarrow> nat \<Rightarrow> string" where
  "run_path directory index = directory @ ''/artifacts/run-'' @ show_nat index @ ''.json''"

definition run_artifacts :: "string \<Rightarrow> 8 word list list \<Rightarrow> pyval" where
  "run_artifacts directory payloads =
     PList (map (\<lambda>(index, payload).
        PDict [(''path'', PStr (run_path directory index)), (''sha256'', PStr (sha256_hex payload))])
       (enumerate 1 payloads))"

definition reproduction_summary :: "pyval \<Rightarrow> 8 word list list \<Rightarrow> pyval" where
  "reproduction_summary required payloads =
     PDict [(''independent_runs_recorded'', PInt (int (length payloads))),
            (''independent_runs_required'', required),
            (''normalized_output_byte_identical'', PBool (byte_equal payloads)),
            (''normalized_output_sha256'',
              (case payloads of [] \<Rightarrow> PNone | payload # _ \<Rightarrow> PStr (sha256_hex payload)))]"

text \<open>\<open>if results.get(field) != expected: errors.append(message)\<close>, one line of \<open>validate\<close>.\<close>

fun check_fields :: "items \<Rightarrow> (string \<times> pyval \<times> string) list \<Rightarrow> string list \<Rightarrow> string list" where
  "check_fields results [] errors = errors"
| "check_fields results ((field, expected, message) # rest) errors =
     check_fields results rest (flag (\<not> py_eq (py_get results field) expected) message errors)"

text \<open>A path of string indices: \<open>v[a][b][c]\<close>.\<close>

fun nested_item :: "string list \<Rightarrow> pyval \<Rightarrow> pyval result" where
  "nested_item [] v = Inr v"
| "nested_item (k # ks) v = bind_result (subscript v k) (nested_item ks)"

text \<open>The positive number of runs that both protocols require, or the message of an early return.\<close>

definition required_runs :: "items \<Rightarrow> string + items \<times> pyval" where
  "required_runs protocol =
     (case as_items (py_get protocol ''execution'') of
        None \<Rightarrow> Inl ''protocol execution controls are missing''
      | Some execution \<Rightarrow>
          (case as_int (py_get execution ''independent_runs_required'') of
             None \<Rightarrow> Inl ''independent_runs_required must be a positive integer''
           | Some n \<Rightarrow>
               if n < 1 then Inl ''independent_runs_required must be a positive integer''
               else Inr (execution, py_get execution ''independent_runs_required'')))"

definition check_byte_equal :: "items \<Rightarrow> 8 word list list \<Rightarrow> string list \<Rightarrow> string list" where
  "check_byte_equal execution payloads =
     flag (py_get execution ''normalized_output_byte_equal_required'' = PBool True \<and> \<not> byte_equal payloads)
       ''normalized independent run outputs are not byte-identical''"

definition check_run_count :: "pyval \<Rightarrow> 8 word list list \<Rightarrow> string list \<Rightarrow> string list" where
  "check_run_count required payloads =
     flag (\<not> py_eq (PInt (int (length payloads))) required)
       ''published run count differs from the frozen requirement''"

subsection \<open>Trace integrity\<close>

record frozen_digests =
  fd_protocol :: string
  fd_detector :: string
  fd_schema :: string
  fd_baselines :: string
  fd_mutations :: string

definition expected_trace_protocol_sha256 :: string where
  "expected_trace_protocol_sha256 = ''13c86ce5b0ad1a641d21491838780127d3b2d69e8ad1e2b9abbad6bdaf5a9ea4''"

definition trace_freeze_commit :: string where
  "trace_freeze_commit = ''cee88ebde76d67e99721796bf292f553f88fb5a3''"

definition frozen_artifacts :: "pyval \<Rightarrow> pyval \<Rightarrow> pyval \<Rightarrow> pyval \<Rightarrow> pyval" where
  "frozen_artifacts baselines detector mutations schema =
     PDict [(''baseline_traces_sha256'', baselines), (''detector_sha256'', detector),
            (''mutation_corpus_sha256'', mutations), (''trace_schema_sha256'', schema)]"

definition expected_frozen_artifacts :: "items \<Rightarrow> pyval result" where
  "expected_frozen_artifacts protocol =
     bind_result (nested_item [''artifacts'', ''baseline_traces'', ''sha256''] (PDict protocol)) (\<lambda>baselines.
     bind_result (nested_item [''detector'', ''sha256''] (PDict protocol)) (\<lambda>detector.
     bind_result (nested_item [''artifacts'', ''mutation_corpus'', ''sha256''] (PDict protocol)) (\<lambda>mutations.
     bind_result (nested_item [''artifacts'', ''trace_schema'', ''sha256''] (PDict protocol)) (\<lambda>schema.
       Inr (frozen_artifacts baselines detector mutations schema)))))"

definition actual_frozen_artifacts :: "frozen_digests \<Rightarrow> pyval" where
  "actual_frozen_artifacts digests =
     frozen_artifacts (PStr (fd_baselines digests)) (PStr (fd_detector digests))
       (PStr (fd_mutations digests)) (PStr (fd_schema digests))"

definition trace_publication_fields ::
  "items \<Rightarrow> frozen_digests \<Rightarrow> pyval \<Rightarrow> items \<Rightarrow> pyval \<Rightarrow> 8 word list list \<Rightarrow> (string \<times> pyval \<times> string) list" where
  "trace_publication_fields protocol digests artifacts normalized required payloads =
     [(''schema_version'', PStr ''carl.trace-integrity-publication.v1'', ''result publication schema_version mismatch''),
      (''protocol_id'', py_get protocol ''protocol_id'', ''result protocol_id mismatch''),
      (''freeze_commit_sha'', PStr trace_freeze_commit, ''freeze commit mismatch''),
      (''protocol_sha256'', PStr (fd_protocol digests), ''published protocol SHA-256 mismatch''),
      (''frozen_artifacts'', artifacts, ''published frozen-artifact identities differ from the frozen protocol''),
      (''claim_boundary'', py_get protocol ''claim_boundary'', ''published claim boundary differs from the frozen protocol''),
      (''metrics'', py_get normalized ''metrics'', ''published metrics differ from the normalized run''),
      (''clean_results'', py_get normalized ''clean_results'', ''published clean results differ from the normalized run''),
      (''mutation_results'', py_get normalized ''mutation_results'', ''published mutation results differ from the normalized run''),
      (''run_artifacts'', run_artifacts ''evals/trace_integrity_v1'' payloads,
        ''published run-artifact identities differ from the executed runs''),
      (''reproduction'', reproduction_summary required payloads,
        ''published reproduction summary differs from the executed runs'')]"

text \<open>
  The module's constant \<open>EXPECTED_PROTOCOL_SHA256\<close> is the argument \<open>frozen\<close>: the scripts run with
  \<open>expected_trace_protocol_sha256\<close>, and nothing below depends on which digest it is.
\<close>

definition validate_trace_publication ::
  "string \<Rightarrow> environment \<Rightarrow> items \<Rightarrow> pyval \<Rightarrow> 8 word list list \<Rightarrow> frozen_digests \<Rightarrow> string list result" where
  "validate_trace_publication frozen env protocol results payloads digests =
     (case required_runs protocol of
        Inl message \<Rightarrow> Inr [message]
      | Inr (execution, required) \<Rightarrow>
          let errors = check_run_count required payloads [];
              errors = flag (fd_protocol digests \<noteq> frozen)
                         ''PROTOCOL.json bytes differ from the frozen commit'' errors in
          bind_result (expected_frozen_artifacts protocol) (\<lambda>artifacts.
            let errors = flag (\<not> py_eq (actual_frozen_artifacts digests) artifacts)
                           ''frozen detector or input bytes differ from PROTOCOL.json'' errors;
                errors = check_byte_equal execution payloads errors in
            bind_result (normalized_run env ''normalized run artifact is not valid JSON'' payloads errors) (\<lambda>(errors, run).
            bind_result (mapping_of results) (\<lambda>results.
            bind_result (mapping_of run) (\<lambda>normalized.
              check_gates (derive_detection_gates protocol) results normalized
                (check_fields results
                  (trace_publication_fields protocol digests artifacts normalized required payloads) errors))))))"

text \<open>\<open>path.read_bytes()\<close>, and the payloads \<open>run-1\<close> to \<open>run-count\<close>.\<close>

definition read_bytes :: "environment \<Rightarrow> string \<Rightarrow> 8 word list result" where
  "read_bytes env path =
     (case files env path of None \<Rightarrow> raise OSError ''No such file or directory'' | Some bytes \<Rightarrow> Inr bytes)"

definition read_runs :: "environment \<Rightarrow> string \<Rightarrow> pyval \<Rightarrow> 8 word list list result" where
  "read_runs env directory run_count =
     (case as_int run_count of
        None \<Rightarrow> raise TypeError ''value cannot be interpreted as an integer''
      | Some n \<Rightarrow> map_result (\<lambda>index. read_bytes env (run_path directory index)) [1 ..< Suc (nat n)])"

definition digest_of :: "environment \<Rightarrow> string \<Rightarrow> string result" where
  "digest_of env path = bind_result (read_bytes env path) (\<lambda>bytes. Inr (sha256_hex bytes))"

definition verdict :: "string list \<Rightarrow> int" where
  "verdict errors = (if errors = [] then 0 else 1)"

definition trace_results_main :: "string \<Rightarrow> environment \<Rightarrow> int result" where
  "trace_results_main frozen env =
     bind_result (load_file env ''evals/trace_integrity_v1/PROTOCOL.json'') (\<lambda>protocol.
     bind_result (load_file env ''evals/trace_integrity_v1/RESULTS.json'') (\<lambda>results.
     bind_result (nested_item [''execution'', ''independent_runs_required''] protocol) (\<lambda>run_count.
     bind_result (read_runs env ''evals/trace_integrity_v1'' run_count) (\<lambda>payloads.
     bind_result (digest_of env ''evals/trace_integrity_v1/PROTOCOL.json'') (\<lambda>protocol_sha.
     bind_result (digest_of env ''src/agent_reliability_lab/trace_integrity.py'') (\<lambda>detector_sha.
     bind_result (digest_of env ''evals/trace_integrity_v1/TRACE_SCHEMA.json'') (\<lambda>schema_sha.
     bind_result (digest_of env ''evals/trace_integrity_v1/BASELINE_TRACES.json'') (\<lambda>baselines_sha.
     bind_result (digest_of env ''evals/trace_integrity_v1/MUTATIONS.json'') (\<lambda>mutations_sha.
     bind_result (mapping_of protocol) (\<lambda>protocol.
     bind_result (validate_trace_publication frozen env protocol results payloads
         \<lparr>fd_protocol = protocol_sha, fd_detector = detector_sha, fd_schema = schema_sha,
          fd_baselines = baselines_sha, fd_mutations = mutations_sha\<rparr>) (\<lambda>errors.
       Inr (verdict errors))))))))))))"

definition trace_results_script :: "environment \<Rightarrow> int result" where
  "trace_results_script = trace_results_main expected_trace_protocol_sha256"

subsection \<open>Reliability\<close>

definition expected_reliability_protocol_sha256 :: string where
  "expected_reliability_protocol_sha256 = ''bba37a4f3f5733bd51af35eae1286090dcd36929fbaf711a28ffccc0735819df''"

definition reliability_freeze_commit :: string where
  "reliability_freeze_commit = ''f11c5d441261fbbd07be23b806c53d7c685d8560''"

definition check_scenario_manifest :: "items \<Rightarrow> items \<Rightarrow> string \<Rightarrow> string list \<Rightarrow> string list" where
  "check_scenario_manifest protocol scenarios scenario_sha256 errors =
     (case as_items (py_get protocol ''scenario_manifest'') of
        None \<Rightarrow> errors @ [''scenario_manifest is missing'']
      | Some manifest \<Rightarrow>
          let errors = flag (py_get manifest ''sha256'' \<noteq> PStr scenario_sha256)
                         ''SCENARIOS.json bytes differ from the frozen manifest'' errors in
          flag (case as_list (py_get scenarios ''scenarios'') of
                  None \<Rightarrow> False
                | Some entries \<Rightarrow> \<not> py_eq (PInt (int (length entries))) (py_get manifest ''scenario_count''))
            ''scenario count differs from the frozen manifest'' errors)"

definition reliability_publication_fields ::
  "items \<Rightarrow> string \<Rightarrow> string \<Rightarrow> items \<Rightarrow> pyval \<Rightarrow> 8 word list list \<Rightarrow> (string \<times> pyval \<times> string) list" where
  "reliability_publication_fields protocol protocol_sha256 scenario_sha256 normalized required payloads =
     [(''schema_version'', PStr ''carl.reliability-evaluation-publication.v1'',
        ''result publication schema_version mismatch''),
      (''protocol_id'', py_get protocol ''protocol_id'', ''result protocol_id mismatch''),
      (''freeze_commit_sha'', PStr reliability_freeze_commit, ''freeze commit mismatch''),
      (''protocol_sha256'', PStr protocol_sha256, ''published protocol SHA-256 mismatch''),
      (''scenario_manifest_sha256'', PStr scenario_sha256, ''published scenario SHA-256 mismatch''),
      (''claim_boundary'', py_get protocol ''claim_boundary'', ''published claim boundary differs from the frozen protocol''),
      (''metrics'', py_get normalized ''metrics'', ''published metrics differ from the normalized run''),
      (''scenario_results'', py_get normalized ''scenario_results'',
        ''published scenario results differ from the normalized run''),
      (''run_artifacts'', run_artifacts ''evals/reliability_v1'' payloads,
        ''published run-artifact identities differ from the executed runs''),
      (''reproduction'', reproduction_summary required payloads,
        ''published reproduction summary differs from the executed runs'')]"

definition validate_reliability_publication ::
  "string \<Rightarrow> environment \<Rightarrow> items \<Rightarrow> pyval \<Rightarrow> pyval \<Rightarrow> 8 word list list \<Rightarrow> string \<Rightarrow> string \<Rightarrow> string list result" where
  "validate_reliability_publication frozen env protocol scenarios results payloads protocol_sha256 scenario_sha256 =
     (case required_runs protocol of
        Inl message \<Rightarrow> Inr [message]
      | Inr (execution, required) \<Rightarrow>
          let errors = check_run_count required payloads [];
              errors = flag (protocol_sha256 \<noteq> frozen)
                         ''PROTOCOL.json bytes differ from the frozen commit'' errors in
          bind_result
            (case as_items (py_get protocol ''scenario_manifest'') of
               None \<Rightarrow> Inr (check_scenario_manifest protocol [] scenario_sha256 errors)
             | Some manifest \<Rightarrow>
                 bind_result (mapping_of scenarios) (\<lambda>scenarios.
                   Inr (check_scenario_manifest protocol scenarios scenario_sha256 errors))) (\<lambda>errors.
          let errors = check_byte_equal execution payloads errors in
          bind_result (normalized_run env ''normalized run artifact is not valid JSON'' payloads errors) (\<lambda>(errors, run).
          bind_result (mapping_of results) (\<lambda>results.
          bind_result (mapping_of run) (\<lambda>normalized.
            check_gates (derive_metric_gates protocol) results normalized
              (check_fields results
                (reliability_publication_fields protocol protocol_sha256 scenario_sha256 normalized required payloads)
                errors))))))"

definition reliability_results_main :: "string \<Rightarrow> environment \<Rightarrow> int result" where
  "reliability_results_main frozen env =
     bind_result (load_file env ''evals/reliability_v1/PROTOCOL.json'') (\<lambda>protocol.
     bind_result (load_file env ''evals/reliability_v1/SCENARIOS.json'') (\<lambda>scenarios.
     bind_result (load_file env ''evals/reliability_v1/RESULTS.json'') (\<lambda>results.
     bind_result (nested_item [''execution'', ''independent_runs_required''] protocol) (\<lambda>run_count.
     bind_result (read_runs env ''evals/reliability_v1'' run_count) (\<lambda>payloads.
     bind_result (digest_of env ''evals/reliability_v1/PROTOCOL.json'') (\<lambda>protocol_sha.
     bind_result (digest_of env ''evals/reliability_v1/SCENARIOS.json'') (\<lambda>scenario_sha.
     bind_result (mapping_of protocol) (\<lambda>protocol.
     bind_result (validate_reliability_publication frozen env protocol scenarios results payloads protocol_sha scenario_sha)
       (\<lambda>errors. Inr (verdict errors))))))))))"

definition reliability_results_script :: "environment \<Rightarrow> int result" where
  "reliability_results_script = reliability_results_main expected_reliability_protocol_sha256"

subsection \<open>The combined release\<close>

definition release_freeze_commit :: string where
  "release_freeze_commit = ''ac90e062d55f51afbf54eb8aa9ce0134b902377b''"

text \<open>The constants \<open>P_SHA\<close>, \<open>E_SHA\<close> and \<open>V_SHA\<close>.\<close>

record release_digests =
  rd_protocol :: string
  rd_evidence :: string
  rd_evaluator :: string

definition expected_release_digests :: release_digests where
  "expected_release_digests =
     \<lparr>rd_protocol = ''3aea2286f57b832490bbe85479d042ffa525877dd99d521f69286e6494097ca1'',
      rd_evidence = ''99438a2c2ab2cef784df4d3a51ad7f114d695509d657ca25c502f8d74d15397f'',
      rd_evaluator = ''a0a2ca7c771312d70b4bd5f582c0db0ec272855c67e2d95aa136c03745e106c4''\<rparr>"

text \<open>\<open>bool(v)\<close>, \<open>len(v)\<close> and iteration over a parsed value.\<close>

fun py_true :: "pyval \<Rightarrow> bool" where
  "py_true PNone = False"
| "py_true (PBool b) = b"
| "py_true (PInt n) = (n \<noteq> 0)"
| "py_true (PFloat q) = (q \<noteq> 0)"
| "py_true (PStr s) = (s \<noteq> [])"
| "py_true (PList xs) = (xs \<noteq> [])"
| "py_true (PDict d) = (d \<noteq> [])"

fun py_iter :: "pyval \<Rightarrow> pyval list result" where
  "py_iter (PList xs) = Inr xs"
| "py_iter (PDict d) = Inr (map (\<lambda>(k, v). PStr k) d)"
| "py_iter (PStr s) = Inr (map (\<lambda>c. PStr [c]) s)"
| "py_iter v = raise TypeError ''object has no len() and is not iterable''"

fun all_sources_pass :: "pyval list \<Rightarrow> bool result" where
  "all_sources_pass [] = Inr True"
| "all_sources_pass (source # rest) =
     bind_result (mapping_of source) (\<lambda>s.
       if py_get s ''passed'' = PBool True \<and> \<not> py_true (py_get s ''errors'') then all_sources_pass rest
       else Inr False)"

definition derived_release_ready :: "pyval \<Rightarrow> items \<Rightarrow> bool result" where
  "derived_release_ready protocol normalized =
     bind_result (mapping_of (get_or normalized ''metrics'' (PDict []))) (\<lambda>metrics.
       if \<not> py_true (py_get metrics ''required_source_count_satisfied'') then Inr False
       else
         let sources = py_get normalized ''source_results'' in
         bind_result (py_iter (if py_true sources then sources else PList [])) (\<lambda>sources.
         bind_result (nested_item [''release_criteria'', ''required_source_count''] protocol) (\<lambda>required.
           if \<not> py_eq (PInt (int (length sources))) required then Inr False else all_sources_pass sources)))"

definition release_publication_fields :: "release_digests \<Rightarrow> pyval \<Rightarrow> items \<Rightarrow> (string \<times> pyval) list result" where
  "release_publication_fields frozen protocol normalized =
     bind_result (subscript protocol ''protocol_id'') (\<lambda>protocol_id.
     bind_result (subscript protocol ''claim_boundary'') (\<lambda>claim_boundary.
       Inr [(''schema_version'', PStr ''carl.combined-evidence-release-publication.v1''),
            (''protocol_id'', protocol_id),
            (''freeze_commit_sha'', PStr release_freeze_commit),
            (''protocol_sha256'', PStr (rd_protocol frozen)),
            (''evidence_manifest_sha256'', PStr (rd_evidence frozen)),
            (''evaluator_sha256'', PStr (rd_evaluator frozen)),
            (''release_ready'', py_get normalized ''release_ready''),
            (''metrics'', py_get normalized ''metrics''),
            (''source_results'', py_get normalized ''source_results''),
            (''claim_boundary'', claim_boundary)]))"

definition frozen_release_identities :: "release_digests \<Rightarrow> environment \<Rightarrow> bool result" where
  "frozen_release_identities frozen env =
     bind_result (digest_of env ''evals/release_gate_v1/PROTOCOL.json'') (\<lambda>protocol_sha.
       if protocol_sha \<noteq> rd_protocol frozen then Inr False
       else bind_result (digest_of env ''evals/release_gate_v1/EVIDENCE.json'') (\<lambda>evidence_sha.
         if evidence_sha \<noteq> rd_evidence frozen then Inr False
         else bind_result (digest_of env ''evals/release_gate_v1/evaluate.py'') (\<lambda>evaluator_sha.
           Inr (evaluator_sha = rd_evaluator frozen))))"

definition validate_release_publication ::
  "release_digests \<Rightarrow> environment \<Rightarrow> pyval \<Rightarrow> pyval \<Rightarrow> 8 word list list \<Rightarrow> string list result" where
  "validate_release_publication frozen env protocol results runs =
     bind_result (nested_item [''execution'', ''independent_runs_required''] protocol) (\<lambda>required.
     bind_result (frozen_release_identities frozen env) (\<lambda>identities.
     bind_result (nested_item [''execution'', ''normalized_output_byte_equal_required''] protocol) (\<lambda>equal_required.
       let errors = flag (\<not> identities) ''frozen protocol/evidence/evaluator identity drift'' [];
           errors = flag (\<not> py_eq (PInt (int (length runs))) required)
                      ''published run count differs from frozen requirement'' errors;
           errors = flag (py_true equal_required \<and> \<not> byte_equal runs)
                      ''independent outputs are not byte-identical'' errors in
     bind_result (normalized_run env ''run artifact invalid JSON'' runs errors) (\<lambda>(errors, run).
     bind_result (subscript protocol ''protocol_id'') (\<lambda>_.
     bind_result (mapping_of run) (\<lambda>normalized.
     bind_result (release_publication_fields frozen protocol normalized) (\<lambda>expected.
     bind_result (mapping_of results) (\<lambda>results.
       let errors = check_fields results
             (map (\<lambda>(k, v). (k, v, ''published '' @ k @ '' mismatch'')) expected @
              [(''reproduction'', reproduction_summary required runs, ''reproduction summary mismatch''),
               (''run_artifacts'', run_artifacts ''evals/release_gate_v1'' runs, ''run artifact identities mismatch'')])
             errors in
     bind_result (derived_release_ready protocol normalized) (\<lambda>derived.
       Inr (flag (py_get normalized ''release_ready'' \<noteq> PBool derived)
              ''normalized release_ready differs from frozen composition criteria'' errors))))))))))"

definition release_results_main :: "release_digests \<Rightarrow> environment \<Rightarrow> int result" where
  "release_results_main frozen env =
     bind_result (load_file env ''evals/release_gate_v1/PROTOCOL.json'') (\<lambda>protocol.
     bind_result (load_file env ''evals/release_gate_v1/RESULTS.json'') (\<lambda>results.
     bind_result (nested_item [''execution'', ''independent_runs_required''] protocol) (\<lambda>run_count.
     bind_result (read_runs env ''evals/release_gate_v1'' run_count) (\<lambda>runs.
     bind_result (validate_release_publication frozen env protocol results runs) (\<lambda>errors.
       if errors \<noteq> [] then Inr 1
       else bind_result (subscript results ''release_ready'') (\<lambda>_. Inr 0))))))"

definition release_results_script :: "environment \<Rightarrow> int result" where
  "release_results_script = release_results_main expected_release_digests"

subsection \<open>What accepted publications state\<close>

text \<open>A gate is met when the metric of its name is a number equal to the threshold.\<close>

definition meets :: "items \<Rightarrow> string \<times> pyval \<Rightarrow> bool" where
  "meets metrics gate \<longleftrightarrow>
     (\<exists>spec. snd gate = PDict spec \<and> py_get spec ''operator'' = PStr ''eq'' \<and>
        is_number (py_get spec ''threshold'') \<and> is_number (py_get metrics (fst gate)) \<and>
        as_number (py_get metrics (fst gate)) = as_number (py_get spec ''threshold''))"

definition gates_met :: "string \<Rightarrow> items \<Rightarrow> items \<Rightarrow> bool" where
  "gates_met field protocol metrics \<longleftrightarrow>
     (\<exists>gates. py_get protocol field = PDict gates \<and> gates \<noteq> [] \<and> (\<forall>gate \<in> set gates. meets metrics gate))"

lemma number_eq: "is_number v \<Longrightarrow> is_number w \<Longrightarrow> py_eq v w \<longleftrightarrow> as_number v = as_number w"
  by (cases v; cases w) (auto simp: is_number_def)

lemma derive_gate_passes:
  assumes "derive_gate metrics gate = Inr entry"
  shows "gate_entry_passed entry \<longleftrightarrow> meets metrics gate"
proof -
  obtain name described where gate: "gate = (name, described)" by (cases gate)
  with assms obtain spec where "described = PDict spec"
    by (cases described) (auto simp: derive_gate_def)
  moreover from this assms obtain oper where "py_get spec ''operator'' = PStr oper"
    by (cases "py_get spec ''operator''") (auto simp: gate derive_gate_def Let_def)
  ultimately show ?thesis
    using assms
    by (auto simp: gate derive_gate_def Let_def gate_passed_def gate_entry_passed_def meets_def dict_of_def
        py_get_def [of "[_, _, _, _]"] number_eq split: if_splits)
qed

lemma derive_gate_returns: "meets metrics gate \<Longrightarrow> returns (derive_gate metrics gate)"
  by (cases gate) (auto simp: meets_def derive_gate_def Let_def gate_passed_def)

lemma derive_gate_name: "derive_gate metrics gate = Inr entry \<Longrightarrow> fst entry = fst gate"
  by (auto simp: derive_gate_def Let_def bind_result_Inr_iff split: prod.splits option.splits if_splits)

lemma derived_names: "map_result (derive_gate metrics) gates = Inr derived \<Longrightarrow> map fst derived = map fst gates"
  by (induction gates arbitrary: derived) (auto simp: bind_result_Inr_iff dest: derive_gate_name)

lemma derive_gates_cases:
  assumes "derive_gate_results field protocol metrics = Inr derived"
  shows "derived \<noteq> [] \<and> list_all gate_entry_passed derived \<longleftrightarrow> gates_met field protocol metrics"
proof -
  obtain gates where gates: "py_get protocol field = PDict gates"
    and derived: "map_result (derive_gate metrics) (sort_key fst gates) = Inr derived"
    using assms by (cases "py_get protocol field") (auto simp: derive_gate_results_def)
  have "length derived = length gates" using map_result_length [OF derived] by simp
  moreover have "(\<forall>entry \<in> set derived. gate_entry_passed entry) \<longleftrightarrow>
      (\<forall>gate \<in> set (sort_key fst gates). meets metrics gate)"
    using derived derive_gate_passes by (rule map_result_set)
  ultimately show ?thesis
    by (auto simp: gates_met_def gates list_all_iff)
qed

lemma check_gates_clean:
  assumes "check_gates (derive_gate_results field protocol) results normalized errors = Inr []"
  obtains metrics where "errors = []" "py_get normalized ''metrics'' = PDict metrics"
    "py_get results ''aggregate_disposition'' =
       PStr (if gates_met field protocol metrics then ''pass'' else ''fail'')"
proof (cases "as_items (py_get normalized ''metrics'')")
  case None
  with assms show thesis by (simp add: check_gates_def flag_clean Let_def)
next
  case (Some metrics)
  then have m: "py_get normalized ''metrics'' = PDict metrics"
    by (cases "py_get normalized ''metrics''") simp_all
  obtain derived where d: "derive_gate_results field protocol metrics = Inr derived"
    using assms
    by (cases "derive_gate_results field protocol metrics")
      (auto simp: check_gates_def m gates_or_error_def flag_clean Let_def split: if_splits)
  show thesis
    using assms derive_gates_cases [OF d]
    by (intro that [OF _ m]) (simp_all add: check_gates_def m d gates_or_error_def flag_clean Let_def)
qed

lemma check_fields_clean:
  "check_fields results rows errors = [] \<longleftrightarrow>
     errors = [] \<and> (\<forall>(field, expected, message) \<in> set rows. py_eq (py_get results field) expected)"
proof (induction rows arbitrary: errors)
  case (Cons row rows)
  obtain field expected message where "row = (field, expected, message)" by (cases row)
  then show ?case using Cons.IH by (simp add: flag_clean) blast
qed simp

lemma byte_equal_iff: "byte_equal payloads \<longleftrightarrow> payloads \<noteq> [] \<and> (\<forall>payload \<in> set payloads. payload = hd payloads)"
  by (cases payloads) (auto simp: byte_equal_def list_all_iff)

lemma normalized_run_Inr:
  assumes "normalized_run env message payloads errors = Inr (errors', run)" "payloads \<noteq> []"
  shows "(errors' = errors \<and> read_json env (hd payloads) = Inr (Some run)) \<or> (errors' = errors @ [message] \<and> run = PDict [])"
  using assms by (auto simp: normalized_run_def bind_result_Inr_iff split: list.splits option.splits)

lemma mapping_of_Inr [simp]: "mapping_of v = Inr d \<longleftrightarrow> v = PDict d"
  by (cases v) (auto simp: mapping_of_def)

lemma required_runs_Inr:
  "required_runs protocol = Inr (execution, required) \<longleftrightarrow>
     py_get protocol ''execution'' = PDict execution \<and> required = py_get execution ''independent_runs_required'' \<and>
     (\<exists>n \<ge> 1. as_int required = Some n)"
  by (cases "py_get protocol ''execution''") (auto simp: required_runs_def split: option.splits)

lemma run_count_clean:
  "as_int required = Some n \<Longrightarrow> check_run_count required payloads errors = [] \<longleftrightarrow>
     int (length payloads) = n \<and> errors = []"
proof -
  assume "as_int required = Some n"
  then have "as_number required = Some (of_int n)" by (rule as_number_int)
  then show ?thesis by (auto simp: check_run_count_def flag_clean)
qed

text \<open>
  What the two evaluations' verifiers establish of a publication: the number of runs the protocol
  requires, at least one; identical bytes where the protocol requires them; the first run read as a JSON
  object; its metrics republished; and every run recorded with its digest.
\<close>

definition published_runs ::
  "string \<Rightarrow> environment \<Rightarrow> items \<Rightarrow> 8 word list list \<Rightarrow> items \<Rightarrow> items \<Rightarrow> bool" where
  "published_runs directory env protocol payloads results normalized \<longleftrightarrow>
     (\<exists>execution. py_get protocol ''execution'' = PDict execution \<and>
        as_int (py_get execution ''independent_runs_required'') = Some (int (length payloads)) \<and> payloads \<noteq> [] \<and>
        (py_get execution ''normalized_output_byte_equal_required'' = PBool True \<longrightarrow>
           (\<forall>payload \<in> set payloads. payload = hd payloads)) \<and>
        py_eq (py_get results ''reproduction'')
          (reproduction_summary (py_get execution ''independent_runs_required'') payloads)) \<and>
     read_json env (hd payloads) = Inr (Some (PDict normalized)) \<and>
     py_eq (py_get results ''metrics'') (py_get normalized ''metrics'') \<and>
     py_eq (py_get results ''run_artifacts'') (run_artifacts directory payloads)"

lemma byte_equal_clean:
  "check_byte_equal execution payloads errors = [] \<longleftrightarrow>
     (py_get execution ''normalized_output_byte_equal_required'' = PBool True \<longrightarrow> byte_equal payloads) \<and> errors = []"
  by (auto simp: check_byte_equal_def flag_clean)

lemma published_runs_intro:
  assumes required: "required_runs protocol = Inr (execution, required)"
    and "check_run_count required payloads [] = []"
    and "py_get execution ''normalized_output_byte_equal_required'' = PBool True \<longrightarrow> byte_equal payloads"
    and run: "normalized_run env message payloads errors = Inr ([], PDict normalized)"
    and "py_eq (py_get results ''reproduction'') (reproduction_summary required payloads)"
    and "py_eq (py_get results ''metrics'') (py_get normalized ''metrics'')"
    and "py_eq (py_get results ''run_artifacts'') (run_artifacts directory payloads)"
  shows "published_runs directory env protocol payloads results normalized"
proof -
  obtain n where req: "py_get protocol ''execution'' = PDict execution"
      "required = py_get execution ''independent_runs_required''" "as_int required = Some n" "1 \<le> n"
    using required unfolding required_runs_Inr by blast
  have n: "int (length payloads) = n" using assms(2) run_count_clean [OF req(3)] by simp
  then have "payloads \<noteq> []" using req(4) by auto
  with normalized_run_Inr [OF run] have "read_json env (hd payloads) = Inr (Some (PDict normalized))" by auto
  then show ?thesis
    using assms req n \<open>payloads \<noteq> []\<close> by (auto simp: published_runs_def byte_equal_iff)
qed

lemma normalized_run_clean: "normalized_run env message payloads errors = Inr ([], run) \<Longrightarrow> errors = []"
  by (auto simp: normalized_run_def bind_result_Inr_iff split: list.splits option.splits)

text \<open>The end of both validations: fields, gates and disposition of a run that could be read.\<close>

lemma validation_end:
  assumes run: "normalized_run env message payloads before = Inr (errors, PDict normalized)"
    and gates: "check_gates (derive_gate_results field protocol) res normalized (check_fields res rows errors) = Inr []"
  obtains metrics where "before = []" "errors = []"
    "\<forall>(name, expected, message) \<in> set rows. py_eq (py_get res name) expected"
    "py_get normalized ''metrics'' = PDict metrics"
    "py_get res ''aggregate_disposition'' =
       PStr (if gates_met field protocol metrics then ''pass'' else ''fail'')"
proof -
  obtain metrics where clean: "check_fields res rows errors = []"
    and metrics: "py_get normalized ''metrics'' = PDict metrics"
      "py_get res ''aggregate_disposition'' =
        PStr (if gates_met field protocol metrics then ''pass'' else ''fail'')"
    using gates by (rule check_gates_clean)
  then have "errors = []" "\<forall>(name, expected, message) \<in> set rows. py_eq (py_get res name) expected"
    by (simp_all add: check_fields_clean)
  moreover from this(1) run have "before = []" using normalized_run_clean by blast
  ultimately show thesis using metrics by (intro that)
qed

lemma trace_publication_accepted:
  assumes "validate_trace_publication frozen env protocol results payloads digests = Inr []"
  obtains res normalized metrics artifacts where "fd_protocol digests = frozen" "results = PDict res"
    "published_runs ''evals/trace_integrity_v1'' env protocol payloads res normalized"
    "py_get normalized ''metrics'' = PDict metrics"
    "expected_frozen_artifacts protocol = Inr artifacts" "py_eq (actual_frozen_artifacts digests) artifacts"
    "py_get res ''aggregate_disposition'' =
       PStr (if gates_met ''detection_gates'' protocol metrics then ''pass'' else ''fail'')"
proof -
  obtain execution required where required: "required_runs protocol = Inr (execution, required)"
    using assms by (cases "required_runs protocol") (auto simp: validate_trace_publication_def)
  obtain artifacts where artifacts: "expected_frozen_artifacts protocol = Inr artifacts"
    using assms by (cases "expected_frozen_artifacts protocol")
      (auto simp: validate_trace_publication_def required Let_def)
  define before where "before = check_byte_equal execution payloads
    (flag (\<not> py_eq (actual_frozen_artifacts digests) artifacts)
      ''frozen detector or input bytes differ from PROTOCOL.json''
      (flag (fd_protocol digests \<noteq> frozen) ''PROTOCOL.json bytes differ from the frozen commit''
        (check_run_count required payloads [])))"
  obtain errors res normalized where
    run: "normalized_run env ''normalized run artifact is not valid JSON'' payloads before = Inr (errors, PDict normalized)"
    and res: "results = PDict res"
    and gates: "check_gates (derive_gate_results ''detection_gates'' protocol) res normalized
      (check_fields res (trace_publication_fields protocol digests artifacts normalized required payloads) errors) = Inr []"
    using assms
    by (auto simp: validate_trace_publication_def required artifacts Let_def bind_result_Inr_iff before_def
        derive_detection_gates_def)
  obtain metrics where clean: "before = []" "errors = []"
    "\<forall>(name, expected, message) \<in> set (trace_publication_fields protocol digests artifacts normalized required payloads).
       py_eq (py_get res name) expected"
    and metrics: "py_get normalized ''metrics'' = PDict metrics"
      "py_get res ''aggregate_disposition'' =
        PStr (if gates_met ''detection_gates'' protocol metrics then ''pass'' else ''fail'')"
    using run gates by (rule validation_end)
  from clean(1) have "fd_protocol digests = frozen" "check_run_count required payloads [] = []"
    "py_eq (actual_frozen_artifacts digests) artifacts"
    "py_get execution ''normalized_output_byte_equal_required'' = PBool True \<longrightarrow> byte_equal payloads"
    unfolding before_def byte_equal_clean flag_clean by simp_all
  with required run clean show thesis
    by (intro that [OF _ res _ metrics(1) artifacts _ metrics(2)] published_runs_intro)
      (auto simp: trace_publication_fields_def)
qed

lemma reliability_publication_accepted:
  assumes "validate_reliability_publication frozen env protocol scenarios results payloads protocol_sha scenario_sha = Inr []"
  obtains res normalized metrics where "protocol_sha = frozen" "results = PDict res"
    "published_runs ''evals/reliability_v1'' env protocol payloads res normalized"
    "py_get normalized ''metrics'' = PDict metrics"
    "\<exists>manifest. py_get protocol ''scenario_manifest'' = PDict manifest \<and> py_get manifest ''sha256'' = PStr scenario_sha"
    "py_get res ''aggregate_disposition'' =
       PStr (if gates_met ''metrics'' protocol metrics then ''pass'' else ''fail'')"
proof -
  obtain execution required where required: "required_runs protocol = Inr (execution, required)"
    using assms by (cases "required_runs protocol") (auto simp: validate_reliability_publication_def)
  define before where "before = flag (protocol_sha \<noteq> frozen) ''PROTOCOL.json bytes differ from the frozen commit''
    (check_run_count required payloads [])"
  obtain entries errors res normalized where
    run: "normalized_run env ''normalized run artifact is not valid JSON'' payloads
      (check_byte_equal execution payloads (check_scenario_manifest protocol entries scenario_sha before)) =
      Inr (errors, PDict normalized)"
    and res: "results = PDict res"
    and gates: "check_gates (derive_gate_results ''metrics'' protocol) res normalized
      (check_fields res (reliability_publication_fields protocol protocol_sha scenario_sha normalized required payloads)
        errors) = Inr []"
    using assms
    by (auto simp: validate_reliability_publication_def required Let_def bind_result_Inr_iff before_def
        derive_metric_gates_def split: option.splits)
  obtain metrics where
    clean: "check_byte_equal execution payloads (check_scenario_manifest protocol entries scenario_sha before) = []"
      "errors = []"
    "\<forall>(name, expected, message) \<in>
       set (reliability_publication_fields protocol protocol_sha scenario_sha normalized required payloads).
       py_eq (py_get res name) expected"
    and metrics: "py_get normalized ''metrics'' = PDict metrics"
      "py_get res ''aggregate_disposition'' =
        PStr (if gates_met ''metrics'' protocol metrics then ''pass'' else ''fail'')"
    using run gates by (rule validation_end)
  have scenario: "before = [] \<and> (\<exists>manifest. py_get protocol ''scenario_manifest'' = PDict manifest \<and>
      py_get manifest ''sha256'' = PStr scenario_sha)"
    and equal: "py_get execution ''normalized_output_byte_equal_required'' = PBool True \<longrightarrow> byte_equal payloads"
    using clean(1)
    by (cases "py_get protocol ''scenario_manifest''";
        auto simp: byte_equal_clean check_scenario_manifest_def flag_clean Let_def)+
  then have "protocol_sha = frozen" "check_run_count required payloads [] = []"
    by (simp_all add: before_def flag_clean)
  with required run clean equal scenario show thesis
    by (intro that [OF _ res _ metrics(1) _ metrics(2)] published_runs_intro)
      (auto simp: reliability_publication_fields_def)
qed

definition source_passed :: "pyval \<Rightarrow> bool" where
  "source_passed v \<longleftrightarrow> (\<exists>s. v = PDict s \<and> py_get s ''passed'' = PBool True \<and> \<not> py_true (py_get s ''errors''))"

lemma all_sources_pass_Inr: "all_sources_pass vs = Inr b \<Longrightarrow> b \<longleftrightarrow> (\<forall>v \<in> set vs. source_passed v)"
proof (induction vs)
  case (Cons v vs)
  then obtain s where "v = PDict s" by (auto simp: bind_result_Inr_iff)
  with Cons show ?case by (auto simp: source_passed_def mapping_of_def split: if_splits)
qed simp

lemma iterated_list:
  assumes "py_iter v = Inr vs" "\<forall>x \<in> set vs. source_passed x" "vs \<noteq> []"
  shows "v = PList vs"
  using assms by (cases v) (fastforce simp: source_passed_def neq_Nil_conv)+

lemma derived_release_ready_True:
  assumes "derived_release_ready protocol normalized = Inr True"
  obtains vs required where
    "vs \<noteq> [] \<Longrightarrow> py_get normalized ''source_results'' = PList vs"
    "nested_item [''release_criteria'', ''required_source_count''] protocol = Inr required"
    "py_eq (PInt (int (length vs))) required" "\<forall>v \<in> set vs. source_passed v"
proof -
  let ?sources = "py_get normalized ''source_results''"
  obtain vs required where iter: "py_iter (if py_true ?sources then ?sources else PList []) = Inr vs"
    and required: "nested_item [''release_criteria'', ''required_source_count''] protocol = Inr required"
      "py_eq (PInt (int (length vs))) required"
    and all: "all_sources_pass vs = Inr True"
    using assms
    by (auto simp: derived_release_ready_def bind_result_Inr_iff Let_def simp del: nested_item.simps py_eq.simps
        split: if_splits)
  have passed: "\<forall>v \<in> set vs. source_passed v" using all_sources_pass_Inr [OF all] by simp
  moreover have "?sources = PList vs" if "vs \<noteq> []"
    using iterated_list [OF iter passed that] that by (auto split: if_splits)
  ultimately show thesis using required by (intro that)
qed

lemma release_publication_accepted:
  assumes "validate_release_publication frozen env protocol results runs = Inr []"
  obtains res normalized required derived where "results = PDict res"
    "nested_item [''execution'', ''independent_runs_required''] protocol = Inr required"
    "py_eq (PInt (int (length runs))) required"
    "frozen_release_identities frozen env = Inr True"
    "runs \<noteq> [] \<Longrightarrow> read_json env (hd runs) = Inr (Some (PDict normalized))"
    "py_eq (py_get res ''release_ready'') (PBool derived)"
    "py_eq (py_get res ''run_artifacts'') (run_artifacts ''evals/release_gate_v1'' runs)"
    "derived_release_ready protocol normalized = Inr derived"
proof -
  obtain required identities equal_required errors normalized expected res derived where
    req: "nested_item [''execution'', ''independent_runs_required''] protocol = Inr required"
    and identities: "frozen_release_identities frozen env = Inr identities"
    and run: "normalized_run env ''run artifact invalid JSON'' runs
      (flag (py_true equal_required \<and> \<not> byte_equal runs) ''independent outputs are not byte-identical''
        (flag (\<not> py_eq (PInt (int (length runs))) required) ''published run count differs from frozen requirement''
          (flag (\<not> identities) ''frozen protocol/evidence/evaluator identity drift'' []))) =
      Inr (errors, PDict normalized)"
    and expected: "release_publication_fields frozen protocol normalized = Inr expected"
    and res: "results = PDict res"
    and derived: "derived_release_ready protocol normalized = Inr derived"
    and final: "flag (py_get normalized ''release_ready'' \<noteq> PBool derived)
        ''normalized release_ready differs from frozen composition criteria''
        (check_fields res
          (map (\<lambda>(k, v). (k, v, ''published '' @ k @ '' mismatch'')) expected @
            [(''reproduction'', reproduction_summary required runs, ''reproduction summary mismatch''),
             (''run_artifacts'', run_artifacts ''evals/release_gate_v1'' runs, ''run artifact identities mismatch'')])
          errors) = []"
    using assms
    by (auto simp: validate_release_publication_def bind_result_Inr_iff Let_def simp del: nested_item.simps py_eq.simps)
  have clean: "errors = []" "py_get normalized ''release_ready'' = PBool derived"
    "py_eq (py_get res ''run_artifacts'') (run_artifacts ''evals/release_gate_v1'' runs)"
    "\<forall>(k, v) \<in> set expected. py_eq (py_get res k) v"
    using final unfolding flag_clean check_fields_clean by auto
  have "(''release_ready'', py_get normalized ''release_ready'') \<in> set expected"
    using expected by (auto simp: release_publication_fields_def bind_result_Inr_iff)
  then have "py_eq (py_get res ''release_ready'') (PBool derived)" using clean(2,4) by fastforce
  moreover have "identities" "py_eq (PInt (int (length runs))) required"
    using normalized_run_clean [OF run [unfolded clean(1)]] unfolding flag_clean by simp_all
  moreover have "read_json env (hd runs) = Inr (Some (PDict normalized))" if "runs \<noteq> []"
    using normalized_run_Inr [OF run [unfolded clean(1)] that] by auto
  ultimately show thesis using clean(3) identities res req derived by (intro that) auto
qed

text \<open>
  C18: When the verifier of the combined release accepts a publication that says it is release-ready, the
  protocol, evidence and evaluator have their frozen digests, as many runs as required were recorded
  with their digests, and the first run (there is none only if none is required) lists exactly the
  required number of sources, each passed and without errors.
\<close>

theorem published_release_is_derived:
  assumes "validate_release_publication frozen env protocol results runs = Inr []"
    and "results = PDict res" and ready: "py_get res ''release_ready'' = PBool True"
  shows "frozen_release_identities frozen env = Inr True \<and>
    py_eq (py_get res ''run_artifacts'') (run_artifacts ''evals/release_gate_v1'' runs) \<and>
    (\<exists>required_run_count normalized sources required.
       nested_item [''execution'', ''independent_runs_required''] protocol = Inr required_run_count \<and>
       py_eq (PInt (int (length runs))) required_run_count \<and>
       (runs \<noteq> [] \<longrightarrow> read_json env (hd runs) = Inr (Some (PDict normalized))) \<and>
       (sources \<noteq> [] \<longrightarrow> py_get normalized ''source_results'' = PList sources) \<and>
       nested_item [''release_criteria'', ''required_source_count''] protocol = Inr required \<and>
       py_eq (PInt (int (length sources))) required \<and> (\<forall>v \<in> set sources. source_passed v))"
proof -
  obtain res' normalized required derived where accepted: "results = PDict res'"
    "nested_item [''execution'', ''independent_runs_required''] protocol = Inr required"
    "py_eq (PInt (int (length runs))) required"
    "frozen_release_identities frozen env = Inr True"
    "runs \<noteq> [] \<Longrightarrow> read_json env (hd runs) = Inr (Some (PDict normalized))"
    "py_eq (py_get res' ''release_ready'') (PBool derived)"
    "py_eq (py_get res' ''run_artifacts'') (run_artifacts ''evals/release_gate_v1'' runs)"
    "derived_release_ready protocol normalized = Inr derived"
    using assms(1) by (rule release_publication_accepted) (rule that)
  have "res' = res" using accepted(1) assms(2) by simp
  then have "derived" using accepted(6) ready by (simp add: of_bool_def split: if_splits)
  then have "derived_release_ready protocol normalized = Inr True" using accepted(8) by simp
  then obtain sources count where "sources \<noteq> [] \<Longrightarrow> py_get normalized ''source_results'' = PList sources"
    "nested_item [''release_criteria'', ''required_source_count''] protocol = Inr count"
    "py_eq (PInt (int (length sources))) count" "\<forall>v \<in> set sources. source_passed v"
    by (rule derived_release_ready_True) (rule that)
  with accepted \<open>res' = res\<close> show ?thesis by (auto simp del: nested_item.simps py_eq.simps)
qed

definition sample_release_run :: items where
  "sample_release_run =
     [(''release_ready'', PBool True), (''metrics'', PDict [(''required_source_count_satisfied'', PBool True)]),
      (''source_results'', PList [PDict [(''passed'', PBool True), (''errors'', PList [])]])]"

definition sample_published_protocol :: pyval where
  "sample_published_protocol =
     PDict [(''execution'', PDict [(''independent_runs_required'', PInt 1),
               (''normalized_output_byte_equal_required'', PBool True)]),
            (''protocol_id'', PStr ''release''), (''claim_boundary'', PNone),
            (''release_criteria'', PDict [(''required_source_count'', PInt 1)])]"

definition sample_frozen :: release_digests where
  "sample_frozen = \<lparr>rd_protocol = sha256_hex [1], rd_evidence = sha256_hex [2], rd_evaluator = sha256_hex [3]\<rparr>"

definition sample_release_results :: items where
  "sample_release_results =
     [(''schema_version'', PStr ''carl.combined-evidence-release-publication.v1''), (''protocol_id'', PStr ''release''),
      (''freeze_commit_sha'', PStr release_freeze_commit), (''protocol_sha256'', PStr (sha256_hex [1])),
      (''evidence_manifest_sha256'', PStr (sha256_hex [2])), (''evaluator_sha256'', PStr (sha256_hex [3])),
      (''release_ready'', PBool True), (''metrics'', py_get sample_release_run ''metrics''),
      (''source_results'', py_get sample_release_run ''source_results''),
      (''run_artifacts'', run_artifacts ''evals/release_gate_v1'' [[4]]),
      (''reproduction'', reproduction_summary (PInt 1) [[4]])]"

definition sample_release_environment :: environment where
  "sample_release_environment =
     \<lparr>files = map_of [(''evals/release_gate_v1/PROTOCOL.json'', [1]), (''evals/release_gate_v1/EVIDENCE.json'', [2]),
                      (''evals/release_gate_v1/evaluate.py'', [3])],
      blobs = (\<lambda>commit path. None), read_json = (\<lambda>bytes. Inr (Some (PDict sample_release_run))),
      exit_code = (\<lambda>path. 0)\<rparr>"

lemma sample_release_valid:
  "validate_release_publication sample_frozen sample_release_environment sample_published_protocol
     (PDict sample_release_results) [[4]] = Inr []"
proof -
  have identities: "frozen_release_identities sample_frozen sample_release_environment = Inr True"
    by (simp add: frozen_release_identities_def sample_frozen_def sample_release_environment_def digest_of_def
        read_bytes_def)
  have run: "normalized_run sample_release_environment message [[4]] errors = Inr (errors, PDict sample_release_run)"
    for message errors
    by (simp add: normalized_run_def sample_release_environment_def)
  have derived: "derived_release_ready sample_published_protocol sample_release_run = Inr True"
    by (simp add: derived_release_ready_def sample_published_protocol_def sample_release_run_def get_or_def
        mapping_of_def py_get_Cons subscript_def)
  show ?thesis
    by (simp add: validate_release_publication_def identities run derived flag_def byte_equal_def)
      (simp add: sample_published_protocol_def subscript_def release_publication_fields_def sample_frozen_def
        sample_release_results_def sample_release_run_def py_get_Cons mapping_of_def flag_def run_artifacts_def
        reproduction_summary_def derived [unfolded sample_published_protocol_def sample_release_run_def])
qed

theorem published_release_is_derived_witness:
  "frozen_release_identities sample_frozen sample_release_environment = Inr True"
proof -
  have "py_get sample_release_results ''release_ready'' = PBool True"
    by (simp add: sample_release_results_def py_get_Cons)
  from published_release_is_derived [OF sample_release_valid refl this] show ?thesis by blast
qed

end
