(* ===== verification/Protocols.thy ===== *)
theory Protocols
  imports Publication TraceIntegrity
begin

section \<open>Verifiers of frozen protocols\<close>

text \<open>
  The three \<open>verify_protocol.py\<close> scripts: before any aggregate run, the protocol and its inputs must
  be exactly the frozen ones. The definitions hold the constants of the scripts and one function per
  \<open>validate\<close>. \<open>repr\<close> is the text of a float, list or dict inside an f-string, \<open>exc_text\<close> the
  text of a caught exception; both only show in messages and in comparisons with fixed names.
\<close>

subsection \<open>Shared checks\<close>

text \<open>\<open>tuple(str(x.get(field)) for x in entries if isinstance(x, dict))\<close>\<close>

definition names_of :: "(pyval \<Rightarrow> string) \<Rightarrow> string \<Rightarrow> pyval list \<Rightarrow> string list" where
  "names_of repr field entries = map (\<lambda>entry. py_str repr (py_get entry field)) (objects_of entries)"

definition all_false :: "string list \<Rightarrow> pyval" where
  "all_false names = PDict (map (\<lambda>name. (name, PBool False)) names)"

definition equals_gate :: "pyval \<Rightarrow> pyval" where
  "equals_gate threshold = PDict [(''operator'', PStr ''eq''), (''threshold'', threshold)]"

definition execution_controls :: "string \<Rightarrow> pyval" where
  "execution_controls pattern =
     PDict [(''independent_runs_required'', PInt 2), (''normalized_output_byte_equal_required'', PBool True),
            (''result_path_pattern'', PStr pattern),
            (''aggregate_publication_requires_frozen_protocol_commit'', PBool True)]"

definition result_boundary :: "string \<Rightarrow> pyval" where
  "result_boundary path =
     PDict [(''published_results_path'', PStr path), (''must_be_absent_at_freeze'', PBool True)]"

subsection \<open>Reliability evaluation\<close>

definition expected_scenario_ids :: "string list" where
  "expected_scenario_ids =
     [''stale_child_completion_scoped'', ''lost_ack_retry_idempotency'', ''terminal_conflict_fails_closed'',
      ''approval_mutation_fails_closed'', ''durable_restart_exact_replay'', ''stale_checkpoint_lineage_fails_closed'',
      ''provider_present_suppresses_retry'', ''stale_readback_revision_fails_closed'',
      ''restart_evidence_supersedes_retry'', ''repeated_lost_ack_converges'', ''competing_retry_authorities_converge'']"

definition expected_scenario_sha256 :: string where
  "expected_scenario_sha256 = ''5ca2ab5cd388037d056420e678004dd9909e479c11b84fbd6424b7a7d06c9044''"

definition expected_metric_gates :: items where
  "expected_metric_gates =
     [(''scenario_pass_rate'', equals_gate (PFloat 1)), (''safety_pass_rate'', equals_gate (PFloat 1)),
      (''convergence_pass_rate'', equals_gate (PFloat 1)), (''fail_closed_pass_rate'', equals_gate (PFloat 1)),
      (''duplicate_effect_violations'', equals_gate (PInt 0))]"

definition reliability_claim_boundary :: pyval where
  "reliability_claim_boundary =
     all_false [''production_reliability_claim_allowed'', ''exactly_once_claim_allowed'',
       ''distributed_consensus_claim_allowed'', ''model_quality_claim_allowed'',
       ''throughput_or_latency_claim_allowed'', ''aggregate_score_claim_allowed_before_two_reproducing_runs'']"

definition check_manifest_identity :: "items \<Rightarrow> string list \<Rightarrow> string list" where
  "check_manifest_identity protocol errors =
     (case as_items (py_get protocol ''scenario_manifest'') of
        None \<Rightarrow> errors @ [''scenario_manifest must be an object'']
      | Some manifest \<Rightarrow>
          check_fields manifest
            [(''path'', PStr ''evals/reliability_v1/SCENARIOS.json'', ''scenario manifest path mismatch''),
             (''sha256'', PStr expected_scenario_sha256, ''scenario manifest SHA-256 mismatch''),
             (''scenario_count'', PInt (int (length expected_scenario_ids)), ''scenario_count mismatch'')] errors)"

definition check_scenarios :: "(pyval \<Rightarrow> string) \<Rightarrow> items \<Rightarrow> string list \<Rightarrow> string list" where
  "check_scenarios repr scenarios errors =
     (case as_list (py_get scenarios ''scenarios'') of
        None \<Rightarrow> errors @ [''scenarios must be a list'']
      | Some entries \<Rightarrow>
          let errors = flag (names_of repr ''id'' entries \<noteq> expected_scenario_ids)
                         ''scenario ids/order differ from the frozen definition'' errors;
              errors = flag (names_of repr ''runner'' entries \<noteq> expected_scenario_ids)
                         ''scenario runner ids/order differ from the frozen definition'' errors in
          flag (length entries \<noteq> length expected_scenario_ids) ''scenario fixture count mismatch'' errors)"

definition validate_reliability_protocol ::
  "(pyval \<Rightarrow> string) \<Rightarrow> items \<Rightarrow> items \<Rightarrow> bool \<Rightarrow> string list" where
  "validate_reliability_protocol repr protocol scenarios results_exist =
     (let errors = check_fields protocol
            [(''schema_version'', PStr ''carl.reliability-evaluation-protocol.v1'', ''protocol schema_version mismatch''),
             (''protocol_id'', PStr ''core-reliability-v1-20260911'', ''protocol_id mismatch''),
             (''status'', PStr ''frozen_unexecuted'',
               ''protocol must remain frozen_unexecuted at the freeze boundary'')] [];
          errors = check_manifest_identity protocol errors;
          errors = check_fields protocol
            [(''execution'', execution_controls ''evals/reliability_v1/artifacts/run-{run}.json'',
               ''execution controls differ from the frozen definition''),
             (''metrics'', PDict expected_metric_gates,
               ''aggregate metric gates differ from the frozen definition''),
             (''claim_boundary'', reliability_claim_boundary, ''claim boundary differs from the frozen definition''),
             (''result_artifact'', result_boundary ''evals/reliability_v1/RESULTS.json'',
               ''result artifact boundary differs from the frozen definition'')] errors;
          errors = flag results_exist ''RESULTS.json must not exist at the freeze boundary'' errors;
          errors = check_fields scenarios
            [(''schema_version'', PStr ''carl.reliability-scenarios.v1'', ''scenario schema_version mismatch''),
             (''fixture_set'', PStr ''core-reliability-boundaries-20260911'', ''fixture_set mismatch'')] errors in
      check_scenarios repr scenarios errors)"

subsection \<open>Trace integrity\<close>

definition expected_baseline_ids :: "string list" where
  "expected_baseline_ids = [''retry_then_reconcile'', ''retry_authority_pending'', ''parent_turn_terminal'']"

definition expected_mutation_ids :: "string list" where
  "expected_mutation_ids =
     [''event_run_scope_graft'', ''event_turn_scope_graft'', ''event_id_collision'', ''record_sequence_collision'',
      ''approval_operation_swap'', ''effect_payload_hash_drift'', ''effect_fingerprint_drift'',
      ''checkpoint_parent_rewind'', ''checkpoint_sequence_gap'', ''checkpoint_plan_hash_drift'',
      ''provider_revision_rollback'', ''provider_same_revision_conflict'', ''completion_stale_evidence'',
      ''completion_revision_drift'', ''completion_effect_drift'']"

definition expected_categories :: "string list" where
  "expected_categories =
     [''event_identity'', ''trace_order'', ''approval_effect_binding'', ''checkpoint_lineage'',
      ''provider_revision'', ''reconciliation_completion'']"

definition expected_detection_gates :: items where
  "expected_detection_gates =
     [(''clean_trace_accept_rate'', equals_gate (PFloat 1)), (''mutation_detection_rate'', equals_gate (PFloat 1)),
      (''false_positive_count'', equals_gate (PInt 0)), (''false_negative_count'', equals_gate (PInt 0)),
      (''detector_error_count'', equals_gate (PInt 0))]"

definition trace_claim_boundary :: pyval where
  "trace_claim_boundary =
     all_false [''production_trace_integrity_claim_allowed'', ''production_reliability_claim_allowed'',
       ''exactly_once_claim_allowed'', ''distributed_consensus_claim_allowed'', ''real_provider_claim_allowed'',
       ''aggregate_detection_claim_allowed_before_two_reproducing_runs'']"

definition expected_detector :: pyval where
  "expected_detector =
     PDict [(''callable'', PStr ''agent_reliability_lab.trace_integrity:evaluate_trace_corpus''),
            (''source_path'', PStr ''src/agent_reliability_lab/trace_integrity.py''),
            (''sha256'', PStr ''d481d451106dbcf3f7fad7e89ce5aed12bdded26c179553150092524af0cd0e7'')]"

definition expected_artifacts :: pyval where
  "expected_artifacts =
     PDict [(''trace_schema'', PDict
               [(''path'', PStr ''evals/trace_integrity_v1/TRACE_SCHEMA.json''),
                (''sha256'', PStr ''2d1281fc3c16dacca9eb2136c090417adeea160531b812e340a8a3fc6065a7cc'')]),
            (''baseline_traces'', PDict
               [(''path'', PStr ''evals/trace_integrity_v1/BASELINE_TRACES.json''),
                (''sha256'', PStr ''9b2b62d25d849be3123c3b0212351e89c2876dbd8e861675a2a084e666f9c4c5''),
                (''trace_count'', PInt 3)]),
            (''mutation_corpus'', PDict
               [(''path'', PStr ''evals/trace_integrity_v1/MUTATIONS.json''),
                (''sha256'', PStr ''ef4f7eb8bdc8170afe15eb6ae4bf59c5bd677477dde1c0d8e398ee8aeb448af2''),
                (''mutation_count'', PInt 15)])]"

definition expected_record_kinds :: "string list" where
  "expected_record_kinds =
     [''runtime_event'', ''approval'', ''effect'', ''checkpoint'', ''provider_evidence'', ''reconciliation_completion'']"

text \<open>\<open>dict.fromkeys(xs)\<close> keeps the first occurrence of each name.\<close>

definition first_occurrences :: "'a list \<Rightarrow> 'a list" where
  "first_occurrences xs = rev (remdups (rev xs))"

text \<open>\<open>{trace["trace_id"]: trace for trace in traces if isinstance(trace, dict) and "trace_id" in trace}\<close>\<close>

definition index_trace :: "items \<Rightarrow> (pyval \<times> items) result" where
  "index_trace trace =
     (if hashable (py_get trace ''trace_id'') then Inr (py_get trace ''trace_id'', trace)
      else raise TypeError ''unhashable type'')"

definition index_traces :: "pyval list \<Rightarrow> (pyval \<times> items) list result" where
  "index_traces traces =
     map_result index_trace (filter (\<lambda>trace. map_of trace ''trace_id'' \<noteq> None) (objects_of traces))"

definition find_base :: "(pyval \<times> items) list \<Rightarrow> pyval \<Rightarrow> items option result" where
  "find_base by_id k =
     (if hashable k then Inr (map_option snd (find (\<lambda>(k', t). py_eq k' k) (rev by_id)))
      else raise TypeError ''unhashable type'')"

definition check_mutation ::
  "(pyval \<Rightarrow> string) \<Rightarrow> (exn \<Rightarrow> string) \<Rightarrow> (pyval \<times> items) list \<Rightarrow> string list \<Rightarrow> pyval \<Rightarrow> string list result" where
  "check_mutation repr exc_text by_id errors entry =
     (case as_items entry of
        None \<Rightarrow> Inr (errors @ [''mutation entry must be an object''])
      | Some item \<Rightarrow>
          let label = py_str repr (py_get item ''id'') in
          bind_result (member_of (py_get item ''operator'') [''replace'', ''remove'']) (\<lambda>supported.
            if \<not> supported then Inr (errors @ [''unsupported mutation operator: '' @ label])
            else bind_result (find_base by_id (py_get item ''base_trace_id'')) (\<lambda>base.
              case base of
                None \<Rightarrow> Inr (errors @ [''mutation references unknown baseline: '' @ label])
              | Some trace \<Rightarrow>
                  (case apply_mutation trace item of
                     Inl (c, msg) \<Rightarrow>
                       if c \<in> {KeyError, TypeError, ValueError, IndexError}
                       then Inr (errors @ [''mutation cannot be applied deterministically: '' @ label @ '': '' @
                                           exc_text (c, msg)])
                       else Inl (c, msg)
                   | Inr mutated \<Rightarrow>
                       Inr (flag (py_eq mutated (PDict trace))
                              (''mutation produced no structural change: '' @ label) errors)))))"

text \<open>A field that is not a list is reported and read as the empty list.\<close>

definition list_or_report :: "pyval \<Rightarrow> string \<Rightarrow> string list \<Rightarrow> string list \<times> pyval list" where
  "list_or_report v message errors =
     (case as_list v of None \<Rightarrow> (errors @ [message], []) | Some vs \<Rightarrow> (errors, vs))"

definition check_trace_protocol :: "items \<Rightarrow> items \<Rightarrow> bool \<Rightarrow> string list" where
  "check_trace_protocol protocol schema results_exist =
     (let errors = check_fields protocol
            [(''schema_version'', PStr ''carl.trace-integrity-evaluation-protocol.v1'', ''protocol schema_version mismatch''),
             (''protocol_id'', PStr ''trace-integrity-v1-20260913'', ''protocol_id mismatch''),
             (''status'', PStr ''frozen_unexecuted'',
               ''protocol must remain frozen_unexecuted at the freeze boundary''),
             (''detection_gates'', PDict expected_detection_gates, ''detection gates differ from the frozen definition''),
             (''claim_boundary'', trace_claim_boundary, ''claim boundary differs from the frozen definition''),
             (''execution'', execution_controls ''evals/trace_integrity_v1/artifacts/run-{run}.json'',
               ''execution controls differ from the frozen definition''),
             (''result_artifact'', result_boundary ''evals/trace_integrity_v1/RESULTS.json'',
               ''result artifact boundary differs from the frozen definition'')] [];
          errors = flag results_exist ''RESULTS.json must not exist at the freeze boundary'' errors;
          errors = check_fields protocol
            [(''detector'', expected_detector, ''detector identity differs from the frozen definition''),
             (''artifacts'', expected_artifacts, ''artifact identities differ from the frozen definition'')] errors;
          errors = check_fields schema
            [(''schema_version'', PStr ''carl.trace-integrity-schema.v1'', ''trace schema_version mismatch'')] errors in
      flag (case as_items (py_get schema ''record_kinds'') of
              None \<Rightarrow> True | Some kinds \<Rightarrow> set (map fst kinds) \<noteq> set expected_record_kinds)
        ''trace schema record kinds differ from the frozen definition'' errors)"

definition validate_trace_protocol ::
  "(pyval \<Rightarrow> string) \<Rightarrow> (exn \<Rightarrow> string) \<Rightarrow> items \<Rightarrow> items \<Rightarrow> items \<Rightarrow> items \<Rightarrow> bool \<Rightarrow> string list result" where
  "validate_trace_protocol repr exc_text protocol schema baselines mutations results_exist =
     (let errors = check_trace_protocol protocol schema results_exist;
          errors = check_fields baselines
            [(''schema_version'', PStr ''carl.trace-integrity-baselines.v1'', ''baseline schema_version mismatch'')] errors;
          (errors, traces) = list_or_report (py_get baselines ''traces'') ''baseline traces must be a list'' errors;
          errors = flag (names_of repr ''trace_id'' traces \<noteq> expected_baseline_ids)
                     ''baseline ids/order differ from the frozen definition'' errors in
      bind_result (index_traces traces) (\<lambda>by_id.
        let errors = check_fields mutations
              [(''schema_version'', PStr ''carl.trace-integrity-mutations.v1'', ''mutation schema_version mismatch'')] errors;
            (errors, entries) = list_or_report (py_get mutations ''mutations'') ''mutations must be a list'' errors;
            errors = flag (names_of repr ''id'' entries \<noteq> expected_mutation_ids)
                       ''mutation ids/order differ from the frozen definition'' errors;
            errors = flag (first_occurrences (names_of repr ''category'' entries) \<noteq> expected_categories)
                       ''mutation categories/order differ from the frozen definition'' errors in
        run_steps (check_mutation repr exc_text by_id) errors entries))"

subsection \<open>The combined release\<close>

definition expected_source_ids :: "string list" where
  "expected_source_ids = [''core_reliability_v1'', ''trace_integrity_v1'']"

definition expected_release_criteria :: items where
  "expected_release_criteria =
     [(''minimum_source_independent_runs'', PInt 2),
      (''require_current_result_bytes_match_pinned_commit'', PBool True),
      (''require_exact_result_commit_identity'', PBool True),
      (''require_source_frozen_gates_all_pass'', PBool True),
      (''require_source_independent_runs_satisfied'', PBool True),
      (''require_source_normalized_output_byte_identical'', PBool True),
      (''require_source_result_protocol_identity_match_manifest'', PBool True),
      (''require_source_result_verifier_pass'', PBool True),
      (''required_source_count'', PInt 2), (''required_source_disposition'', PStr ''pass'')]"

definition release_claim_boundary :: pyval where
  "release_claim_boundary =
     all_false [''distributed_consensus_claim_allowed'', ''exactly_once_claim_allowed'',
       ''production_reliability_claim_allowed'', ''production_trace_integrity_claim_allowed'',
       ''real_provider_claim_allowed'', ''release_ready_claim_allowed_before_two_reproducing_runs'']"

definition evidence_identity :: pyval where
  "evidence_identity =
     PDict [(''path'', PStr ''evals/release_gate_v1/EVIDENCE.json''),
            (''sha256'', PStr (rd_evidence expected_release_digests)), (''source_count'', PInt 2)]"

definition evaluator_identity :: pyval where
  "evaluator_identity =
     PDict [(''path'', PStr ''evals/release_gate_v1/evaluate.py''),
            (''sha256'', PStr (rd_evaluator expected_release_digests))]"

definition validate_release_protocol ::
  "(pyval \<Rightarrow> string) \<Rightarrow> items \<Rightarrow> items \<Rightarrow> bool \<Rightarrow> string list" where
  "validate_release_protocol repr protocol evidence results_exist =
     (let errors = check_fields protocol
            [(''schema_version'', PStr ''carl.combined-evidence-release-protocol.v1'', ''protocol schema_version mismatch''),
             (''protocol_id'', PStr ''combined-evidence-release-v1-20260916'', ''protocol_id mismatch''),
             (''status'', PStr ''frozen_unexecuted'',
               ''protocol must remain frozen_unexecuted at the freeze boundary''),
             (''release_criteria'', PDict expected_release_criteria,
               ''release criteria differ from the frozen definition''),
             (''claim_boundary'', release_claim_boundary, ''claim boundary differs from the frozen definition''),
             (''evidence_manifest'', evidence_identity,
               ''evidence manifest identity differs from the frozen definition''),
             (''evaluator'', evaluator_identity, ''evaluator identity differs from the frozen definition''),
             (''execution'', execution_controls ''evals/release_gate_v1/artifacts/run-{run}.json'',
               ''execution controls differ from the frozen definition''),
             (''result_artifact'', result_boundary ''evals/release_gate_v1/RESULTS.json'',
               ''result artifact boundary differs from the frozen definition'')] [];
          errors = flag results_exist ''RESULTS.json must not exist at the freeze boundary'' errors;
          errors = check_fields evidence
            [(''schema_version'', PStr ''carl.combined-evidence-manifest.v1'', ''evidence schema_version mismatch''),
             (''evidence_set_id'', PStr ''combined-release-evidence-v1-20260916'', ''evidence_set_id mismatch'')] errors in
      case as_list (py_get evidence ''sources'') of
        None \<Rightarrow> errors @ [''evidence sources must be a list'']
      | Some sources \<Rightarrow>
          let errors = flag (names_of repr ''id'' sources \<noteq> expected_source_ids)
                         ''evidence source ids/order differ from the frozen definition'' errors in
          flag (length sources \<noteq> 2) ''evidence source count mismatch'' errors)"

definition verify_identity :: "environment \<Rightarrow> string \<Rightarrow> string list \<Rightarrow> string \<times> pyval \<times> pyval \<times> pyval \<Rightarrow> string list" where
  "verify_identity env source_id errors identity =
     (case identity of (label, commit, relpath, expected_sha) \<Rightarrow>
        let prefix = source_id @ '' '' @ label in
        if not_text commit \<or> not_text relpath \<or> not_text expected_sha
        then errors @ [prefix @ '' identity incomplete'']
        else if \<not> is_file env (str_of relpath) then errors @ [prefix @ '' missing'']
        else
          let errors = flag (file_sha256 env (str_of relpath) \<noteq> str_of expected_sha)
                         (prefix @ '' current bytes are stale or mismatched'') errors in
          (case blobs env (str_of commit) (str_of relpath) of
             None \<Rightarrow> errors @ [prefix @ '' pinned commit/path missing'']
           | Some blob \<Rightarrow>
               flag (sha256_hex blob \<noteq> str_of expected_sha) (prefix @ '' pinned commit bytes mismatch'') errors))"

definition verify_source :: "(pyval \<Rightarrow> string) \<Rightarrow> environment \<Rightarrow> string list \<Rightarrow> pyval \<Rightarrow> string list" where
  "verify_source repr env errors source =
     (case as_items source of
        None \<Rightarrow> errors @ [''evidence source must be an object'']
      | Some s \<Rightarrow>
          foldl (verify_identity env (py_str repr (get_or s ''id'' (PStr ''unknown'')))) errors (source_identities s))"

definition verify_source_identities :: "(pyval \<Rightarrow> string) \<Rightarrow> environment \<Rightarrow> items \<Rightarrow> string list" where
  "verify_source_identities repr env evidence =
     (case as_list (py_get evidence ''sources'') of
        None \<Rightarrow> [''evidence sources must be a list'']
      | Some sources \<Rightarrow> foldl (verify_source repr env) [] sources)"

subsection \<open>The scripts\<close>

text \<open>The exit status of each \<open>main\<close>; an exception exits with 1.\<close>

definition digest_message :: "environment \<Rightarrow> string \<Rightarrow> string \<Rightarrow> string \<Rightarrow> string list \<Rightarrow> string list result" where
  "digest_message env path expected message errors =
     bind_result (digest_of env path) (\<lambda>sha. Inr (flag (sha \<noteq> expected) message errors))"

definition reliability_protocol_exit :: "(pyval \<Rightarrow> string) \<Rightarrow> string \<Rightarrow> environment \<Rightarrow> int" where
  "reliability_protocol_exit repr frozen env = exit_status
     (bind_result (load_file env ''evals/reliability_v1/PROTOCOL.json'') (\<lambda>protocol.
      bind_result (load_file env ''evals/reliability_v1/SCENARIOS.json'') (\<lambda>scenarios.
      bind_result (mapping_of protocol) (\<lambda>protocol.
      bind_result (mapping_of scenarios) (\<lambda>scenarios.
      bind_result (digest_message env ''evals/reliability_v1/SCENARIOS.json'' frozen
          ''SCENARIOS.json bytes do not match the frozen SHA-256''
          (validate_reliability_protocol repr protocol scenarios
            (is_file env ''evals/reliability_v1/RESULTS.json''))) (\<lambda>errors.
        Inr (verdict errors)))))))"

definition release_protocol_exit :: "(pyval \<Rightarrow> string) \<Rightarrow> release_digests \<Rightarrow> environment \<Rightarrow> int" where
  "release_protocol_exit repr frozen env = exit_status
     (bind_result (load_file env ''evals/release_gate_v1/PROTOCOL.json'') (\<lambda>protocol.
      bind_result (load_file env ''evals/release_gate_v1/EVIDENCE.json'') (\<lambda>evidence.
      bind_result (mapping_of protocol) (\<lambda>protocol.
      bind_result (mapping_of evidence) (\<lambda>evidence.
      bind_result (digest_message env ''evals/release_gate_v1/PROTOCOL.json'' (rd_protocol frozen)
          ''PROTOCOL.json bytes do not match the frozen SHA-256''
          (validate_release_protocol repr protocol evidence
            (is_file env ''evals/release_gate_v1/RESULTS.json''))) (\<lambda>errors.
      bind_result (digest_message env ''evals/release_gate_v1/EVIDENCE.json'' (rd_evidence frozen)
          ''EVIDENCE.json bytes do not match the frozen SHA-256'' errors) (\<lambda>errors.
      bind_result (digest_message env ''evals/release_gate_v1/evaluate.py'' (rd_evaluator frozen)
          ''evaluator bytes do not match the frozen SHA-256'' errors) (\<lambda>errors.
        Inr (verdict (errors @ verify_source_identities repr env evidence))))))))))"

definition trace_protocol_exit ::
  "(pyval \<Rightarrow> string) \<Rightarrow> (exn \<Rightarrow> string) \<Rightarrow> frozen_digests \<Rightarrow> environment \<Rightarrow> int" where
  "trace_protocol_exit repr exc_text frozen env = exit_status
     (bind_result (load_file env ''evals/trace_integrity_v1/PROTOCOL.json'') (\<lambda>protocol.
      bind_result (load_file env ''evals/trace_integrity_v1/TRACE_SCHEMA.json'') (\<lambda>schema.
      bind_result (load_file env ''evals/trace_integrity_v1/BASELINE_TRACES.json'') (\<lambda>baselines.
      bind_result (load_file env ''evals/trace_integrity_v1/MUTATIONS.json'') (\<lambda>mutations.
      bind_result (mapping_of protocol) (\<lambda>protocol.
      bind_result (mapping_of schema) (\<lambda>schema.
      bind_result (mapping_of baselines) (\<lambda>baselines.
      bind_result (mapping_of mutations) (\<lambda>mutations.
      bind_result (validate_trace_protocol repr exc_text protocol schema baselines mutations
          (is_file env ''evals/trace_integrity_v1/RESULTS.json'')) (\<lambda>errors.
      bind_result (digest_message env ''src/agent_reliability_lab/trace_integrity.py'' (fd_detector frozen)
          ''detector source bytes do not match the frozen SHA-256'' errors) (\<lambda>errors.
      bind_result (digest_message env ''evals/trace_integrity_v1/TRACE_SCHEMA.json'' (fd_schema frozen)
          ''TRACE_SCHEMA.json bytes do not match the frozen SHA-256'' errors) (\<lambda>errors.
      bind_result (digest_message env ''evals/trace_integrity_v1/BASELINE_TRACES.json'' (fd_baselines frozen)
          ''BASELINE_TRACES.json bytes do not match the frozen SHA-256'' errors) (\<lambda>errors.
      bind_result (digest_message env ''evals/trace_integrity_v1/MUTATIONS.json'' (fd_mutations frozen)
          ''MUTATIONS.json bytes do not match the frozen SHA-256'' errors) (\<lambda>errors.
        Inr (verdict errors)))))))))))))))"

subsection \<open>Pinned identities\<close>

lemma verify_identity_clean:
  "verify_identity env source_id errors (label, commit, path, sha) = [] \<longleftrightarrow> pinned env commit path sha \<and> errors = []"
proof (cases "not_text commit \<or> not_text path \<or> not_text sha")
  case True
  then have "\<not> pinned env commit path sha"
    by (auto simp: pinned_def not_text_def)
  with True show ?thesis by (simp add: verify_identity_def Let_def)
next
  case False
  then obtain c p s where "commit = PStr c" "path = PStr p" "sha = PStr s" "c \<noteq> []" "p \<noteq> []" "s \<noteq> []"
    using not_text_iff by metis
  with False show ?thesis
    by (cases "files env p"; cases "blobs env c p")
      (auto simp: verify_identity_def flag_clean pinned_def is_file_def file_sha256_def Let_def)
qed

lemma verify_source_clean:
  "verify_source repr env errors source = [] \<longleftrightarrow> (\<exists>s. source = PDict s \<and> all_pinned env s) \<and> errors = []"
  by (cases source) (auto simp: verify_source_def source_identities_def verify_identity_clean all_pinned_def)

lemma verify_sources_clean:
  "foldl (verify_source repr env) errors sources = [] \<longleftrightarrow>
     (\<forall>v \<in> set sources. \<exists>s. v = PDict s \<and> all_pinned env s) \<and> errors = []"
  by (induction sources arbitrary: errors) (auto simp: verify_source_clean)

lemma verify_identities_clean:
  "verify_source_identities repr env evidence = [] \<longleftrightarrow>
     (\<exists>sources. py_get evidence ''sources'' = PList sources \<and>
        (\<forall>v \<in> set sources. \<exists>s. v = PDict s \<and> all_pinned env s))"
  by (cases "py_get evidence ''sources''") (simp_all add: verify_source_identities_def verify_sources_clean)

text \<open>
  The release protocol's verifier accepts the source identities exactly when every entry of the
  evidence is an object whose protocol, result and verifier exist in the working tree and in the named
  commits with the recorded digests: the pinning that the release gate demands.
\<close>

theorem verify_identities_iff:
  "verify_source_identities repr env evidence = [] \<longleftrightarrow>
     (\<exists>sources. py_get evidence ''sources'' = PList sources \<and>
        (\<forall>v \<in> set sources. \<exists>s. v = PDict s \<and> all_pinned env s))"
  by (rule verify_identities_clean)

theorem verify_identities_iff_witness:
  "verify_source_identities (\<lambda>v. []) sample_environment sample_gate_evidence = []"
  unfolding verify_identities_iff by (simp add: sample_documents sample_pinned)

subsection \<open>The frozen corpus\<close>

text \<open>A mutation that the verifier accepts: it applies to its baseline and changes it.\<close>

definition applicable :: "pyval list \<Rightarrow> pyval \<Rightarrow> bool" where
  "applicable traces entry \<longleftrightarrow>
     (\<exists>item base mutated. entry = PDict item \<and> PDict base \<in> set traces \<and>
        py_eq (py_get base ''trace_id'') (py_get item ''base_trace_id'') \<and>
        apply_mutation base item = Inr mutated \<and> \<not> py_eq mutated (PDict base))"

lemma index_traces_mem:
  assumes "index_traces traces = Inr by_id" "(k, trace) \<in> set by_id"
  shows "PDict trace \<in> set traces \<and> k = py_get trace ''trace_id''"
proof -
  obtain x where x: "x \<in> set (objects_of traces)" "index_trace x = Inr (k, trace)"
    using map_result_mem [OF assms(1) [unfolded index_traces_def] assms(2)] by auto
  then show ?thesis by (auto simp: index_trace_def objects_of_iff split: if_splits)
qed

lemma find_base_Inr:
  assumes "index_traces traces = Inr by_id" "find_base by_id k = Inr (Some base)"
  shows "PDict base \<in> set traces \<and> py_eq (py_get base ''trace_id'') k"
proof -
  obtain k' where "find (\<lambda>(k', t). py_eq k' k) (rev by_id) = Some (k', base)"
    using assms(2) by (auto simp: find_base_def split: if_splits)
  then have "py_eq k' k" "(k', base) \<in> set by_id"
    by (auto simp: find_Some_iff) (metis nth_mem set_rev length_rev)
  then show ?thesis using index_traces_mem [OF assms(1)] by auto
qed

lemma check_mutation_clean:
  assumes index: "index_traces traces = Inr by_id"
    and clean: "check_mutation repr exc_text by_id errors entry = Inr []"
  shows "applicable traces entry \<and> errors = []"
proof (cases entry)
  case (PDict item)
  let ?k = "py_get item ''base_trace_id''"
  from clean obtain supported where s: "member_of (py_get item ''operator'') [''replace'', ''remove''] = Inr supported"
    by (auto simp: check_mutation_def PDict Let_def bind_result_Inr_iff)
  with clean have supported: "supported" by (simp add: check_mutation_def PDict Let_def split: if_splits)
  note run = clean [unfolded check_mutation_def PDict as_items.simps option.case Let_def s bind_result_simps]
  obtain found where f: "find_base by_id ?k = Inr found"
    using run supported by (cases "find_base by_id ?k") simp_all
  then obtain base where base: "found = Some base"
    using run supported by (cases found) simp_all
  show ?thesis
  proof (cases "apply_mutation base item")
    case (Inl e)
    then show ?thesis using run supported by (cases e) (simp add: f base split: if_splits)
  next
    case (Inr mutated)
    then have "\<not> py_eq mutated (PDict base) \<and> errors = []"
      using run supported by (simp add: f base flag_clean)
    then show ?thesis
      using find_base_Inr [OF index f [unfolded base]] Inr by (auto simp: applicable_def PDict)
  qed
qed (use clean in \<open>simp_all add: check_mutation_def\<close>)

lemma check_mutations_clean:
  assumes "index_traces traces = Inr by_id"
  shows "run_steps (check_mutation repr exc_text by_id) errors entries = Inr [] \<Longrightarrow>
    (\<forall>entry \<in> set entries. applicable traces entry) \<and> errors = []"
proof (induction entries arbitrary: errors)
  case (Cons entry entries)
  then obtain errors' where step: "check_mutation repr exc_text by_id errors entry = Inr errors'"
    and "run_steps (check_mutation repr exc_text by_id) errors' entries = Inr []"
    by (auto simp: bind_result_Inr_iff)
  with Cons.IH have rest: "\<forall>entry \<in> set entries. applicable traces entry" "errors' = []" by blast+
  with check_mutation_clean [OF assms] step show ?case by simp
qed simp

lemma list_or_report_clean:
  "list_or_report v message errors = ([], vs) \<longleftrightarrow> v = PList vs \<and> errors = []"
  by (cases v) (auto simp: list_or_report_def)

lemma trace_protocol_clean:
  assumes "validate_trace_protocol repr exc_text protocol schema baselines mutations results_exist = Inr []"
  obtains traces entries where
    "py_get baselines ''traces'' = PList traces" "py_get mutations ''mutations'' = PList entries"
    "names_of repr ''trace_id'' traces = expected_baseline_ids" "names_of repr ''id'' entries = expected_mutation_ids"
    "check_trace_protocol protocol schema results_exist = []"
    "\<forall>entry \<in> set entries. applicable traces entry"
proof -
  obtain errors1 traces where l1: "list_or_report (py_get baselines ''traces'') ''baseline traces must be a list''
        (check_fields baselines
          [(''schema_version'', PStr ''carl.trace-integrity-baselines.v1'', ''baseline schema_version mismatch'')]
          (check_trace_protocol protocol schema results_exist)) = (errors1, traces)"
    by (rule prod.exhaust)
  obtain by_id where l2: "index_traces traces = Inr by_id"
    using assms by (cases "index_traces traces") (simp_all add: validate_trace_protocol_def Let_def l1 del: check_fields.simps)
  obtain errors2 entries where l3: "list_or_report (py_get mutations ''mutations'') ''mutations must be a list''
        (check_fields mutations
          [(''schema_version'', PStr ''carl.trace-integrity-mutations.v1'', ''mutation schema_version mismatch'')]
          (flag (names_of repr ''trace_id'' traces \<noteq> expected_baseline_ids)
            ''baseline ids/order differ from the frozen definition'' errors1)) = (errors2, entries)"
    by (rule prod.exhaust)
  note lists = l1 l2 l3
  have run: "run_steps (check_mutation repr exc_text by_id)
        (flag (first_occurrences (names_of repr ''category'' entries) \<noteq> expected_categories)
          ''mutation categories/order differ from the frozen definition''
          (flag (names_of repr ''id'' entries \<noteq> expected_mutation_ids)
            ''mutation ids/order differ from the frozen definition'' errors2)) entries = Inr []"
    using assms by (simp add: validate_trace_protocol_def Let_def lists del: check_fields.simps)
  note clean = check_mutations_clean [OF lists(2) run]
  then have ids: "names_of repr ''id'' entries = expected_mutation_ids" "errors2 = []"
    unfolding flag_clean by auto
  have "py_get mutations ''mutations'' = PList entries" "names_of repr ''trace_id'' traces = expected_baseline_ids"
    and errors1: "errors1 = []"
    using lists(3) [unfolded ids list_or_report_clean check_fields_clean flag_clean] by auto
  moreover have "py_get baselines ''traces'' = PList traces" "check_trace_protocol protocol schema results_exist = []"
    using lists(1) [unfolded errors1 list_or_report_clean check_fields_clean] by auto
  ultimately show thesis using clean ids by (intro that) auto
qed

text \<open>
  C21: When the trace protocol's verifier reports nothing, the gates are the frozen ones, no result was
  published, the baselines and mutations carry the frozen names in order, and every mutation
  applies to an existing baseline and really changes it.
\<close>

theorem verified_corpus_is_applicable:
  assumes "validate_trace_protocol repr exc_text protocol schema baselines mutations results_exist = Inr []"
  shows "\<not> results_exist \<and> py_eq (py_get protocol ''detection_gates'') (PDict expected_detection_gates) \<and>
    (\<exists>traces entries.
       py_get baselines ''traces'' = PList traces \<and> py_get mutations ''mutations'' = PList entries \<and>
       names_of repr ''trace_id'' traces = expected_baseline_ids \<and>
       names_of repr ''id'' entries = expected_mutation_ids \<and>
       (\<forall>entry \<in> set entries. applicable traces entry))"
proof -
  obtain traces entries where lists:
    "py_get baselines ''traces'' = PList traces" "py_get mutations ''mutations'' = PList entries"
    "names_of repr ''trace_id'' traces = expected_baseline_ids" "names_of repr ''id'' entries = expected_mutation_ids"
    "check_trace_protocol protocol schema results_exist = []"
    "\<forall>entry \<in> set entries. applicable traces entry"
    using assms by (rule trace_protocol_clean)
  from lists(5) have "\<not> results_exist" "py_eq (py_get protocol ''detection_gates'') (PDict expected_detection_gates)"
    unfolding check_trace_protocol_def Let_def flag_clean check_fields_clean by auto
  with lists show ?thesis by blast
qed

text \<open>A corpus with the frozen names: every mutation sets the field \<open>x\<close> of the first baseline.\<close>

definition sample_trace_protocol :: items where
  "sample_trace_protocol =
     [(''schema_version'', PStr ''carl.trace-integrity-evaluation-protocol.v1''),
      (''protocol_id'', PStr ''trace-integrity-v1-20260913''), (''status'', PStr ''frozen_unexecuted''),
      (''detection_gates'', PDict expected_detection_gates), (''claim_boundary'', trace_claim_boundary),
      (''execution'', execution_controls ''evals/trace_integrity_v1/artifacts/run-{run}.json''),
      (''result_artifact'', result_boundary ''evals/trace_integrity_v1/RESULTS.json''),
      (''detector'', expected_detector), (''artifacts'', expected_artifacts)]"

definition sample_schema :: items where
  "sample_schema =
     [(''schema_version'', PStr ''carl.trace-integrity-schema.v1''),
      (''record_kinds'', PDict (map (\<lambda>kind. (kind, PNone)) expected_record_kinds))]"

definition sample_frozen_baselines :: items where
  "sample_frozen_baselines =
     [(''schema_version'', PStr ''carl.trace-integrity-baselines.v1''),
      (''traces'', PList (map (\<lambda>name. PDict [(''trace_id'', PStr name), (''x'', PInt 0)]) expected_baseline_ids))]"

definition sample_frozen_mutation :: "string \<times> string \<Rightarrow> pyval" where
  "sample_frozen_mutation name_category =
     PDict [(''id'', PStr (fst name_category)), (''category'', PStr (snd name_category)),
            (''operator'', PStr ''replace''), (''path'', PStr ''/x''), (''value'', PInt 1),
            (''base_trace_id'', PStr ''retry_then_reconcile'')]"

definition sample_frozen_mutations :: items where
  "sample_frozen_mutations =
     [(''schema_version'', PStr ''carl.trace-integrity-mutations.v1''),
      (''mutations'', PList (map sample_frozen_mutation
         (zip expected_mutation_ids (expected_categories @ replicate 9 ''reconciliation_completion''))))]"

lemma sample_corpus_accepted:
  "validate_trace_protocol (\<lambda>v. []) snd sample_trace_protocol sample_schema sample_frozen_baselines sample_frozen_mutations False =
     Inr []"
  by code_simp

theorem verified_corpus_is_applicable_witness:
  "\<exists>entries. py_get sample_frozen_mutations ''mutations'' = PList entries \<and>
     (\<exists>traces. \<forall>entry \<in> set entries. applicable traces entry)"
  using verified_corpus_is_applicable [OF sample_corpus_accepted] by blast

subsection \<open>What the release decision is left to decide\<close>

lemma release_protocol_clean:
  assumes "validate_release_protocol repr protocol evidence results_exist = []"
    and "py_get evidence ''sources'' = PList sources"
  shows "py_eq (py_get protocol ''release_criteria'') (PDict expected_release_criteria)"
    "length sources = 2" "length (objects_of sources) = 2"
proof -
  note clean = assms(1) [unfolded validate_release_protocol_def Let_def assms(2) as_list.simps option.case
      flag_clean check_fields_clean not_not]
  show "py_eq (py_get protocol ''release_criteria'') (PDict expected_release_criteria)" "length sources = 2"
    using clean by simp_all
  have "names_of repr ''id'' sources = expected_source_ids" using clean by simp
  then have "length (objects_of sources) = length expected_source_ids"
    unfolding names_of_def by (metis length_map)
  then show "length (objects_of sources) = 2" by (simp add: expected_source_ids_def)
qed

lemma criteria_fields:
  assumes "py_eq (PDict criteria) (PDict expected_release_criteria)" "distinct (map fst criteria)"
    and "(k, v) \<in> set expected_release_criteria"
  shows "py_eq (py_get criteria k) v"
proof -
  have distinct: "distinct (map fst expected_release_criteria)" by code_simp
  then have "map_of expected_release_criteria k = Some v" using assms(3) by simp
  from py_eq_dict_get [OF assms(1,2) distinct this] show ?thesis by (auto simp: py_get_def)
qed

definition publication_and_verifier :: "environment \<Rightarrow> items \<Rightarrow> items \<Rightarrow> bool" where
  "publication_and_verifier env criteria source \<longleftrightarrow>
     (\<exists>res. load_result env source = Inr (Some res) \<and> publication_qualifies criteria source res) \<and>
     (\<exists>path. py_get source ''result_verifier_path'' = PStr path \<and> exit_code env path = 0)"

text \<open>
  C22: After both checks of the release protocol's verifier, the release gate evaluates two sources, and
  whether the release is ready depends only on their publications and their verifiers: identities and
  the number of sources are settled (the count must be an integer, where the verifier's \<open>==\<close> would
  also take \<open>2.0\<close>).
\<close>

theorem verified_release_rests_on_publications:
  assumes verified: "validate_release_protocol repr protocol evidence results_exist = []"
      "verify_source_identities repr env evidence = []"
    and wf: "wf_doc (PDict protocol)" and docs: "py_get protocol ''release_criteria'' = PDict criteria"
      "py_get evidence ''sources'' = PList sources"
    and rep: "evaluate_manifest repr env protocol evidence = Inr rep"
  shows "gr_source_count rep = 2 \<and>
    (gr_release_ready rep \<longleftrightarrow>
       as_int (py_get criteria ''required_source_count'') \<noteq> None \<and>
       (\<forall>source. PDict source \<in> set sources \<longrightarrow> publication_and_verifier env criteria source))"
proof -
  note two = release_protocol_clean [OF verified(1) docs(2)]
  have "map_of protocol ''release_criteria'' = Some (PDict criteria)"
    using docs(1) by (simp add: py_get_def split: option.splits)
  then have "wf_doc (PDict criteria)"
    using wf wf_child by fastforce
  then have "py_eq (py_get criteria ''required_source_count'') (PInt 2)"
    using two(1) by (intro criteria_fields) (simp_all add: docs(1) expected_release_criteria_def del: py_eq.simps)
  then have count: "as_int (py_get criteria ''required_source_count'') \<noteq> None \<longleftrightarrow>
      as_int (py_get criteria ''required_source_count'') = Some 2"
    by (cases "py_get criteria ''required_source_count''") (auto simp: of_bool_def split: if_splits)
  have pinned: "all_pinned env source" if "PDict source \<in> set sources" for source
    using verified(2) that unfolding verify_identities_clean docs(2) by auto
  have "gr_source_count rep = 2"
    using rep two(3) map_result_length unfolding evaluate_manifest_Inr docs
    by (fastforce simp: gate_result_def Let_def)
  moreover have "gr_release_ready rep \<longleftrightarrow>
      as_int (py_get criteria ''required_source_count'') = Some 2 \<and>
      (\<forall>source. PDict source \<in> set sources \<longrightarrow> source_qualifies env criteria source)"
    using two(3) by (auto simp: ready_conditions [OF rep] docs)
  ultimately show ?thesis
    using pinned unfolding count by (auto simp: source_qualifies_def publication_and_verifier_def)
qed

definition sample_release_protocol :: items where
  "sample_release_protocol =
     [(''schema_version'', PStr ''carl.combined-evidence-release-protocol.v1''),
      (''protocol_id'', PStr ''combined-evidence-release-v1-20260916''), (''status'', PStr ''frozen_unexecuted''),
      (''release_criteria'', PDict expected_release_criteria), (''claim_boundary'', release_claim_boundary),
      (''evidence_manifest'', evidence_identity), (''evaluator'', evaluator_identity),
      (''execution'', execution_controls ''evals/release_gate_v1/artifacts/run-{run}.json''),
      (''result_artifact'', result_boundary ''evals/release_gate_v1/RESULTS.json'')]"

definition sample_release_source :: "string \<Rightarrow> pyval" where
  "sample_release_source name = PDict ((''id'', PStr name) # tl sample_source)"

definition sample_release_evidence :: items where
  "sample_release_evidence =
     [(''schema_version'', PStr ''carl.combined-evidence-manifest.v1''),
      (''evidence_set_id'', PStr ''combined-release-evidence-v1-20260916''),
      (''sources'', PList (map sample_release_source expected_source_ids))]"

lemma sample_release_sources:
  "py_get sample_release_evidence ''sources'' = PList (map sample_release_source expected_source_ids)"
  by (simp add: py_get_def sample_release_evidence_def)

lemma sample_release_accepted:
  "validate_release_protocol (\<lambda>v. []) sample_release_protocol sample_release_evidence False = []"
proof -
  have fields: "check_fields sample_release_protocol
      [(''schema_version'', PStr ''carl.combined-evidence-release-protocol.v1'', ''protocol schema_version mismatch''),
       (''protocol_id'', PStr ''combined-evidence-release-v1-20260916'', ''protocol_id mismatch''),
       (''status'', PStr ''frozen_unexecuted'', ''protocol must remain frozen_unexecuted at the freeze boundary''),
       (''release_criteria'', PDict expected_release_criteria, ''release criteria differ from the frozen definition''),
       (''claim_boundary'', release_claim_boundary, ''claim boundary differs from the frozen definition''),
       (''evidence_manifest'', evidence_identity, ''evidence manifest identity differs from the frozen definition''),
       (''evaluator'', evaluator_identity, ''evaluator identity differs from the frozen definition''),
       (''execution'', execution_controls ''evals/release_gate_v1/artifacts/run-{run}.json'',
         ''execution controls differ from the frozen definition''),
       (''result_artifact'', result_boundary ''evals/release_gate_v1/RESULTS.json'',
         ''result artifact boundary differs from the frozen definition'')] [] = []"
    by code_simp
  have names: "names_of (\<lambda>v. []) ''id'' (map sample_release_source expected_source_ids) = expected_source_ids"
    by (simp add: names_of_def expected_source_ids_def sample_release_source_def objects_of_def py_get_def py_str_def
        List.map_filter_simps)
  have evidence: "check_fields sample_release_evidence
      [(''schema_version'', PStr ''carl.combined-evidence-manifest.v1'', ''evidence schema_version mismatch''),
       (''evidence_set_id'', PStr ''combined-release-evidence-v1-20260916'', ''evidence_set_id mismatch'')] [] = []"
    by (simp add: py_get_def sample_release_evidence_def flag_def)
  show ?thesis
    by (simp add: validate_release_protocol_def sample_release_sources fields names evidence flag_def
        del: check_fields.simps) (simp add: expected_source_ids_def)
qed

lemma sample_release_document:
  "wf_doc (PDict sample_release_protocol)"
  "py_get sample_release_protocol ''release_criteria'' = PDict expected_release_criteria"
  by code_simp+

lemma sample_release_pinned: "all_pinned sample_environment ((''id'', v) # tl sample_source)"
  using sample_pinned by (simp add: all_pinned_def py_get_def sample_source_def)

lemma sample_release_identities:
  "verify_source_identities (\<lambda>v. []) sample_environment sample_release_evidence = []"
  by (simp add: verify_identities_clean sample_release_sources sample_release_source_def sample_release_pinned)

theorem verified_release_rests_on_publications_witness:
  "\<exists>rep. evaluate_manifest (\<lambda>v. []) sample_environment sample_release_protocol sample_release_evidence = Inr rep \<and>
     gr_source_count rep = 2"
proof -
  have load: "load_result sample_environment ((''id'', v) # tl sample_source) = Inr (Some sample_publication)" for v
    using sample_load by (simp add: load_result_def py_get_def sample_source_def)
  have "returns (map_result (evaluate_source (\<lambda>v. []) sample_environment expected_release_criteria)
      (objects_of (map sample_release_source expected_source_ids)))"
    by (auto simp: map_result_returns evaluate_source_returns objects_of_iff sample_release_source_def load)
  then have "\<exists>rep. evaluate_manifest (\<lambda>v. []) sample_environment sample_release_protocol sample_release_evidence = Inr rep"
    by (auto simp: evaluate_manifest_Inr sample_release_document sample_release_sources returns_iff)
  then obtain rep where
    rep: "evaluate_manifest (\<lambda>v. []) sample_environment sample_release_protocol sample_release_evidence = Inr rep"
    by blast
  with verified_release_rests_on_publications [OF sample_release_accepted sample_release_identities
      sample_release_document sample_release_sources rep]
  show ?thesis by blast
qed

end
