(* ===== verification/Release.thy ===== *)
theory Release
  imports Protocols TraceMutations Evaluation
begin

section \<open>From the release decision to the evaluations\<close>

text \<open>
  How the scripts fit together: the release gate starts the verifiers of the published results, these
  compare the publications with the recorded runs, and the runs come from the evaluations. The
  locale \<open>result_verifier\<close> is the contract of a verifier process; both \<open>verify_results.py\<close> scripts
  of the evaluations provide it.
\<close>

subsection \<open>What a verifier process guarantees\<close>

definition recorded_runs :: "environment \<Rightarrow> string \<Rightarrow> 8 word list list \<Rightarrow> bool" where
  "recorded_runs env directory payloads \<longleftrightarrow>
     (\<forall>i < length payloads. files env (run_path directory (Suc i)) = Some (payloads ! i))"

text \<open>
  A publication in a directory holds: the protocol is the frozen one, the runs are the recorded files,
  the published metrics are those of the first run, and the disposition says whether they meet the
  protocol's gates.
\<close>

definition publication_holds :: "string \<Rightarrow> string \<Rightarrow> string \<Rightarrow> environment \<Rightarrow> bool" where
  "publication_holds directory field frozen env \<longleftrightarrow>
     (\<exists>protocol res payloads normalized metrics.
        load_file env (directory @ ''/PROTOCOL.json'') = Inr (PDict protocol) \<and>
        digest_of env (directory @ ''/PROTOCOL.json'') = Inr frozen \<and>
        load_file env (directory @ ''/RESULTS.json'') = Inr (PDict res) \<and>
        recorded_runs env directory payloads \<and>
        published_runs directory env protocol payloads res normalized \<and>
        py_get normalized ''metrics'' = PDict metrics \<and>
        py_get res ''aggregate_disposition'' =
          PStr (if gates_met field protocol metrics then ''pass'' else ''fail''))"

text \<open>The recorded metrics of a directory meet the gates of its protocol.\<close>

definition recorded_gates_met :: "string \<Rightarrow> string \<Rightarrow> string \<Rightarrow> environment \<Rightarrow> bool" where
  "recorded_gates_met directory field frozen env \<longleftrightarrow>
     (\<exists>protocol run normalized metrics.
        load_file env (directory @ ''/PROTOCOL.json'') = Inr (PDict protocol) \<and>
        digest_of env (directory @ ''/PROTOCOL.json'') = Inr frozen \<and>
        files env (run_path directory 1) = Some run \<and> read_json env run = Inr (Some (PDict normalized)) \<and>
        py_get normalized ''metrics'' = PDict metrics \<and> gates_met field protocol metrics)"

lemma read_runs_recorded:
  assumes "read_runs env directory run_count = Inr payloads"
  shows "recorded_runs env directory payloads"
proof -
  obtain n where runs: "map_result (\<lambda>index. read_bytes env (run_path directory index)) [1 ..< Suc n] = Inr payloads"
    using assms by (auto simp: read_runs_def simp del: upt_Suc split: option.splits)
  then have "length payloads = n" using map_result_length [OF runs] by simp
  moreover have "files env (run_path directory (Suc i)) = Some (payloads ! i)" if "i < n" for i
    using map_result_nth [OF runs, of i] that
    by (simp add: read_bytes_def del: upt_Suc split: option.splits)
  ultimately show ?thesis by (simp add: recorded_runs_def)
qed

lemma exit_status_0: "exit_status r = 0 \<longleftrightarrow> r = Inr 0"
  by (cases r) (simp_all add: exit_status_def)

lemma load_result_file:
  assumes "load_result env source = Inr (Some res)" "py_get source ''result_path'' = PStr path"
  shows "load_file env path = Inr (PDict res)"
proof -
  obtain bytes loaded where "files env path = Some bytes" "read_json env bytes = Inr (Some loaded)" "as_items loaded = Some res"
    using assms by (auto simp: load_result_def bind_result_Inr_iff split: option.splits)
  moreover from this have "loaded = PDict res" by (cases loaded) simp_all
  ultimately show ?thesis by (simp add: load_file_def)
qed

locale result_verifier =
  fixes script :: "environment \<Rightarrow> int result" and directory field frozen :: string
  assumes script_success: "script env = Inr 0 \<Longrightarrow> publication_holds directory field frozen env"
begin

lemma exit_success: "exit_status (script env) = 0 \<Longrightarrow> publication_holds directory field frozen env"
  by (simp add: exit_status_0 script_success)

lemma passed_gates:
  assumes "exit_status (script env) = 0" and res: "load_file env (directory @ ''/RESULTS.json'') = Inr (PDict res)"
    and pass: "py_get res ''aggregate_disposition'' = PStr ''pass''"
  shows "recorded_gates_met directory field frozen env"
proof -
  obtain protocol res' payloads normalized metrics where
    holds: "load_file env (directory @ ''/PROTOCOL.json'') = Inr (PDict protocol)"
      "digest_of env (directory @ ''/PROTOCOL.json'') = Inr frozen"
      "load_file env (directory @ ''/RESULTS.json'') = Inr (PDict res')"
      "recorded_runs env directory payloads" "published_runs directory env protocol payloads res' normalized"
      "py_get normalized ''metrics'' = PDict metrics"
      "py_get res' ''aggregate_disposition'' = PStr (if gates_met field protocol metrics then ''pass'' else ''fail'')"
    using exit_success [OF assms(1)] unfolding publication_holds_def by blast
  have "gates_met field protocol metrics"
    using holds(3,7) res pass by (auto split: if_splits)
  moreover have "payloads \<noteq> []" "read_json env (hd payloads) = Inr (Some (PDict normalized))"
    using holds(5) by (auto simp: published_runs_def)
  moreover from this(1) have "files env (run_path directory 1) = Some (hd payloads)"
    using holds(4) by (auto simp: recorded_runs_def hd_conv_nth)
  ultimately show ?thesis using holds(1,2,6) unfolding recorded_gates_met_def by blast
qed

text \<open>A ready release whose environment runs this script has its gates met by the recorded run.\<close>

lemma ready_gates:
  assumes "evaluate_manifest repr env protocol evidence = Inr rep" "gr_release_ready rep"
    and "py_get protocol ''release_criteria'' = PDict criteria"
    and "py_get criteria ''required_source_disposition'' = PStr ''pass''"
    and "py_get evidence ''sources'' = PList sources" "PDict source \<in> set sources"
    and result: "py_get source ''result_path'' = PStr (directory @ ''/RESULTS.json'')"
    and verifier: "py_get source ''result_verifier_path'' = PStr path" "exit_code env path = exit_status (script env)"
  shows "recorded_gates_met directory field frozen env"
proof -
  obtain criteria' where criteria': "py_get protocol ''release_criteria'' = PDict criteria'"
    and qualifies: "source_qualifies env criteria' source"
    using assms(1,2,5,6) by (rule ready_source_qualifies)
  then have "exit_status (script env) = 0"
    using verifier by (auto simp: source_qualifies_def)
  moreover obtain res where "load_result env source = Inr (Some res)"
    "py_get res ''aggregate_disposition'' = PStr ''pass''"
    using qualifies criteria' assms(3,4) by (auto simp: source_qualifies_def publication_qualifies_def)
  ultimately show ?thesis using load_result_file result by (blast intro: passed_gates)
qed

end

lemma trace_script_success:
  assumes "trace_results_main frozen env = Inr 0"
  shows "publication_holds ''evals/trace_integrity_v1'' ''detection_gates'' frozen env"
proof -
  obtain protocol results run_count payloads sha detector schema baselines mutations where
    files: "load_file env ''evals/trace_integrity_v1/PROTOCOL.json'' = Inr (PDict protocol)"
      "load_file env ''evals/trace_integrity_v1/RESULTS.json'' = Inr results"
      "read_runs env ''evals/trace_integrity_v1'' run_count = Inr payloads"
      "digest_of env ''evals/trace_integrity_v1/PROTOCOL.json'' = Inr sha"
    and valid: "validate_trace_publication frozen env protocol results payloads
      \<lparr>fd_protocol = sha, fd_detector = detector, fd_schema = schema, fd_baselines = baselines,
       fd_mutations = mutations\<rparr> = Inr []"
    using assms
    by (fastforce simp: trace_results_main_def bind_result_Inr_iff verdict_def simp del: nested_item.simps
        split: if_splits)
  note accepted = trace_publication_accepted [OF valid, unfolded frozen_digests.simps]
  obtain res normalized metrics where
    holds: "sha = frozen" "results = PDict res"
    "published_runs ''evals/trace_integrity_v1'' env protocol payloads res normalized"
    "py_get normalized ''metrics'' = PDict metrics"
    "py_get res ''aggregate_disposition'' =
       PStr (if gates_met ''detection_gates'' protocol metrics then ''pass'' else ''fail'')"
    by (rule accepted) (rule that)
  show ?thesis
    using files holds read_runs_recorded [OF files(3)] unfolding publication_holds_def by auto
qed

lemma reliability_script_success:
  assumes "reliability_results_main frozen env = Inr 0"
  shows "publication_holds ''evals/reliability_v1'' ''metrics'' frozen env"
proof -
  obtain protocol scenarios results run_count payloads protocol_sha scenario_sha where
    files: "load_file env ''evals/reliability_v1/PROTOCOL.json'' = Inr (PDict protocol)"
      "load_file env ''evals/reliability_v1/RESULTS.json'' = Inr results"
      "read_runs env ''evals/reliability_v1'' run_count = Inr payloads"
      "digest_of env ''evals/reliability_v1/PROTOCOL.json'' = Inr protocol_sha"
    and valid: "validate_reliability_publication frozen env protocol scenarios results payloads protocol_sha scenario_sha =
      Inr []"
    using assms
    by (fastforce simp: reliability_results_main_def bind_result_Inr_iff verdict_def simp del: nested_item.simps
        split: if_splits)
  from reliability_publication_accepted [OF valid] obtain res normalized metrics where
    holds: "protocol_sha = frozen" "results = PDict res"
    "published_runs ''evals/reliability_v1'' env protocol payloads res normalized"
    "py_get normalized ''metrics'' = PDict metrics"
    "\<exists>manifest. py_get protocol ''scenario_manifest'' = PDict manifest \<and> py_get manifest ''sha256'' = PStr scenario_sha"
    "py_get res ''aggregate_disposition'' =
       PStr (if gates_met ''metrics'' protocol metrics then ''pass'' else ''fail'')" .
  show ?thesis
    using files holds read_runs_recorded [OF files(3)] unfolding publication_holds_def by auto
qed

interpretation trace_verifier: result_verifier
  "trace_results_main frozen" "''evals/trace_integrity_v1''" "''detection_gates''" frozen for frozen
  by unfold_locales (rule trace_script_success)

interpretation reliability_verifier: result_verifier
  "reliability_results_main frozen" "''evals/reliability_v1''" "''metrics''" frozen for frozen
  by unfold_locales (rule reliability_script_success)

subsection \<open>Frozen gates and the evaluations' metrics\<close>

text \<open>The dict of metrics that each evaluation prints.\<close>

definition corpus_metrics_items :: "corpus_metrics \<Rightarrow> items" where
  "corpus_metrics_items m =
     [(''clean_trace_count'', PInt (int (cm_clean_trace_count m))),
      (''clean_trace_accept_rate'', PFloat (cm_clean_trace_accept_rate m)),
      (''mutation_count'', PInt (int (cm_mutation_count m))),
      (''mutation_detection_rate'', PFloat (cm_mutation_detection_rate m)),
      (''false_positive_count'', PInt (int (cm_false_positive_count m))),
      (''false_negative_count'', PInt (int (cm_false_negative_count m))),
      (''detector_error_count'', PInt (int (cm_detector_error_count m)))]"

definition evaluation_metrics_items :: "evaluation_metrics \<Rightarrow> items" where
  "evaluation_metrics_items m =
     [(''scenario_count'', PInt (int (em_scenario_count m))),
      (''scenario_passed'', PInt (int (em_scenario_passed m))),
      (''scenario_pass_rate'', PFloat (em_scenario_pass_rate m)),
      (''safety_applicable'', PInt (int (em_safety_applicable m))),
      (''safety_passed'', PInt (int (em_safety_passed m))),
      (''safety_pass_rate'', PFloat (em_safety_pass_rate m)),
      (''convergence_applicable'', PInt (int (em_convergence_applicable m))),
      (''convergence_passed'', PInt (int (em_convergence_passed m))),
      (''convergence_pass_rate'', PFloat (em_convergence_pass_rate m)),
      (''fail_closed_applicable'', PInt (int (em_fail_closed_applicable m))),
      (''fail_closed_passed'', PInt (int (em_fail_closed_passed m))),
      (''fail_closed_pass_rate'', PFloat (em_fail_closed_pass_rate m)),
      (''duplicate_effect_violations'', PInt (em_duplicate_effect_violations m)),
      (''all_scenarios_passed'', PBool (em_all_scenarios_passed m))]"

lemma meets_equals_gate [simp]:
  "meets metrics (name, equals_gate threshold) \<longleftrightarrow>
     is_number threshold \<and> is_number (py_get metrics name) \<and> as_number (py_get metrics name) = as_number threshold"
  by (auto simp: meets_def equals_gate_def py_get_def [of "[_, _]"])

lemma is_number_simps [simp]: "is_number (PInt n)" "is_number (PFloat q)"
  by (simp_all add: is_number_def)

definition corpus_is_checked :: "items \<Rightarrow> corpus_report \<Rightarrow> bool" where
  "corpus_is_checked baselines rep \<longleftrightarrow>
     (\<exists>traces. py_get baselines ''traces'' = PList traces \<and> traces \<noteq> [] \<and>
        (\<forall>t \<in> set traces. validate_trace (dict_of t) = Inr [])) \<and>
     (\<forall>r \<in> set (cr_mutation_results rep). tr_violations r \<noteq> [])"

lemma corpus_counts:
  assumes "evaluate_trace_corpus b m = Inr rep"
  shows "cm_false_positive_count (cr_metrics rep) = 0 \<longleftrightarrow> cm_clean_trace_accept_rate (cr_metrics rep) = 1"
    "cm_false_negative_count (cr_metrics rep) = 0 \<longleftrightarrow> cm_mutation_detection_rate (cr_metrics rep) = 1"
proof -
  obtain clean mutated metrics where metrics: "corpus_summary clean mutated = Inr metrics" "cr_metrics rep = metrics"
    using assms by (auto simp: evaluate_trace_corpus_def bind_result_Inr_iff split: option.splits)
  obtain q p where q: "ratio (length clean - count_rejected clean) (length clean) = Inr q"
    and p: "ratio (length mutated - count_rejected mutated) (length mutated) = Inr p"
    and m: "cm_false_positive_count metrics = count_rejected clean" "cm_false_negative_count metrics = count_rejected mutated"
      "cm_clean_trace_accept_rate metrics = q" "cm_mutation_detection_rate metrics = p"
    using metrics(1) by (auto simp: corpus_summary_def Let_def bind_result_Inr_iff)
  show "cm_false_positive_count (cr_metrics rep) = 0 \<longleftrightarrow> cm_clean_trace_accept_rate (cr_metrics rep) = 1"
    using accept_ratio(4) [OF q count_rejected_le] by (simp add: metrics(2) m)
  show "cm_false_negative_count (cr_metrics rep) = 0 \<longleftrightarrow> cm_mutation_detection_rate (cr_metrics rep) = 1"
    using accept_ratio(4) [OF p count_rejected_le] by (simp add: metrics(2) m)
qed

subsection \<open>Gates compared as dicts\<close>

text \<open>
  The protocol verifiers compare the frozen gates with \<open>==\<close>, whatever the order of the keys in the
  pinned file. A gate of such a dict has the operator and the threshold of the frozen one.
\<close>

lemma frozen_gate:
  assumes "py_eq (PDict gates) (PDict expected)" "wf_doc (PDict gates)" "distinct (map fst expected)"
    and "map_of expected name = Some (equals_gate threshold)" "as_number threshold = Some q"
  shows "\<exists>spec. map_of gates name = Some (PDict spec) \<and> py_get spec ''operator'' = PStr ''eq'' \<and>
    as_number (py_get spec ''threshold'') = Some q"
proof -
  let ?frozen = "[(''operator'', PStr ''eq''), (''threshold'', threshold)]"
  have gates: "distinct (map fst gates)" "wf_items gates" using assms(2) by simp_all
  obtain v where v: "map_of gates name = Some v" "py_eq v (equals_gate threshold)"
    using py_eq_dict_get [OF assms(1) gates(1) assms(3,4)] by blast
  then obtain spec where spec: "v = PDict spec"
    by (cases v) (auto simp: equals_gate_def)
  then have distinct: "distinct (map fst spec)" using wf_child [OF gates(2) v(1)] by simp
  have eq: "py_eq (PDict spec) (PDict ?frozen)" using v(2) unfolding spec equals_gate_def .
  note get = py_eq_dict_get [OF eq distinct]
  have "py_get spec ''operator'' = PStr ''eq''"
    using get [of "''operator''" "PStr ''eq''"] by (auto simp: py_get_def)
  moreover have "as_number (py_get spec ''threshold'') = Some q"
    using get [of "''threshold''" threshold] py_eq_as_number [OF _ assms(5)] by (auto simp: py_get_def)
  ultimately show ?thesis using v(1) spec by blast
qed

lemma frozen_gate_met:
  assumes "gates_met field protocol metrics"
    and "py_eq (py_get protocol field) (PDict expected)" "wf_doc (py_get protocol field)" "distinct (map fst expected)"
    and "map_of expected name = Some (equals_gate threshold)" "as_number threshold = Some q"
  shows "as_number (py_get metrics name) = Some q"
proof -
  obtain gates where gates: "py_get protocol field = PDict gates" "\<forall>gate \<in> set gates. meets metrics gate"
    using assms(1) by (auto simp: gates_met_def)
  obtain spec where spec: "map_of gates name = Some (PDict spec)" "as_number (py_get spec ''threshold'') = Some q"
    using frozen_gate [OF assms(2,3) [unfolded gates(1)] assms(4-6)] by blast
  have "meets metrics (name, PDict spec)" using gates(2) map_of_SomeD [OF spec(1)] by blast
  with spec(2) show ?thesis by (simp add: meets_def)
qed

lemma wf_get: "wf_doc (PDict d) \<Longrightarrow> wf_doc (py_get d name)"
  by (auto simp: py_get_def wf_child split: option.split)

lemma corpus_metrics_keys: "distinct (map fst (corpus_metrics_items m))"
  unfolding corpus_metrics_items_def list.map fst_conv by code_simp

lemma recorded_rates:
  assumes "py_eq (PDict metrics) (PDict (corpus_metrics_items m))" "wf_doc (PDict metrics)"
  shows "as_number (py_get metrics ''clean_trace_accept_rate'') = Some (cm_clean_trace_accept_rate m)"
    "as_number (py_get metrics ''mutation_detection_rate'') = Some (cm_mutation_detection_rate m)"
proof -
  have distinct: "distinct (map fst metrics)" using assms(2) by simp
  note get = py_eq_dict_get [OF assms(1) distinct corpus_metrics_keys]
  show "as_number (py_get metrics ''clean_trace_accept_rate'') = Some (cm_clean_trace_accept_rate m)"
    using get [of "''clean_trace_accept_rate''" "PFloat (cm_clean_trace_accept_rate m)"]
      py_eq_as_number [of _ "PFloat (cm_clean_trace_accept_rate m)"]
    by (auto simp: corpus_metrics_items_def py_get_def)
  show "as_number (py_get metrics ''mutation_detection_rate'') = Some (cm_mutation_detection_rate m)"
    using get [of "''mutation_detection_rate''" "PFloat (cm_mutation_detection_rate m)"]
      py_eq_as_number [of _ "PFloat (cm_mutation_detection_rate m)"]
    by (auto simp: corpus_metrics_items_def py_get_def)
qed

lemma gates_check_the_corpus:
  assumes rep: "evaluate_trace_corpus b m = Inr rep"
    and met: "gates_met ''detection_gates'' protocol metrics"
    and gates: "py_eq (py_get protocol ''detection_gates'') (PDict expected_detection_gates)" "wf_doc (PDict protocol)"
    and recorded: "py_eq (PDict metrics) (PDict (corpus_metrics_items (cr_metrics rep)))" "wf_doc (PDict metrics)"
  shows "corpus_is_checked b rep"
proof -
  have distinct: "distinct (map fst expected_detection_gates)" by code_simp
  note rates = frozen_gate_met [OF met gates(1) wf_get [OF gates(2)] distinct]
  have "cm_clean_trace_accept_rate (cr_metrics rep) = 1"
    using rates [of "''clean_trace_accept_rate''" "PFloat 1"] recorded_rates(1) [OF recorded]
    by (simp add: expected_detection_gates_def)
  moreover have "cm_mutation_detection_rate (cr_metrics rep) = 1"
    using rates [of "''mutation_detection_rate''" "PFloat 1"] recorded_rates(2) [OF recorded]
    by (simp add: expected_detection_gates_def)
  ultimately show ?thesis using corpus_metrics_facts [OF rep] by (auto simp: corpus_is_checked_def)
qed

lemma sort_same_keys:
  assumes "distinct (map fst d)" "distinct (map fst e)" "set (map fst d) = set (map fst e)"
  shows "map fst (sort_key fst d) = sort (map fst (e :: items))"
proof -
  have "mset (map fst d) = mset (map fst e)" using assms by (simp only: set_eq_iff_mset_eq_distinct)
  then have "mset (map fst (sort_key fst d)) = mset (map fst e)" by simp
  from properties_for_sort [OF this] show ?thesis by simp
qed

text \<open>
  C23: An evaluation of the frozen scenarios that returns a report meets the frozen metric gates.
  The gates of the protocol are \<open>==\<close> to the frozen dict, with numbers as thresholds (a boolean
  would be \<open>==\<close> too), and the recorded metrics are the report's, both with their keys in any order.
  Then the result verifier derives one gate result for each frozen gate, in sorted order, all passed.
\<close>

theorem evaluation_meets_frozen_gates:
  assumes "evaluate repr directories protocol manifest bytes = Inr outcome"
    and gates: "py_eq (py_get protocol ''metrics'') (PDict expected_metric_gates)" "wf_doc (PDict protocol)"
    and numbers: "\<forall>(name, spec) \<in> set (dict_of (py_get protocol ''metrics'')).
      is_number (py_get (dict_of spec) ''threshold'')"
    and recorded: "map_of metrics = map_of (evaluation_metrics_items (ev_metrics outcome))"
  shows "\<exists>derived. derive_metric_gates protocol metrics = Inr derived \<and>
    map fst derived = sort (map fst expected_metric_gates) \<and> list_all gate_entry_passed derived"
proof -
  obtain ds where ds: "py_get protocol ''metrics'' = PDict ds"
    using gates(1) by (cases "py_get protocol ''metrics''") auto
  have eq: "py_eq (PDict ds) (PDict expected_metric_gates)" "wf_doc (PDict ds)"
    using gates(1) wf_get [OF gates(2), of "''metrics''"] unfolding ds .
  have distinct: "distinct (map fst ds)" "distinct (map fst expected_metric_gates)"
    using eq(2) by (simp, code_simp)
  have met: "meets metrics gate" if gate: "gate \<in> set ds" for gate
  proof -
    obtain name described where split: "gate = (name, described)" by (cases gate)
    with gate have "name \<in> set (map fst ds)" by force
    then have "name \<in> set (map fst expected_metric_gates)" by (simp only: py_eq_dict_keys [OF eq(1) distinct])
    then obtain threshold q where frozen: "map_of expected_metric_gates name = Some (equals_gate threshold)"
      "as_number threshold = Some q" and actual: "is_number (py_get metrics name)" "as_number (py_get metrics name) = Some q"
      using evaluation_report_facts [OF assms(1)] unfolding py_get_def recorded
      by (auto simp: expected_metric_gates_def evaluation_metrics_items_def)
    obtain spec where spec: "map_of ds name = Some (PDict spec)" "py_get spec ''operator'' = PStr ''eq''"
      "as_number (py_get spec ''threshold'') = Some q"
      using frozen_gate [OF eq distinct(2) frozen] by blast
    moreover have "map_of ds name = Some described" using gate distinct(1) by (simp add: split)
    moreover from this spec(1) have "described = PDict spec" by simp
    moreover from this gate numbers have "is_number (py_get spec ''threshold'')"
      by (auto simp: split ds dict_of_def)
    ultimately show ?thesis using actual by (simp add: meets_def split)
  qed
  then obtain derived where derived: "map_result (derive_gate metrics) (sort_key fst ds) = Inr derived"
    using derive_gate_returns map_result_returns [of "derive_gate metrics" "sort_key fst ds"]
    by (auto simp: returns_iff)
  then have run: "derive_gate_results ''metrics'' protocol metrics = Inr derived"
    by (simp add: derive_gate_results_def ds)
  have "ds \<noteq> []" using eq(1) by (auto simp: expected_metric_gates_def)
  with met have "gates_met ''metrics'' protocol metrics" by (simp add: gates_met_def ds)
  then have "list_all gate_entry_passed derived" using derive_gates_cases [OF run] by blast
  moreover have "map fst derived = map fst (sort_key fst ds)" using derived by (rule derived_names)
  moreover have "map fst (sort_key fst ds) = sort (map fst expected_metric_gates)"
    using distinct py_eq_dict_keys [OF eq(1) distinct] by (rule sort_same_keys)
  ultimately show ?thesis using run by (simp add: derive_metric_gates_def)
qed

text \<open>The gates in the order of the pinned file, which is alphabetical.\<close>

definition pinned_metric_gates :: items where
  "pinned_metric_gates =
     [(''convergence_pass_rate'', equals_gate (PFloat 1)), (''duplicate_effect_violations'', equals_gate (PInt 0)),
      (''fail_closed_pass_rate'', equals_gate (PFloat 1)), (''safety_pass_rate'', equals_gate (PFloat 1)),
      (''scenario_pass_rate'', equals_gate (PFloat 1))]"

lemma pinned_metric_gates_same: "py_eq (PDict pinned_metric_gates) (PDict expected_metric_gates)"
  "wf_items pinned_metric_gates" "distinct (map fst pinned_metric_gates)"
  by code_simp+

theorem evaluation_meets_frozen_gates_witness:
  "\<exists>outcome derived. evaluate (\<lambda>_. []) (\<lambda>_. ''/tmp'') ((''metrics'', PDict pinned_metric_gates) # sample_protocol)
       sample_manifest [] = Inr outcome \<and>
     derive_metric_gates ((''metrics'', PDict pinned_metric_gates) # sample_protocol)
       (sort_key fst (evaluation_metrics_items (ev_metrics outcome))) = Inr derived \<and> list_all gate_entry_passed derived"
proof -
  have "evaluate repr directories ((''metrics'', v) # sample_protocol) manifest bytes =
      evaluate repr directories sample_protocol manifest bytes" for repr directories v manifest bytes
    by (simp add: evaluate_def py_get_def member_item_def sample_protocol_def)
  then obtain outcome where run: "evaluate (\<lambda>_. []) (\<lambda>_. ''/tmp'') ((''metrics'', PDict pinned_metric_gates) # sample_protocol)
       sample_manifest [] = Inr outcome"
    using sample_report by auto
  let ?items = "evaluation_metrics_items (ev_metrics outcome)"
  have "distinct (map fst ?items)" unfolding evaluation_metrics_items_def list.map fst_conv by code_simp
  then have recorded: "map_of (sort_key fst ?items) = map_of ?items"
    by (intro map_of_inject_set [THEN iffD2]) (simp_all add: distinct_map)
  have gate: "py_get ((''metrics'', PDict pinned_metric_gates) # sample_protocol) ''metrics'' = PDict pinned_metric_gates"
    by (simp add: py_get_Cons)
  have wf: "wf_doc (PDict ((''metrics'', PDict pinned_metric_gates) # sample_protocol))"
    using pinned_metric_gates_same(2,3) by (simp add: sample_protocol_def)
  have numbers: "\<forall>(name, spec) \<in> set (dict_of (PDict pinned_metric_gates)). is_number (py_get (dict_of spec) ''threshold'')"
    by (simp add: dict_of_def pinned_metric_gates_def equals_gate_def py_get_Cons)
  from evaluation_meets_frozen_gates [OF run _ wf _ recorded, unfolded gate, OF pinned_metric_gates_same(1) numbers] run
  show ?thesis by blast
qed

subsection \<open>What a ready release means\<close>

text \<open>
  C17: Suppose the gate's environment runs the two result verifiers. When a release is ready that
  requires the disposition \<open>pass\<close> and lists both publications, the recorded first run of each
  evaluation has metrics that meet every gate of its protocol, which has the frozen digest.
\<close>

theorem ready_release_meets_gates:
  assumes "evaluate_manifest repr env protocol evidence = Inr rep" and "gr_release_ready rep"
    and "py_get protocol ''release_criteria'' = PDict criteria"
    and "py_get criteria ''required_source_disposition'' = PStr ''pass''"
    and "py_get evidence ''sources'' = PList sources"
    and "PDict trace \<in> set sources"
    and "py_get trace ''result_path'' = PStr ''evals/trace_integrity_v1/RESULTS.json''"
    and "py_get trace ''result_verifier_path'' = PStr trace_path"
    and "exit_code env trace_path = exit_status (trace_results_main trace_frozen env)"
    and "PDict reliability \<in> set sources"
    and "py_get reliability ''result_path'' = PStr ''evals/reliability_v1/RESULTS.json''"
    and "py_get reliability ''result_verifier_path'' = PStr reliability_path"
    and "exit_code env reliability_path = exit_status (reliability_results_main reliability_frozen env)"
  shows "recorded_gates_met ''evals/trace_integrity_v1'' ''detection_gates'' trace_frozen env \<and>
    recorded_gates_met ''evals/reliability_v1'' ''metrics'' reliability_frozen env"
  using trace_verifier.ready_gates [OF assms(1-6) _ assms(8,9)] assms(7)
    reliability_verifier.ready_gates [OF assms(1-5,10) _ assms(12,13)] assms(11) by simp

text \<open>
  C6: Suppose further that the gates of the trace protocol and the metrics of the recorded run are,
  as dicts, the frozen gates and the metrics of an evaluation of the corpus: they are compared
  with \<open>==\<close>, as the protocol verifier does, so the order of the keys in the files is free. Then
  a ready release means that the detector accepted every baseline trace and found violations in
  every mutation.
\<close>

theorem ready_release_checked_the_corpus:
  assumes ready: "evaluate_manifest repr env protocol evidence = Inr rep" "gr_release_ready rep"
      "py_get protocol ''release_criteria'' = PDict criteria"
      "py_get criteria ''required_source_disposition'' = PStr ''pass''"
      "py_get evidence ''sources'' = PList sources"
    and source: "PDict trace \<in> set sources"
      "py_get trace ''result_path'' = PStr ''evals/trace_integrity_v1/RESULTS.json''"
      "py_get trace ''result_verifier_path'' = PStr path"
      "exit_code env path = exit_status (trace_results_main frozen env)"
    and gates: "load_file env ''evals/trace_integrity_v1/PROTOCOL.json'' = Inr (PDict trace_protocol)"
      "wf_doc (PDict trace_protocol)" "py_eq (py_get trace_protocol ''detection_gates'') (PDict expected_detection_gates)"
    and run: "files env ''evals/trace_integrity_v1/artifacts/run-1.json'' = Some bytes"
      "read_json env bytes = Inr (Some (PDict normalized))" "wf_doc (PDict normalized)"
      "py_eq (py_get normalized ''metrics'') (PDict (corpus_metrics_items (cr_metrics corpus)))"
      "evaluate_trace_corpus baselines mutations = Inr corpus"
  shows "corpus_is_checked baselines corpus"
proof -
  have "run_path ''evals/trace_integrity_v1'' 1 = ''evals/trace_integrity_v1/artifacts/run-1.json''"
    by code_simp
  moreover have "recorded_gates_met ''evals/trace_integrity_v1'' ''detection_gates'' frozen env"
    using trace_verifier.ready_gates [OF ready source(1) _ source(3,4)] source(2) by simp
  ultimately obtain metrics where metrics: "py_get normalized ''metrics'' = PDict metrics"
    "gates_met ''detection_gates'' trace_protocol metrics"
    using gates(1) run(1,2) by (auto simp: recorded_gates_met_def)
  show ?thesis
    using run(5) metrics(2) gates(3,2) run(4) wf_get [OF run(3), of "''metrics''"]
    unfolding metrics(1) by (rule gates_check_the_corpus)
qed

subsection \<open>A sample repository\<close>

text \<open>
  Both publications with one run each, in files of one byte: 1 to 8 belong to the trace evaluation, 11 to
  15 to the reliability evaluation. The documents have their keys in the order of the recorded files,
  where the gates and the metrics are sorted by name.
\<close>

definition sample_metrics :: corpus_metrics where
  "sample_metrics =
     \<lparr>cm_clean_trace_count = 1, cm_clean_trace_accept_rate = 1, cm_mutation_count = 1,
      cm_mutation_detection_rate = 1, cm_false_positive_count = 0, cm_false_negative_count = 0,
      cm_detector_error_count = 0\<rparr>"

definition recorded_trace_metrics :: items where
  "recorded_trace_metrics =
     [(''clean_trace_accept_rate'', PFloat 1), (''clean_trace_count'', PInt 1), (''detector_error_count'', PInt 0),
      (''false_negative_count'', PInt 0), (''false_positive_count'', PInt 0), (''mutation_count'', PInt 1),
      (''mutation_detection_rate'', PFloat 1)]"

definition pinned_detection_gates :: items where
  "pinned_detection_gates =
     [(''clean_trace_accept_rate'', equals_gate (PFloat 1)), (''detector_error_count'', equals_gate (PInt 0)),
      (''false_negative_count'', equals_gate (PInt 0)), (''false_positive_count'', equals_gate (PInt 0)),
      (''mutation_detection_rate'', equals_gate (PFloat 1))]"

definition sample_reliability_metrics :: items where
  "sample_reliability_metrics =
     [(''convergence_pass_rate'', PFloat 1), (''duplicate_effect_violations'', PInt 0),
      (''fail_closed_pass_rate'', PFloat 1), (''safety_pass_rate'', PFloat 1), (''scenario_pass_rate'', PFloat 1)]"

definition passed_gate :: "pyval \<Rightarrow> pyval" where
  "passed_gate v = PDict [(''actual'', v), (''operator'', PStr ''eq''), (''threshold'', v), (''passed'', PBool True)]"

definition sample_trace_gates :: items where
  "sample_trace_gates =
     [(''clean_trace_accept_rate'', passed_gate (PFloat 1)), (''detector_error_count'', passed_gate (PInt 0)),
      (''false_negative_count'', passed_gate (PInt 0)), (''false_positive_count'', passed_gate (PInt 0)),
      (''mutation_detection_rate'', passed_gate (PFloat 1))]"

definition sample_reliability_gates :: items where
  "sample_reliability_gates =
     [(''convergence_pass_rate'', passed_gate (PFloat 1)), (''duplicate_effect_violations'', passed_gate (PInt 0)),
      (''fail_closed_pass_rate'', passed_gate (PFloat 1)), (''safety_pass_rate'', passed_gate (PFloat 1)),
      (''scenario_pass_rate'', passed_gate (PFloat 1))]"

definition sample_execution :: items where
  "sample_execution =
     [(''independent_runs_required'', PInt 1), (''normalized_output_byte_equal_required'', PBool True)]"

definition sha_entry :: "8 word list \<Rightarrow> pyval" where
  "sha_entry bytes = PDict [(''sha256'', PStr (sha256_hex bytes))]"

definition published_trace_protocol :: items where
  "published_trace_protocol =
     [(''protocol_id'', PStr ''trace''), (''execution'', PDict sample_execution),
      (''detection_gates'', PDict pinned_detection_gates), (''detector'', sha_entry [7]),
      (''artifacts'', PDict [(''trace_schema'', sha_entry [4]), (''baseline_traces'', sha_entry [5]),
                             (''mutation_corpus'', sha_entry [6])])]"

definition published_trace_run :: items where
  "published_trace_run = [(''metrics'', PDict recorded_trace_metrics)]"

definition published_trace_results :: items where
  "published_trace_results =
     [(''schema_version'', PStr ''carl.trace-integrity-publication.v1''), (''protocol_id'', PStr ''trace''),
      (''freeze_commit_sha'', PStr trace_freeze_commit), (''protocol_sha256'', PStr (sha256_hex [1])),
      (''frozen_artifacts'', frozen_artifacts (PStr (sha256_hex [5])) (PStr (sha256_hex [7])) (PStr (sha256_hex [6]))
          (PStr (sha256_hex [4]))),
      (''metrics'', PDict recorded_trace_metrics),
      (''run_artifacts'', run_artifacts ''evals/trace_integrity_v1'' [[3]]),
      (''reproduction'', reproduction_summary (PInt 1) [[3]]),
      (''frozen_gates'', PDict sample_trace_gates), (''aggregate_disposition'', PStr ''pass'')]"

definition published_reliability_protocol :: items where
  "published_reliability_protocol =
     [(''protocol_id'', PStr ''reliability''), (''execution'', PDict sample_execution),
      (''metrics'', PDict pinned_metric_gates),
      (''scenario_manifest'', PDict [(''sha256'', PStr (sha256_hex [14])), (''scenario_count'', PInt 0)])]"

definition published_reliability_run :: items where
  "published_reliability_run = [(''metrics'', PDict sample_reliability_metrics)]"

definition published_reliability_results :: items where
  "published_reliability_results =
     [(''schema_version'', PStr ''carl.reliability-evaluation-publication.v1''), (''protocol_id'', PStr ''reliability''),
      (''freeze_commit_sha'', PStr reliability_freeze_commit), (''protocol_sha256'', PStr (sha256_hex [11])),
      (''scenario_manifest_sha256'', PStr (sha256_hex [14])),
      (''metrics'', PDict sample_reliability_metrics),
      (''run_artifacts'', run_artifacts ''evals/reliability_v1'' [[13]]),
      (''reproduction'', reproduction_summary (PInt 1) [[13]]),
      (''frozen_gates'', PDict sample_reliability_gates), (''aggregate_disposition'', PStr ''pass'')]"

definition published_files :: "string \<Rightarrow> 8 word list option" where
  "published_files = map_of
     [(''evals/trace_integrity_v1/PROTOCOL.json'', [1]), (''evals/trace_integrity_v1/RESULTS.json'', [2]),
      (''evals/trace_integrity_v1/artifacts/run-1.json'', [3]), (''evals/trace_integrity_v1/TRACE_SCHEMA.json'', [4]),
      (''evals/trace_integrity_v1/BASELINE_TRACES.json'', [5]), (''evals/trace_integrity_v1/MUTATIONS.json'', [6]),
      (''src/agent_reliability_lab/trace_integrity.py'', [7]), (''evals/trace_integrity_v1/verify_results.py'', [8]),
      (''evals/reliability_v1/PROTOCOL.json'', [11]), (''evals/reliability_v1/RESULTS.json'', [12]),
      (''evals/reliability_v1/artifacts/run-1.json'', [13]), (''evals/reliability_v1/SCENARIOS.json'', [14]),
      (''evals/reliability_v1/verify_results.py'', [15])]"

definition published_documents :: "8 word list \<Rightarrow> pyval option" where
  "published_documents = map_of
     [([1], PDict published_trace_protocol), ([2], PDict published_trace_results), ([3], PDict published_trace_run),
      ([11], PDict published_reliability_protocol), ([12], PDict published_reliability_results),
      ([13], PDict published_reliability_run), ([14], PDict [(''scenarios'', PList [])])]"

definition published_environment :: environment where
  "published_environment =
     \<lparr>files = published_files, blobs = (\<lambda>commit. published_files),
      read_json = (\<lambda>bytes. Inr (published_documents bytes)), exit_code = (\<lambda>path. 0)\<rparr>"

definition published_source :: "string \<Rightarrow> pyval \<Rightarrow> pyval \<Rightarrow> pyval \<Rightarrow> 8 word \<Rightarrow> 8 word \<Rightarrow> 8 word \<Rightarrow> items" where
  "published_source directory schema protocol_id commit protocol res verifier =
     [(''protocol_id'', protocol_id), (''freeze_commit_sha'', commit), (''result_commit_sha'', commit),
      (''protocol_path'', PStr (directory @ ''/PROTOCOL.json'')), (''protocol_sha256'', PStr (sha256_hex [protocol])),
      (''result_path'', PStr (directory @ ''/RESULTS.json'')), (''result_sha256'', PStr (sha256_hex [res])),
      (''result_schema_version'', schema),
      (''result_verifier_path'', PStr (directory @ ''/verify_results.py'')),
      (''result_verifier_sha256'', PStr (sha256_hex [verifier]))]"

definition published_trace_source :: items where
  "published_trace_source =
     published_source ''evals/trace_integrity_v1'' (PStr ''carl.trace-integrity-publication.v1'') (PStr ''trace'')
       (PStr trace_freeze_commit) 1 2 8"

definition published_reliability_source :: items where
  "published_reliability_source =
     published_source ''evals/reliability_v1'' (PStr ''carl.reliability-evaluation-publication.v1'') (PStr ''reliability'')
       (PStr reliability_freeze_commit) 11 12 15"

definition published_criteria :: items where
  "published_criteria =
     [(''minimum_source_independent_runs'', PInt 1), (''required_source_count'', PInt 2),
      (''required_source_disposition'', PStr ''pass'')]"

definition published_evidence :: items where
  "published_evidence = [(''sources'', PList [PDict published_reliability_source, PDict published_trace_source])]"

lemma sample_paths:
  "run_path ''evals/trace_integrity_v1'' 1 = ''evals/trace_integrity_v1/artifacts/run-1.json''"
  "run_path ''evals/reliability_v1'' 1 = ''evals/reliability_v1/artifacts/run-1.json''"
  by code_simp+

lemma derived_trace_gates:
  "derive_detection_gates published_trace_protocol recorded_trace_metrics = Inr sample_trace_gates"
proof -
  have "map_result (derive_gate recorded_trace_metrics) (sort_key fst pinned_detection_gates) =
      Inr sample_trace_gates"
    by code_simp
  then show ?thesis
    by (simp add: derive_detection_gates_def derive_gate_results_def published_trace_protocol_def py_get_Cons)
qed

lemma derived_reliability_gates:
  "derive_metric_gates published_reliability_protocol sample_reliability_metrics = Inr sample_reliability_gates"
proof -
  have "map_result (derive_gate sample_reliability_metrics) (sort_key fst pinned_metric_gates) =
      Inr sample_reliability_gates"
    by code_simp
  then show ?thesis
    by (simp add: derive_metric_gates_def derive_gate_results_def published_reliability_protocol_def py_get_Cons)
qed

lemma published_environment_simps [simp]:
  "files published_environment = published_files" "blobs published_environment commit = published_files"
  "read_json published_environment bytes = Inr (published_documents bytes)" "exit_code published_environment path = 0"
  by (simp_all add: published_environment_def)

lemma published_lookup:
  "published_files ''evals/trace_integrity_v1/PROTOCOL.json'' = Some [1]"
  "published_files ''evals/trace_integrity_v1/RESULTS.json'' = Some [2]"
  "published_files ''evals/trace_integrity_v1/artifacts/run-1.json'' = Some [3]"
  "published_files ''evals/trace_integrity_v1/TRACE_SCHEMA.json'' = Some [4]"
  "published_files ''evals/trace_integrity_v1/BASELINE_TRACES.json'' = Some [5]"
  "published_files ''evals/trace_integrity_v1/MUTATIONS.json'' = Some [6]"
  "published_files ''src/agent_reliability_lab/trace_integrity.py'' = Some [7]"
  "published_files ''evals/trace_integrity_v1/verify_results.py'' = Some [8]"
  "published_files ''evals/reliability_v1/PROTOCOL.json'' = Some [11]"
  "published_files ''evals/reliability_v1/RESULTS.json'' = Some [12]"
  "published_files ''evals/reliability_v1/artifacts/run-1.json'' = Some [13]"
  "published_files ''evals/reliability_v1/SCENARIOS.json'' = Some [14]"
  "published_files ''evals/reliability_v1/verify_results.py'' = Some [15]"
  by (simp_all add: published_files_def)

lemma published_parsed:
  "published_documents [1] = Some (PDict published_trace_protocol)"
  "published_documents [2] = Some (PDict published_trace_results)"
  "published_documents [3] = Some (PDict published_trace_run)"
  "published_documents [11] = Some (PDict published_reliability_protocol)"
  "published_documents [12] = Some (PDict published_reliability_results)"
  "published_documents [13] = Some (PDict published_reliability_run)"
  "published_documents [14] = Some (PDict [(''scenarios'', PList [])])"
  by (simp_all add: published_documents_def)

lemma sample_required:
  "py_get protocol ''execution'' = PDict sample_execution \<Longrightarrow> required_runs protocol = Inr (sample_execution, PInt 1)"
  by (auto simp: required_runs_Inr sample_execution_def py_get_Cons)

lemma sample_run_read:
  "files env (run_path directory 1) = Some bytes \<Longrightarrow> read_runs env directory (PInt 1) = Inr [bytes]"
  by (simp add: read_runs_def read_bytes_def)

lemma sample_checks:
  "check_run_count (PInt 1) [bytes] [] = []" "check_byte_equal sample_execution [bytes] [] = []"
  by (simp_all add: run_count_clean byte_equal_clean byte_equal_iff)

lemma sample_gates_passed:
  "list_all gate_entry_passed sample_trace_gates" "list_all gate_entry_passed sample_reliability_gates"
  by (simp_all add: sample_trace_gates_def sample_reliability_gates_def gate_entry_passed_def passed_gate_def
      dict_of_def py_get_Cons)

lemma check_gates_passed:
  assumes "py_get normalized ''metrics'' = PDict metrics" "derive metrics = Inr derived"
    and "py_eq (py_get res ''frozen_gates'') (PDict derived)" "derived \<noteq> []" "list_all gate_entry_passed derived"
    and "py_get res ''aggregate_disposition'' = PStr ''pass''"
  shows "check_gates derive res normalized [] = Inr []"
  using assms by (simp add: check_gates_def gates_or_error_def flag_def del: py_eq.simps)

lemma trace_results_valid:
  "validate_trace_publication (sha256_hex [1]) published_environment published_trace_protocol
     (PDict published_trace_results) [[3]]
     \<lparr>fd_protocol = sha256_hex [1], fd_detector = sha256_hex [7], fd_schema = sha256_hex [4],
      fd_baselines = sha256_hex [5], fd_mutations = sha256_hex [6]\<rparr> = Inr []"
proof -
  have required: "required_runs published_trace_protocol = Inr (sample_execution, PInt 1)"
    by (rule sample_required) (simp add: published_trace_protocol_def py_get_Cons)
  have artifacts: "expected_frozen_artifacts published_trace_protocol =
      Inr (frozen_artifacts (PStr (sha256_hex [5])) (PStr (sha256_hex [7])) (PStr (sha256_hex [6])) (PStr (sha256_hex [4])))"
    by (simp add: expected_frozen_artifacts_def subscript_def published_trace_protocol_def sha_entry_def)
  have same: "py_eq (frozen_artifacts b d m s) (frozen_artifacts b d m s)"
    if "py_eq b b" "py_eq d d" "py_eq m m" "py_eq s s" for b d m s
    using that by (simp add: frozen_artifacts_def)
  have fields: "check_fields published_trace_results
      (trace_publication_fields published_trace_protocol
        \<lparr>fd_protocol = sha256_hex [1], fd_detector = sha256_hex [7], fd_schema = sha256_hex [4],
         fd_baselines = sha256_hex [5], fd_mutations = sha256_hex [6]\<rparr>
        (frozen_artifacts (PStr (sha256_hex [5])) (PStr (sha256_hex [7])) (PStr (sha256_hex [6])) (PStr (sha256_hex [4])))
        published_trace_run (PInt 1) [[3]]) [] = []"
    unfolding check_fields_clean
    by (simp add: trace_publication_fields_def published_trace_results_def published_trace_protocol_def
        published_trace_run_def py_get_Cons frozen_artifacts_def run_artifacts_def reproduction_summary_def
        recorded_trace_metrics_def)
  have "check_gates (derive_detection_gates published_trace_protocol) published_trace_results published_trace_run [] =
      Inr []"
    by (rule check_gates_passed [where metrics = recorded_trace_metrics and derived = sample_trace_gates])
      (simp_all add: derived_trace_gates sample_gates_passed,
       simp_all add: published_trace_run_def published_trace_results_def py_get_Cons sample_trace_gates_def passed_gate_def)
  then show ?thesis
    by (simp add: validate_trace_publication_def required sample_checks artifacts actual_frozen_artifacts_def same
        flag_def normalized_run_def published_parsed mapping_of_def fields del: check_fields.simps py_eq.simps(4))
qed

lemma reliability_results_valid:
  "validate_reliability_publication (sha256_hex [11]) published_environment published_reliability_protocol
     (PDict [(''scenarios'', PList [])]) (PDict published_reliability_results) [[13]] (sha256_hex [11]) (sha256_hex [14]) =
     Inr []"
proof -
  have required: "required_runs published_reliability_protocol = Inr (sample_execution, PInt 1)"
    by (rule sample_required) (simp add: published_reliability_protocol_def py_get_Cons)
  have manifest: "py_get published_reliability_protocol ''scenario_manifest'' =
      PDict [(''sha256'', PStr (sha256_hex [14])), (''scenario_count'', PInt 0)]"
    by (simp add: published_reliability_protocol_def py_get_Cons)
  have scenarios: "check_scenario_manifest published_reliability_protocol [(''scenarios'', PList [])] (sha256_hex [14]) [] = []"
    by (simp add: check_scenario_manifest_def manifest py_get_Cons flag_def)
  have fields: "check_fields published_reliability_results
      (reliability_publication_fields published_reliability_protocol (sha256_hex [11]) (sha256_hex [14])
        published_reliability_run (PInt 1) [[13]]) [] = []"
    unfolding check_fields_clean
    by (simp add: reliability_publication_fields_def published_reliability_results_def
        published_reliability_protocol_def published_reliability_run_def py_get_Cons run_artifacts_def
        reproduction_summary_def sample_reliability_metrics_def)
  have "check_gates (derive_metric_gates published_reliability_protocol) published_reliability_results
      published_reliability_run [] = Inr []"
    by (rule check_gates_passed [where metrics = sample_reliability_metrics and derived = sample_reliability_gates])
      (simp_all add: derived_reliability_gates sample_gates_passed,
       simp_all add: published_reliability_run_def published_reliability_results_def py_get_Cons
        sample_reliability_gates_def passed_gate_def)
  then show ?thesis
    by (simp add: validate_reliability_publication_def required sample_checks manifest scenarios
        flag_def normalized_run_def published_parsed mapping_of_def fields del: check_fields.simps py_eq.simps(4))
qed

lemma published_runs_required:
  "nested_item [''execution'', ''independent_runs_required''] (PDict published_trace_protocol) = Inr (PInt 1)"
  "nested_item [''execution'', ''independent_runs_required''] (PDict published_reliability_protocol) = Inr (PInt 1)"
  by (simp_all add: subscript_def published_trace_protocol_def published_reliability_protocol_def sample_execution_def)

lemma published_load:
  "published_files path = Some bytes \<Longrightarrow> published_documents bytes = Some v \<Longrightarrow>
     load_file published_environment path = Inr v"
  "published_files path = Some bytes \<Longrightarrow> digest_of published_environment path = Inr (sha256_hex bytes)"
  by (simp_all add: load_file_def digest_of_def read_bytes_def)

lemma published_payloads:
  "read_runs published_environment ''evals/trace_integrity_v1'' (PInt 1) = Inr [[3]]"
  "read_runs published_environment ''evals/reliability_v1'' (PInt 1) = Inr [[13]]"
  by (rule sample_run_read, unfold sample_paths, simp add: published_lookup)+

lemma trace_main_accepts: "trace_results_main (sha256_hex [1]) published_environment = Inr 0"
  by (simp add: trace_results_main_def published_load published_lookup published_parsed published_runs_required
      published_payloads trace_results_valid mapping_of_def verdict_def del: nested_item.simps)

lemma reliability_main_accepts: "reliability_results_main (sha256_hex [11]) published_environment = Inr 0"
  by (simp add: reliability_results_main_def published_load published_lookup published_parsed published_runs_required
      published_payloads reliability_results_valid mapping_of_def verdict_def del: nested_item.simps)

lemma published_pinned:
  "all_pinned published_environment published_trace_source" "all_pinned published_environment published_reliability_source"
  by (simp_all add: all_pinned_def pinned_def published_trace_source_def published_reliability_source_def
      published_source_def py_get_Cons published_lookup trace_freeze_commit_def reliability_freeze_commit_def)

lemma published_results_load:
  "load_result published_environment published_trace_source = Inr (Some published_trace_results)"
  "load_result published_environment published_reliability_source = Inr (Some published_reliability_results)"
  by (simp_all add: load_result_def published_trace_source_def published_reliability_source_def published_source_def
      py_get_Cons published_lookup published_parsed)

lemma published_qualify:
  "publication_qualifies published_criteria published_trace_source published_trace_results"
  "publication_qualifies published_criteria published_reliability_source published_reliability_results"
  by (simp_all add: publication_qualifies_def all_gates_passed_def reproduced_def published_criteria_def
      published_trace_source_def published_reliability_source_def published_source_def published_trace_results_def
      published_reliability_results_def py_get_Cons reproduction_summary_def byte_equal_def sample_trace_gates_def
      sample_reliability_gates_def passed_gate_def)

lemma published_sources_qualify:
  "source_qualifies published_environment published_criteria published_trace_source"
  "source_qualifies published_environment published_criteria published_reliability_source"
  by (simp_all add: source_qualifies_def published_pinned published_results_load published_qualify)
    (simp_all add: published_trace_source_def published_reliability_source_def published_source_def py_get_Cons)

abbreviation published_release :: items where
  "published_release \<equiv> [(''release_criteria'', PDict published_criteria)]"

lemma published_ready:
  "\<exists>rep. evaluate_manifest repr published_environment published_release published_evidence = Inr rep \<and>
     gr_release_ready rep"
proof -
  have evidence: "py_get published_evidence ''sources'' = PList [PDict published_reliability_source, PDict published_trace_source]"
    by (simp add: published_evidence_def py_get_Cons)
  have objects: "objects_of [PDict published_reliability_source, PDict published_trace_source] =
      [published_reliability_source, published_trace_source]"
    by (simp add: objects_of_def List.map_filter_simps)
  have criteria: "py_get published_release ''release_criteria'' = PDict published_criteria"
    by (simp add: py_get_Cons)
  have "returns (map_result (evaluate_source repr published_environment published_criteria)
      [published_reliability_source, published_trace_source])"
    by (simp only: map_result_returns evaluate_source_returns) (simp add: published_results_load)
  then obtain rep where rep: "evaluate_manifest repr published_environment published_release published_evidence = Inr rep"
    unfolding returns_iff by (auto simp: evaluate_manifest_Inr evidence objects criteria simp del: map_result.simps)
  have count: "as_int (py_get published_criteria ''required_source_count'') = Some 2"
    by (simp add: published_criteria_def py_get_Cons)
  have "gr_release_ready rep"
    unfolding ready_conditions [OF rep] evidence criteria
    using published_sources_qualify by (auto simp: objects count)
  with rep show ?thesis by blast
qed

lemma published_fields:
  "py_get published_evidence ''sources'' = PList [PDict published_reliability_source, PDict published_trace_source]"
  "py_get published_release ''release_criteria'' = PDict published_criteria"
  "py_get published_criteria ''required_source_disposition'' = PStr ''pass''"
  "py_get published_trace_source ''result_path'' = PStr ''evals/trace_integrity_v1/RESULTS.json''"
  "py_get published_trace_source ''result_verifier_path'' = PStr ''evals/trace_integrity_v1/verify_results.py''"
  "py_get published_reliability_source ''result_path'' = PStr ''evals/reliability_v1/RESULTS.json''"
  "py_get published_reliability_source ''result_verifier_path'' = PStr ''evals/reliability_v1/verify_results.py''"
  by (simp_all add: published_evidence_def published_criteria_def published_trace_source_def
      published_reliability_source_def published_source_def py_get_Cons)

lemma published_exit:
  "exit_code published_environment path = exit_status (trace_results_main (sha256_hex [1]) published_environment)"
  "exit_code published_environment path = exit_status (reliability_results_main (sha256_hex [11]) published_environment)"
  by (simp_all add: trace_main_accepts reliability_main_accepts exit_status_def)

theorem ready_release_meets_gates_witness:
  "recorded_gates_met ''evals/trace_integrity_v1'' ''detection_gates'' (sha256_hex [1]) published_environment \<and>
   recorded_gates_met ''evals/reliability_v1'' ''metrics'' (sha256_hex [11]) published_environment"
proof -
  obtain rep where "evaluate_manifest (\<lambda>v. []) published_environment published_release published_evidence = Inr rep"
    "gr_release_ready rep"
    using published_ready by blast
  then show ?thesis
    by (rule ready_release_meets_gates [OF _ _ published_fields(2,3,1) _ published_fields(4,5) published_exit(1)
        _ published_fields(6,7) published_exit(2)]) simp_all
qed

definition published_corpus :: items where
  "published_corpus = [(''traces'', PList [PDict sample_trace])]"

definition published_mutations :: items where
  "published_mutations =
     [(''mutations'', PList [PDict ((''id'', PStr ''m'') # (''base_trace_id'', PStr ''sample'') #
        replacement ''/scope'' PNone)])]"

lemma published_corpus_metrics:
  "\<exists>corpus. evaluate_trace_corpus published_corpus published_mutations = Inr corpus \<and>
     cr_metrics corpus = sample_metrics"
proof -
  define item where "item = (''id'', PStr ''m'') # (''base_trace_id'', PStr ''sample'') # replacement ''/scope'' PNone"
  have key: "map_of sample_trace ''trace_id'' = Some (PStr ''sample'')" by (simp add: sample_trace_def)
  have tokens: "pointer_tokens ''/scope'' = Inr [''scope'']" by code_simp
  have "apply_mutation sample_trace item = Inr (PDict (set_item ''scope'' PNone sample_trace))"
    by (simp add: apply_mutation_def item_def replacement_def py_get_Cons tokens change_of_def replace_child_def)
      (simp add: sample_trace_def)
  moreover have "validate_trace (set_item ''scope'' PNone sample_trace) = Inr [''scope_missing_or_invalid'']"
    by (simp add: validate_trace_def sample_trace_def set_item_def py_get_Cons)
  ultimately have mutated: "mutation_result [(PStr ''sample'', PDict sample_trace)] (PDict item) =
      Inr \<lparr>tr_id = PStr ''m'', tr_verdict = True, tr_violations = [''scope_missing_or_invalid'']\<rparr>"
    by (simp add: mutation_result_def subscript_def lookup_trace_def dict_of_def) (simp add: item_def)
  have clean: "clean_result (PDict sample_trace) = Inr \<lparr>tr_id = PStr ''sample'', tr_verdict = True, tr_violations = []\<rparr>"
    by (simp add: clean_result_def dict_of_def sample_accepted subscript_def key)
  have "keyed_trace (PDict sample_trace) = Inr (PStr ''sample'', PDict sample_trace)"
    by (simp add: keyed_trace_def subscript_def key)
  then show ?thesis
    using mutated clean
    by (simp add: evaluate_trace_corpus_def published_corpus_def published_mutations_def py_get_Cons item_def
        corpus_summary_def ratio_def count_rejected_def sample_metrics_def)
qed

theorem ready_release_checked_the_corpus_witness:
  "\<exists>corpus. evaluate_trace_corpus published_corpus published_mutations = Inr corpus \<and>
     corpus_is_checked published_corpus corpus"
proof -
  obtain rep where ready: "evaluate_manifest (\<lambda>v. []) published_environment published_release published_evidence = Inr rep"
    "gr_release_ready rep"
    using published_ready by blast
  obtain corpus where corpus: "evaluate_trace_corpus published_corpus published_mutations = Inr corpus"
    and "cr_metrics corpus = sample_metrics"
    using published_corpus_metrics by blast
  have same: "py_eq (PDict recorded_trace_metrics) (PDict (corpus_metrics_items sample_metrics))" by code_simp
  have metrics: "py_eq (py_get published_trace_run ''metrics'') (PDict (corpus_metrics_items (cr_metrics corpus)))"
    using same \<open>cr_metrics corpus = sample_metrics\<close> by (simp add: published_trace_run_def py_get_Cons del: py_eq.simps)
  have member: "PDict published_trace_source \<in> set [PDict published_reliability_source, PDict published_trace_source]"
    by simp
  have gates: "load_file published_environment ''evals/trace_integrity_v1/PROTOCOL.json'' = Inr (PDict published_trace_protocol)"
    "wf_doc (PDict published_trace_protocol)"
    by (simp_all add: published_load published_lookup published_parsed)
      (simp add: published_trace_protocol_def pinned_detection_gates_def equals_gate_def sample_execution_def sha_entry_def)
  have "py_eq (PDict pinned_detection_gates) (PDict expected_detection_gates)" by code_simp
  then have frozen: "py_eq (py_get published_trace_protocol ''detection_gates'') (PDict expected_detection_gates)"
    by (simp add: published_trace_protocol_def py_get_Cons del: py_eq.simps)
  have run: "files published_environment ''evals/trace_integrity_v1/artifacts/run-1.json'' = Some [3]"
    "read_json published_environment [3] = Inr (Some (PDict published_trace_run))"
    "wf_doc (PDict published_trace_run)"
    by (simp_all add: published_lookup published_parsed)
      (simp add: published_trace_run_def recorded_trace_metrics_def)
  from ready_release_checked_the_corpus [OF ready published_fields(2,3,1) member published_fields(4,5) published_exit(1)
      gates frozen run metrics corpus] corpus
  show ?thesis by blast
qed

end
