(* ===== verification/Spec2Isabelle.thy ===== *)
theory Spec2Isabelle
  imports Prelude Digest Store Simulator Effects Approvals Durable Policy Reconciliation Lineage Fencing Recovery
    Documents TraceIntegrity TraceRules TraceSpec TraceMutations Evaluation
    ReleaseGate Publication Protocols Release
begin

text \<open>
  A model of the Coding Agent Reliability Lab (\<open>src/agent_reliability_lab\<close>): a Python package that
  shows how a coding-agent runtime survives crashes, lost acknowledgements, stale events and
  competing workers. Its modules are reducers that replay event streams, and stores that keep
  authority and progress in SQLite files that outlive the process. The model translates them function by
  function and proves what they promise.

  The parts and their theories.
  \<^item> \<open>Prelude\<close>: exceptions as values (an exception class and its message), dynamically typed
    values where the code tests types, string checks, SQL tables as association lists, transactions
    with rollback, 64-bit overflow of bound integers, and the locale \<open>reducer\<close> of event folds.
  \<^item> \<open>Digest\<close>: \<open>json.dumps\<close> of nested lists of strings with its injectivity, UTF-8, and SHA-256 in full.
  \<^item> \<open>Store\<close>: schedules of operations, the locales \<open>store\<close>, \<open>versioned_store\<close> and
    \<open>conditional_store\<close> (the contracts the SQLite classes share), and processes that crash between
    taking the write lock and committing.
  \<^item> \<open>Simulator\<close> (\<open>events.py\<close>, \<open>simulator.py\<close>): the run state of an agent turn and both modes of
    \<open>replay\<close>, with the exact outcome of each as a closed form. The scoped mode is blind to other
    turns, accounts for every event, and absorbs after termination.
  \<^item> \<open>Effects\<close> (\<open>effects.py\<close>): replay of side effects with an idempotency ledger.
  \<^item> \<open>Approvals\<close> (\<open>approvals.py\<close>): the approval lifecycle; nothing runs without an exact prior approval.
  \<^item> \<open>Durable\<close> (\<open>durable.py\<close>): \<open>DurableSandbox\<close>, with the crash checkpoints of \<open>execute\<close>.
  \<^item> \<open>Policy\<close>: the durable sandbox implements the approval reducer on the operations that
    \<open>LocalOperation\<close> can be constructed for (a simulation).
  \<^item> \<open>Reconciliation\<close> (\<open>reconciliation.py\<close>): the decision whether to retry after a lost
    acknowledgement, the conditional write and its SQLite provider.
  \<^item> \<open>Lineage\<close> (\<open>evidence_lineage.py\<close>): persistent heads of provider evidence and completions.
  \<^item> \<open>Fencing\<close> (\<open>fencing.py\<close>): fencing tokens, pure and persistent.
  \<^item> \<open>Recovery\<close> (\<open>recovery.py\<close>): checkpoint lineage of recoverable runs.
  \<^item> \<open>Documents\<close>: parsed JSON as Python sees it: \<open>get\<close>, subscripts, \<open>==\<close> across numbers, hashing,
    \<open>int()\<close> of text, negative list indices.
  \<^item> \<open>TraceIntegrity\<close> (\<open>trace_integrity.py\<close>): the digest check, mutations by JSON pointer, the
    trace validator record by record, the evaluation of a corpus.
  \<^item> \<open>TraceRules\<close>, \<open>TraceSpec\<close>: the trace schema's cross-record rules as a predicate, which the validator
    decides, and what it implies for approvals, evidence, completions and checkpoints.
  \<^item> \<open>TraceMutations\<close>: what mutations keep and undo, which are always detected, and the corpus metrics.
  \<^item> \<open>Evaluation\<close> (\<open>evaluation.py\<close>): the eleven frozen scenarios, run on the theories of the modules they
    drive, their summary and the report.
  \<^item> \<open>ReleaseGate\<close> (\<open>evals/release_gate_v1/evaluate.py\<close>): the checks of a source and the release decision.
  \<^item> \<open>Publication\<close> (the three \<open>verify_results.py\<close>) and \<open>Protocols\<close> (the three
    \<open>verify_protocol.py\<close>): gates, published results, frozen protocols and pinned sources.
  \<^item> \<open>Release\<close>: how they fit together, from a ready release to the metrics of the recorded runs; the locale
    \<open>result_verifier\<close> is the contract of a verifier process, and both evaluations' scripts interpret it.
    Gates and metrics are compared as the code compares dicts, whatever the order of their keys.

  How state and operations correspond. Each store class is a record of its tables (\<open>sandbox_db\<close>,
  \<open>provider_db\<close>, \<open>lineage_db\<close>, \<open>fencing_db\<close>, \<open>recovery_db\<close>) and each method a function
  from arguments and database to its outcome and the next database, statement by statement, early
  returns and exceptions included. A method name that clashes with another is qualified:
  \<open>notes\<close> is \<open>list_notes\<close>, \<open>read\<close> is \<open>read_operation\<close>, \<open>record\<close> is \<open>record_evidence\<close>,
  \<open>current\<close> is \<open>current_head\<close> and \<open>current_checkpoint\<close>, \<open>completion\<close> is \<open>completion_of\<close>,
  \<open>write\<close> is \<open>write_value\<close>, \<open>state\<close> is \<open>state_of\<close>. \<open>transaction\<close> is the \<open>_transaction\<close>
  context manager: all rows of the block are kept if it returns and none if it raises. The
  \<open>*_exec\<close> functions gather a class's methods into one operation type, so that schedules can be
  stated; every class interprets the locales of \<open>Store\<close> on them. \<open>BEGIN IMMEDIATE\<close> serializes
  the transactions of all processes, so a schedule is a list; \<open>reachable\<close> adds crashes.

  The scripts under \<open>evals\<close> take what is outside the program from the record \<open>environment\<close>: file
  bytes by path, Git blobs by commit and path, the JSON reader (a value, a caught or an uncaught
  exception) and the exit code of a verifier process. Their theorems hold for every environment, and
  for every frozen digest (the modules' constants are arguments of the \<open>*_main\<close> functions, and
  \<open>*_script\<close> is the script with its own). A \<open>validate\<close> function returns its list of messages in the
  order of the code; \<open>check_fields\<close> is a run of comparisons with one message each. Scenario results are
  sequenced by \<open>andthen\<close>, which stops at an exception and keeps the state written so far. The \<open>repr\<close> of
  floats, lists and dicts, the text of interpreter exceptions and the names of temporary directories
  are arguments.

  What the lemmas show. Per theory: how each operation changes the database (the \<open>*_exec_cases\<close>
  rules), the invariant of the tables and that every operation keeps it and a failing one changes
  nothing (the interpretation proofs), and on top the properties C1, C2, ... in the text blocks:
  safety in every schedule, refinement of abstract specifications, decision tables, round trips
  and recovery. The hypotheses that remain are the invariants (which a new file satisfies and
  every operation keeps) and that the 64-bit revision counter of SQLite is not exhausted.

  Bounds. All loops are structural recursions over finite lists, so there is no fuel. Integers are
  unbounded as in Python; what is stored is checked to fit 64 bits. Strings range over the code
  points below 256. Floats are exact rationals: the rates are quotients of counts, so a rate is 1.0
  exactly when the counts agree, and NaN does not occur. SHA-256 runs on machine words of 32 and 64 bits; \<open>randomblob(16)\<close> is a
  128-bit word supplied by the environment. Digest equality yields equality of operations only up
  to a collision, which the statements name (\<open>sha256_collision\<close>).

  Not modelled. Printing, the command line of \<open>evaluation.py\<close> (\<open>parse_args\<close> and \<open>main\<close>) and the
  re-exports of \<open>__init__.py\<close>; the file system beyond the bytes at a path (directories,
  permissions, lock timeouts); the Git and Python processes that the release gate starts and the
  \<open>json\<close> parser, which are the environment; and the Python and SQLite implementations themselves: of
  SQLite the model uses the documented semantics of transactions, primary keys, upserts and ordering.
\<close>

end
